(* ===== verification/Prelude.thy ===== *)
theory Prelude
  imports Main "HOL-Library.Word" "HOL-Library.Monad_Syntax"
begin

text \<open>
  Shared vocabulary of the development.

  \<^item> The machine integers of the 32-bit targets (\<open>usize\<close> is 32 bits wide on every board the
    kernel supports) are words; pointers are \<open>usize\<close> words.
  \<^item> The option monad models the control effects of the kernel that do not return to the caller:
    \<open>None\<close> is a kernel panic (an index out of range, an \<open>unwrap\<close> of nothing, an explicit
    \<open>panic!\<close>, or an arithmetic overflow, which the checked builds turn into a panic). Where a
    theorem concludes \<open>Some\<close>, no overflow occurred, so it also holds of the unchecked
    builds.
  \<^item> \<open>chk_add\<close>, \<open>chk_sub\<close>, \<open>chk_mul\<close>, \<open>chk_div\<close> and \<open>chk_mod\<close> are Rust's plain
    operators with their overflow check; the methods \<open>wrapping_add\<close> and \<open>wrapping_sub\<close> of the
    source are the word operations \<open>+\<close> and \<open>-\<close>.
  \<^item> \<open>slice_get\<close>, \<open>slice_set\<close>, \<open>slice_range\<close> and \<open>slice_from\<close> are the checked accesses to a
    slice.
\<close>

unbundle bit_operations_syntax

type_synonym u8 = "8 word"
type_synonym u16 = "16 word"
type_synonym u32 = "32 word"
type_synonym u64 = "64 word"
type_synonym usize = "32 word"

named_theorems checked_arith \<open>characterisations of the checked operators over the naturals\<close>
named_theorems slice_access \<open>characterisations of the checked slice accesses\<close>

section \<open>Taking a monadic computation apart\<close>

text \<open>
  Elimination rules for a computation that returned; \<open>elim monad_elims\<close> walks down the sequence of
  bindings, conditionals and tuple patterns of a definition.
\<close>

lemma bind_SomeE:
  assumes "Option.bind m f = Some y" obtains v where "m = Some v" "f v = Some y"
  using assms by (auto simp: bind_eq_Some_conv)

lemma if_SomeE:
  assumes "(if b then x else y) = Some z"
  obtains (yes) "b" "x = Some z" | (no) "\<not> b" "y = Some z"
  using assms by (auto split: if_splits)

lemma case_prod_SomeE:
  assumes "case_prod f v = Some z" obtains a b where "v = (a, b)" "f a b = Some z"
  using assms by (cases v) auto

lemma case_option_SomeE:
  assumes "case_option x f v = Some z"
  obtains (none) "v = None" "x = Some z" | (some) w where "v = Some w" "f w = Some z"
  using assms by (cases v) auto

lemma case_sum_SomeE:
  assumes "case_sum f g v = Some z"
  obtains (left) e where "v = Inl e" "f e = Some z" | (right) w where "v = Inr w" "g w = Some z"
  using assms by (cases v) auto

lemmas monad_elims = bind_SomeE if_SomeE case_prod_SomeE case_option_SomeE case_sum_SomeE

section \<open>Checked arithmetic\<close>

definition chk_add :: "'a::len word \<Rightarrow> 'a word \<Rightarrow> 'a word option" where
  "chk_add a b = (if unat a + unat b < 2 ^ LENGTH('a) then Some (a + b) else None)"

definition chk_sub :: "'a::len word \<Rightarrow> 'a word \<Rightarrow> 'a word option" where
  "chk_sub a b = (if b \<le> a then Some (a - b) else None)"

definition chk_mul :: "'a::len word \<Rightarrow> 'a word \<Rightarrow> 'a word option" where
  "chk_mul a b = (if unat a * unat b < 2 ^ LENGTH('a) then Some (a * b) else None)"

definition chk_div :: "'a::len word \<Rightarrow> 'a word \<Rightarrow> 'a word option" where
  "chk_div a b = (if b = 0 then None else Some (a div b))"

definition chk_mod :: "'a::len word \<Rightarrow> 'a word \<Rightarrow> 'a word option" where
  "chk_mod a b = (if b = 0 then None else Some (a mod b))"

definition saturating_sub :: "'a::len word \<Rightarrow> 'a word \<Rightarrow> 'a word" where
  "saturating_sub a b = (if b \<le> a then a - b else 0)"

definition saturating_add :: "'a::len word \<Rightarrow> 'a word \<Rightarrow> 'a word" where
  "saturating_add a b = (case chk_add a b of Some c \<Rightarrow> c | None \<Rightarrow> - 1)"

lemma unat_less_2p: "unat (c :: 'a::len word) < 2 ^ LENGTH('a)"
  by (rule unsigned_less)

lemma chk_add_eq_Some [checked_arith]:
  "chk_add a b = Some c \<longleftrightarrow> unat c = unat a + unat b"
proof
  assume "chk_add a b = Some c"
  then show "unat c = unat a + unat b"
    by (auto simp: chk_add_def unat_word_ariths split: if_splits)
next
  assume c: "unat c = unat a + unat b"
  then have lt: "unat a + unat b < 2 ^ LENGTH('a)"
    using unat_less_2p [of c] by simp
  then have "unat (a + b) = unat c"
    using c by (simp add: unat_word_ariths)
  then show "chk_add a b = Some c"
    using lt by (simp add: chk_add_def word_unat_eq_iff)
qed

lemma chk_sub_eq_Some [checked_arith]:
  "chk_sub a b = Some c \<longleftrightarrow> unat a = unat b + unat c"
proof
  assume "chk_sub a b = Some c"
  then have "b \<le> a" "c = a - b"
    by (auto simp: chk_sub_def split: if_splits)
  then show "unat a = unat b + unat c"
    by (simp add: unat_sub word_le_nat_alt)
next
  assume eq: "unat a = unat b + unat c"
  then have le: "b \<le> a"
    by (simp add: word_le_nat_alt)
  then have "unat (a - b) = unat c"
    using eq by (simp add: unat_sub)
  then show "chk_sub a b = Some c"
    using le by (simp add: chk_sub_def word_unat_eq_iff)
qed

lemma chk_mul_eq_Some [checked_arith]:
  "chk_mul a b = Some c \<longleftrightarrow> unat c = unat a * unat b"
proof
  assume "chk_mul a b = Some c"
  then show "unat c = unat a * unat b"
    by (auto simp: chk_mul_def unat_word_ariths split: if_splits)
next
  assume c: "unat c = unat a * unat b"
  then have lt: "unat a * unat b < 2 ^ LENGTH('a)"
    using unat_less_2p [of c] by simp
  then have "unat (a * b) = unat c"
    using c by (simp add: unat_word_ariths)
  then show "chk_mul a b = Some c"
    using lt by (simp add: chk_mul_def word_unat_eq_iff)
qed

lemma chk_div_eq_Some [checked_arith]:
  "chk_div a b = Some c \<longleftrightarrow> b \<noteq> 0 \<and> unat c = unat a div unat b"
  by (auto simp: chk_div_def unat_div word_unat_eq_iff)

lemma chk_mod_eq_Some [checked_arith]:
  "chk_mod a b = Some c \<longleftrightarrow> b \<noteq> 0 \<and> unat c = unat a mod unat b"
  by (auto simp: chk_mod_def unat_mod word_unat_eq_iff)

text \<open>Introduction forms: the operation succeeds and its result is the one over the naturals.\<close>

lemma chk_addI:
  fixes a b :: "'a::len word"
  assumes "unat a + unat b < 2 ^ LENGTH('a)"
  shows "chk_add a b = Some (a + b)" "unat (a + b) = unat a + unat b"
  using assms by (simp_all add: chk_add_def unat_add_lem [THEN iffD1])

lemma chk_subI:
  fixes a b :: "'a::len word"
  assumes "unat b \<le> unat a"
  shows "chk_sub a b = Some (a - b)" "unat (a - b) = unat a - unat b"
  using assms by (simp_all add: chk_sub_def word_le_nat_alt unat_sub)

lemma chk_mulI:
  fixes a b :: "'a::len word"
  assumes "unat a * unat b < 2 ^ LENGTH('a)"
  shows "chk_mul a b = Some (a * b)" "unat (a * b) = unat a * unat b"
  using assms by (simp_all add: chk_mul_def unat_mult_lem [THEN iffD1])

lemma chk_divI:
  fixes a b :: "'a::len word"
  assumes "0 < unat b"
  shows "chk_div a b = Some (a div b)" "unat (a div b) = unat a div unat b"
  using assms by (auto simp: chk_div_def unat_div)

text \<open>Code equations that stay on binary numbers, so that evaluation does not count in unary.\<close>

lemma chk_add_code [code]: "chk_add a b = (if uint a + uint b < 2 ^ LENGTH('a) then Some (a + b) else None)"
  for a b :: "'a::len word"
proof -
  have e: "int (unat a + unat b) = uint a + uint b" by simp
  have "unat a + unat b < 2 ^ LENGTH('a) \<longleftrightarrow> int (unat a + unat b) < int (2 ^ LENGTH('a))"
    by (simp only: of_nat_less_iff)
  also have "\<dots> \<longleftrightarrow> uint a + uint b < 2 ^ LENGTH('a)" unfolding e by simp
  finally show ?thesis by (simp add: chk_add_def)
qed

lemma chk_mul_code [code]: "chk_mul a b = (if uint a * uint b < 2 ^ LENGTH('a) then Some (a * b) else None)"
  for a b :: "'a::len word"
proof -
  have e: "int (unat a * unat b) = uint a * uint b" by simp
  have "unat a * unat b < 2 ^ LENGTH('a) \<longleftrightarrow> int (unat a * unat b) < int (2 ^ LENGTH('a))"
    by (simp only: of_nat_less_iff)
  also have "\<dots> \<longleftrightarrow> uint a * uint b < 2 ^ LENGTH('a)" unfolding e by simp
  finally show ?thesis by (simp add: chk_mul_def)
qed

lemma unat_saturating_sub [simp]: "unat (saturating_sub a b) = unat a - unat b"
  by (auto simp: saturating_sub_def unat_sub word_le_nat_alt)

section \<open>Slices\<close>

definition slice_get :: "'a list \<Rightarrow> nat \<Rightarrow> 'a option" where
  "slice_get xs i = (if i < length xs then Some (xs ! i) else None)"

definition slice_set :: "'a list \<Rightarrow> nat \<Rightarrow> 'a \<Rightarrow> 'a list option" where
  "slice_set xs i x = (if i < length xs then Some (xs[i := x]) else None)"

text \<open>\<open>xs.get(i..j)\<close> and \<open>xs.get(i..)\<close>.\<close>

definition slice_range :: "'a list \<Rightarrow> nat \<Rightarrow> nat \<Rightarrow> 'a list option" where
  "slice_range xs i j = (if i \<le> j \<and> j \<le> length xs then Some (take (j - i) (drop i xs)) else None)"

definition slice_from :: "'a list \<Rightarrow> nat \<Rightarrow> 'a list option" where
  "slice_from xs i = (if i \<le> length xs then Some (drop i xs) else None)"

lemma slice_get_eq_Some [slice_access]:
  "slice_get xs i = Some x \<longleftrightarrow> i < length xs \<and> x = xs ! i"
  by (auto simp: slice_get_def)

lemma slice_get_eq_None [slice_access]: "slice_get xs i = None \<longleftrightarrow> length xs \<le> i"
  by (simp add: slice_get_def not_less)

lemma slice_set_eq_Some [slice_access]:
  "slice_set xs i x = Some ys \<longleftrightarrow> i < length xs \<and> ys = xs[i := x]"
  by (auto simp: slice_set_def)

lemma slice_range_eq_Some [slice_access]:
  "slice_range xs i j = Some ys \<longleftrightarrow> i \<le> j \<and> j \<le> length xs \<and> ys = take (j - i) (drop i xs)"
  by (auto simp: slice_range_def)

lemma slice_from_eq_Some [slice_access]:
  "slice_from xs i = Some ys \<longleftrightarrow> i \<le> length xs \<and> ys = drop i xs"
  by (auto simp: slice_from_def)

lemma shift_mod_inj:
  fixes h :: nat
  assumes "i < n" "j < n" "(h + i) mod n = (h + j) mod n"
  shows "i = j"
proof -
  have le: "i = j" if "i \<le> j" "j < n" "(h + i) mod n = (h + j) mod n" for i j
  proof -
    have "n dvd (h + j) - (h + i)"
      using that mod_eq_dvd_iff_nat [of "h + i" "h + j" n] by simp
    then have "n dvd j - i" by simp
    then show ?thesis
      using that nat_dvd_not_less [of "j - i" n] by (cases "i = j") auto
  qed
  show ?thesis
    using le [of i j] le [of j i] assms by (metis nat_le_linear)
qed

lemma slice_range_length: "slice_range xs i j = Some ys \<Longrightarrow> length ys = j - i"
  by (auto simp: slice_range_eq_Some)

lemma unat_mask_word: "unat (mask n :: 'a::len word) = mask (min LENGTH('a) n)"
  by (rule bit_eqI) (auto simp: bit_simps)

lemma unat_2p: "i < LENGTH('a) \<Longrightarrow> unat (2 ^ i :: 'a::len word) = 2 ^ i"
  by (rule bit_eqI) (auto simp: bit_simps)

section \<open>Results\<close>

text \<open>\<open>?\<close> on a \<open>Result\<close> and \<open>Option::ok_or\<close>.\<close>

fun and_then :: "'e + 'a \<Rightarrow> ('a \<Rightarrow> 'e + 'b) \<Rightarrow> 'e + 'b" where
  "and_then (Inl e) f = Inl e"
| "and_then (Inr x) f = f x"

lemma and_then_cong [fundef_cong]:
  "x = y \<Longrightarrow> (\<And>v. y = Inr v \<Longrightarrow> f v = g v) \<Longrightarrow> and_then x f = and_then y g"
  by (cases y) auto

definition ok_or :: "'a option \<Rightarrow> 'e \<Rightarrow> 'e + 'a" where
  "ok_or x e = (case x of None \<Rightarrow> Inl e | Some y \<Rightarrow> Inr y)"

named_theorems parse_step \<open>how a sequence of fallible steps propagates its results\<close>

lemma and_then_eq_Inr [parse_step]:
  "and_then x f = Inr y \<longleftrightarrow> (\<exists>v. x = Inr v \<and> f v = Inr y)"
  by (cases x) auto

lemma ok_or_eq_Inr [parse_step]: "ok_or x e = Inr y \<longleftrightarrow> x = Some y"
  by (auto simp: ok_or_def split: option.splits)

lemma ok_or_Some [simp]: "ok_or (Some x) e = Inr x"
  by (simp add: ok_or_def)

section \<open>Byte encodings\<close>

text \<open>
  \<open>from_le_bytes\<close>, \<open>from_be_bytes\<close> and \<open>to_be_bytes\<close> of the primitive integers, at any width.
\<close>

primrec from_le_bytes :: "u8 list \<Rightarrow> 'a::len word" where
  "from_le_bytes [] = 0"
| "from_le_bytes (b # bs) = ucast b OR push_bit 8 (from_le_bytes bs)"

definition from_be_bytes :: "u8 list \<Rightarrow> 'a::len word" where
  "from_be_bytes bs = from_le_bytes (rev bs)"

definition to_le_bytes :: "'a::len word \<Rightarrow> u8 list" where
  "to_le_bytes w = map (\<lambda>i. ucast (drop_bit (8 * i) w)) [0..<LENGTH('a) div 8]"

definition to_be_bytes :: "'a::len word \<Rightarrow> u8 list" where
  "to_be_bytes w = rev (to_le_bytes w)"

lemma bit_from_le_bytes:
  "bit (from_le_bytes bs :: 'a::len word) i \<longleftrightarrow>
     i < LENGTH('a) \<and> i div 8 < length bs \<and> bit (bs ! (i div 8)) (i mod 8)"
proof (induction bs arbitrary: i)
  case Nil
  then show ?case by simp
next
  case (Cons b bs)
  show ?case
  proof (cases "i < 8")
    case True
    then show ?thesis
      by (auto simp: bit_simps)
  next
    case False
    then obtain j where j: "i = 8 + j" by (metis le_Suc_ex linorder_not_le)
    have "\<not> bit b i" using False bit_imp_le_length [of b i] by auto
    moreover have "(8 + j) div 8 = Suc (j div 8)" by simp
    ultimately show ?thesis
      using Cons.IH [of j] by (auto simp: bit_simps j)
  qed
qed

lemma length_to_le_bytes [simp]: "length (to_le_bytes (w :: 'a::len word)) = LENGTH('a) div 8"
  by (simp add: to_le_bytes_def)

lemma bit_to_le_bytes:
  assumes "j < LENGTH('a) div 8"
  shows "bit (to_le_bytes (w :: 'a::len word) ! j) n \<longleftrightarrow> n < 8 \<and> bit w (8 * j + n)"
  using assms by (auto simp: to_le_bytes_def bit_simps)

lemma from_to_le_bytes:
  assumes "8 dvd LENGTH('a)"
  shows "from_le_bytes (to_le_bytes (w :: 'a::len word)) = w"
proof (rule bit_word_eqI)
  fix n assume n: "n < LENGTH('a)"
  then have "n div 8 < LENGTH('a) div 8"
    using assms by (metis dvd_mult_div_cancel mult.commute div_less_iff_less_mult zero_less_numeral)
  then show "bit (from_le_bytes (to_le_bytes w) :: 'a word) n = bit w n"
    using n by (simp add: bit_from_le_bytes bit_to_le_bytes)
qed

end
