(* ===== verification/Ram.thy ===== *)
theory Ram
  imports Prelude
begin

text \<open>
  Byte-addressed memory of the 32-bit machine, for the code that goes through raw pointers: the
  stack frame of a process, the grant region, a single byte written on behalf of a process. A word
  is four little-endian bytes. The lemmas say that a word read back is the word written and that a
  write leaves every byte outside its own four untouched.
\<close>

section \<open>Model\<close>

type_synonym ram = "usize \<Rightarrow> u8"

definition read_word :: "ram \<Rightarrow> usize \<Rightarrow> usize" where
  "read_word m a = from_le_bytes [m a, m (a + 1), m (a + 2), m (a + 3)]"

definition read_half :: "ram \<Rightarrow> usize \<Rightarrow> u16" where
  "read_half m a = from_le_bytes [m a, m (a + 1)]"

definition write_word :: "usize \<Rightarrow> usize \<Rightarrow> ram \<Rightarrow> ram" where
  "write_word a w m =
     (let bs = to_le_bytes w in
      m(a := bs ! 0, a + 1 := bs ! 1, a + 2 := bs ! 2, a + 3 := bs ! 3))"

definition span :: "usize \<Rightarrow> usize set" where
  "span a = {a, a + 1, a + 2, a + 3}"

section \<open>Lemmas\<close>

named_theorems ram_access \<open>reading after writing\<close>

lemma from_le_split:
  "from_le_bytes [ucast w, ucast (drop_bit 8 w), ucast (drop_bit 16 w), ucast (drop_bit 24 w)] = (w :: usize)"
  using from_to_le_bytes [of w] by (simp add: to_le_bytes_def upt_rec)

lemma to_le_bytes_nth:
  fixes w :: usize
  shows "to_le_bytes w ! 0 = ucast w" "to_le_bytes w ! Suc 0 = ucast (drop_bit 8 w)"
    "to_le_bytes w ! 2 = ucast (drop_bit 16 w)" "to_le_bytes w ! 3 = ucast (drop_bit 24 w)"
  by (simp_all add: to_le_bytes_def)

lemma word_offsets_distinct: "(a :: usize) \<noteq> a + 1" "a \<noteq> a + 2" "a \<noteq> a + 3" "a + 1 \<noteq> a + 2"
    "a + 1 \<noteq> a + 3" "a + 2 \<noteq> a + 3"
  by simp_all

lemma read_write_same [ram_access, simp]: "read_word (write_word a w m) a = w"
  using word_offsets_distinct [of a]
  by (simp add: read_word_def write_word_def Let_def to_le_bytes_nth from_le_split del: from_le_bytes.simps)

lemma write_word_outside [ram_access]: "x \<notin> span a \<Longrightarrow> write_word a w m x = m x"
  by (simp add: write_word_def span_def Let_def)

lemma read_write_other [ram_access]:
  "span a \<inter> span b = {} \<Longrightarrow> read_word (write_word a w m) b = read_word m b"
  by (auto simp: read_word_def span_def write_word_outside)

lemma read_word_cong: "(\<And>x. x \<in> span a \<Longrightarrow> m x = m' x) \<Longrightarrow> read_word m a = read_word m' a"
  by (simp add: read_word_def span_def)

lemma unat_add_small: "unat (a :: usize) + n < 2 ^ 32 \<Longrightarrow> unat (a + of_nat n) = unat a + n"
  by (simp add: unat_word_ariths unat_of_nat)

lemma span_unat:
  assumes "unat a + 4 \<le> 2 ^ 32"
  shows "x \<in> span a \<longleftrightarrow> unat a \<le> unat x \<and> unat x < unat a + 4"
proof -
  have u: "unat (a + 1) = unat a + 1" "unat (a + 2) = unat a + 2" "unat (a + 3) = unat a + 3"
    using assms unat_add_small [of a 1] unat_add_small [of a 2] unat_add_small [of a 3] by simp_all
  have "x \<in> span a \<longleftrightarrow> unat x \<in> {unat a, unat a + 1, unat a + 2, unat a + 3}"
    by (simp add: span_def word_unat_eq_iff u)
  then show ?thesis by auto
qed

lemma span_disjoint:
  assumes "unat a + 4 \<le> unat b" "unat b + 4 \<le> 2 ^ 32"
  shows "span a \<inter> span b = {}" "span b \<inter> span a = {}"
proof -
  have "x \<notin> span b" if "x \<in> span a" for x
    using that assms span_unat [of a x] span_unat [of b x] by auto
  then show "span a \<inter> span b = {}" "span b \<inter> span a = {}" by auto
qed

lemma read_write_below [ram_access]:
  "unat a + 4 \<le> unat b \<Longrightarrow> unat b + 4 \<le> 2 ^ 32 \<Longrightarrow> read_word (write_word a w m) b = read_word m b"
  by (simp add: read_write_other span_disjoint)

lemma read_write_above [ram_access]:
  "unat b + 4 \<le> unat a \<Longrightarrow> unat a + 4 \<le> 2 ^ 32 \<Longrightarrow> read_word (write_word a w m) b = read_word m b"
  by (simp add: read_write_other span_disjoint)

lemma span_offset_disjoint:
  assumes "i \<noteq> j" "unat a + 4 * i + 4 \<le> 2 ^ 32" "unat a + 4 * j + 4 \<le> 2 ^ 32"
  shows "span (a + of_nat (4 * i)) \<inter> span (a + of_nat (4 * j)) = {}"
proof -
  have u: "unat (a + of_nat (4 * i)) = unat a + 4 * i" "unat (a + of_nat (4 * j)) = unat a + 4 * j"
    using assms unat_add_small [of a "4 * i"] unat_add_small [of a "4 * j"] by simp_all
  from assms(1) have "i < j \<or> j < i" by auto
  then show ?thesis
    using span_disjoint [of "a + of_nat (4 * i)" "a + of_nat (4 * j)"]
      span_disjoint [of "a + of_nat (4 * j)" "a + of_nat (4 * i)"] u assms by auto
qed

end
