(* ===== verification/Errorcode.thy ===== *)
theory Errorcode
  imports Prelude
begin

text \<open>
  The error codes of \<open>kernel/src/errorcode.rs\<close>, their numbering on the system call boundary, and
  the kernel-internal process errors of \<open>kernel/src/process.rs\<close> that are mapped to them.
  A \<open>Result<T, E>\<close> is a value of the sum type, \<open>Inl\<close> for \<open>Err\<close> and \<open>Inr\<close> for \<open>Ok\<close>.
\<close>

section \<open>Model\<close>

datatype ErrorCode =
    FAIL | BUSY | ALREADY | OFF | RESERVE | INVAL | SIZE | CANCEL | NOMEM
  | NOSUPPORT | NODEVICE | UNINSTALLED | NOACK

fun usize_from_ErrorCode :: "ErrorCode \<Rightarrow> usize" where
  "usize_from_ErrorCode FAIL = 1"
| "usize_from_ErrorCode BUSY = 2"
| "usize_from_ErrorCode ALREADY = 3"
| "usize_from_ErrorCode OFF = 4"
| "usize_from_ErrorCode RESERVE = 5"
| "usize_from_ErrorCode INVAL = 6"
| "usize_from_ErrorCode SIZE = 7"
| "usize_from_ErrorCode CANCEL = 8"
| "usize_from_ErrorCode NOMEM = 9"
| "usize_from_ErrorCode NOSUPPORT = 10"
| "usize_from_ErrorCode NODEVICE = 11"
| "usize_from_ErrorCode UNINSTALLED = 12"
| "usize_from_ErrorCode NOACK = 13"

fun ErrorCode_try_from :: "ErrorCode + unit \<Rightarrow> unit + ErrorCode" where
  "ErrorCode_try_from (Inr ()) = Inl ()"
| "ErrorCode_try_from (Inl FAIL) = Inr FAIL"
| "ErrorCode_try_from (Inl BUSY) = Inr BUSY"
| "ErrorCode_try_from (Inl ALREADY) = Inr ALREADY"
| "ErrorCode_try_from (Inl OFF) = Inr OFF"
| "ErrorCode_try_from (Inl RESERVE) = Inr RESERVE"
| "ErrorCode_try_from (Inl INVAL) = Inr INVAL"
| "ErrorCode_try_from (Inl SIZE) = Inr SIZE"
| "ErrorCode_try_from (Inl CANCEL) = Inr CANCEL"
| "ErrorCode_try_from (Inl NOMEM) = Inr NOMEM"
| "ErrorCode_try_from (Inl NOSUPPORT) = Inr NOSUPPORT"
| "ErrorCode_try_from (Inl NODEVICE) = Inr NODEVICE"
| "ErrorCode_try_from (Inl UNINSTALLED) = Inr UNINSTALLED"
| "ErrorCode_try_from (Inl NOACK) = Inr NOACK"

fun Result_from_ErrorCode :: "ErrorCode \<Rightarrow> ErrorCode + unit" where
  "Result_from_ErrorCode FAIL = Inl FAIL"
| "Result_from_ErrorCode BUSY = Inl BUSY"
| "Result_from_ErrorCode ALREADY = Inl ALREADY"
| "Result_from_ErrorCode OFF = Inl OFF"
| "Result_from_ErrorCode RESERVE = Inl RESERVE"
| "Result_from_ErrorCode INVAL = Inl INVAL"
| "Result_from_ErrorCode SIZE = Inl SIZE"
| "Result_from_ErrorCode CANCEL = Inl CANCEL"
| "Result_from_ErrorCode NOMEM = Inl NOMEM"
| "Result_from_ErrorCode NOSUPPORT = Inl NOSUPPORT"
| "Result_from_ErrorCode NODEVICE = Inl NODEVICE"
| "Result_from_ErrorCode UNINSTALLED = Inl UNINSTALLED"
| "Result_from_ErrorCode NOACK = Inl NOACK"

fun into_statuscode :: "ErrorCode + unit \<Rightarrow> usize" where
  "into_statuscode (Inr ()) = 0"
| "into_statuscode (Inl e) = usize_from_ErrorCode e"

datatype process_error =
    NoSuchApp | OutOfMemory | AddressOutOfBounds | InactiveApp | KernelError | AlreadyInUse

fun ErrorCode_from_process_error :: "process_error \<Rightarrow> ErrorCode" where
  "ErrorCode_from_process_error OutOfMemory = NOMEM"
| "ErrorCode_from_process_error AddressOutOfBounds = INVAL"
| "ErrorCode_from_process_error NoSuchApp = INVAL"
| "ErrorCode_from_process_error InactiveApp = FAIL"
| "ErrorCode_from_process_error KernelError = FAIL"
| "ErrorCode_from_process_error AlreadyInUse = FAIL"

section \<open>Lemmas\<close>

text \<open>The inverse of the numbering, as user space reads it.\<close>

definition ErrorCode_of_usize :: "usize \<Rightarrow> ErrorCode option" where
  "ErrorCode_of_usize n = map_of
     [(1, FAIL), (2, BUSY), (3, ALREADY), (4, OFF), (5, RESERVE), (6, INVAL), (7, SIZE),
      (8, CANCEL), (9, NOMEM), (10, NOSUPPORT), (11, NODEVICE), (12, UNINSTALLED), (13, NOACK)] n"

lemma ErrorCode_of_usize_inverse [simp]: "ErrorCode_of_usize (usize_from_ErrorCode e) = Some e"
  by (cases e) (simp_all add: ErrorCode_of_usize_def)

lemma usize_from_ErrorCode_inj: "usize_from_ErrorCode e = usize_from_ErrorCode e' \<longleftrightarrow> e = e'"
  by (metis ErrorCode_of_usize_inverse option.inject)

lemma usize_from_ErrorCode_nonzero [simp]: "usize_from_ErrorCode e \<noteq> 0"
  by (cases e) simp_all

lemma ErrorCode_try_from_Result [simp]: "ErrorCode_try_from (Result_from_ErrorCode e) = Inr e"
  by (cases e) simp_all

lemma into_statuscode_eq_0 [simp]: "into_statuscode r = 0 \<longleftrightarrow> r = Inr ()"
  by (cases r rule: into_statuscode.cases) simp_all

end
