(* ===== verification/Syscall.thy ===== *)
theory Syscall
  imports Errorcode
begin

text \<open>
  The system call boundary of \<open>kernel/src/syscall.rs\<close>: decoding of the argument registers into a
  \<open>Syscall\<close> and encoding of a \<open>SyscallReturn\<close> into the result registers. The reference decoder
  \<open>abi_decode\<close> is the user-space side of the convention; the encoder is shown to be its inverse.
\<close>

section \<open>Decoding\<close>

definition u64_to_be_u32s :: "u64 \<Rightarrow> u32 \<times> u32" where
  "u64_to_be_u32s src =
     (let src_bytes = to_be_bytes src in
      (from_be_bytes [src_bytes ! 0, src_bytes ! 1, src_bytes ! 2, src_bytes ! 3],
       from_be_bytes [src_bytes ! 4, src_bytes ! 5, src_bytes ! 6, src_bytes ! 7]))"

datatype SyscallClass =
    ClassYield | ClassSubscribe | ClassCommand | ClassReadWriteAllow | ClassReadOnlyAllow
  | ClassMemop | ClassExit | ClassUserspaceReadableAllow

definition SyscallClass_try_from :: "u8 \<Rightarrow> u8 + SyscallClass" where
  "SyscallClass_try_from i =
     (if i = 0 then Inr ClassYield
      else if i = 1 then Inr ClassSubscribe
      else if i = 2 then Inr ClassCommand
      else if i = 3 then Inr ClassReadWriteAllow
      else if i = 4 then Inr ClassReadOnlyAllow
      else if i = 5 then Inr ClassMemop
      else if i = 6 then Inr ClassExit
      else if i = 7 then Inr ClassUserspaceReadableAllow
      else Inl i)"

datatype Syscall =
    Yield (yield_which: usize) (yield_address: usize)
  | Subscribe (driver_number: usize) (subdriver_number: usize) (upcall_ptr: usize) (appdata: usize)
  | Command (driver_number: usize) (subdriver_number: usize) (arg0: usize) (arg1: usize)
  | ReadWriteAllow (driver_number: usize) (subdriver_number: usize) (allow_address: usize) (allow_size: usize)
  | UserspaceReadableAllow (driver_number: usize) (subdriver_number: usize) (allow_address: usize) (allow_size: usize)
  | ReadOnlyAllow (driver_number: usize) (subdriver_number: usize) (allow_address: usize) (allow_size: usize)
  | Memop (operand: usize) (memop_arg0: usize)
  | Exit (exit_which: usize) (completion_code: usize)

definition from_register_arguments ::
    "u8 \<Rightarrow> usize \<Rightarrow> usize \<Rightarrow> usize \<Rightarrow> usize \<Rightarrow> Syscall option" where
  "from_register_arguments syscall_number r0 r1 r2 r3 =
     (case SyscallClass_try_from syscall_number of
        Inr ClassYield \<Rightarrow> Some (Yield r0 r1)
      | Inr ClassSubscribe \<Rightarrow> Some (Subscribe r0 r1 r2 r3)
      | Inr ClassCommand \<Rightarrow> Some (Command r0 r1 r2 r3)
      | Inr ClassReadWriteAllow \<Rightarrow> Some (ReadWriteAllow r0 r1 r2 r3)
      | Inr ClassUserspaceReadableAllow \<Rightarrow> Some (UserspaceReadableAllow r0 r1 r2 r3)
      | Inr ClassReadOnlyAllow \<Rightarrow> Some (ReadOnlyAllow r0 r1 r2 r3)
      | Inr ClassMemop \<Rightarrow> Some (Memop r0 r1)
      | Inr ClassExit \<Rightarrow> Some (Exit r0 r1)
      | Inl _ \<Rightarrow> None)"

section \<open>Encoding\<close>

datatype SyscallReturnVariant =
    VariantFailure | VariantFailureU32 | VariantFailureU32U32 | VariantFailureU64
  | VariantSuccess | VariantSuccessU32 | VariantSuccessU32U32 | VariantSuccessU64
  | VariantSuccessU32U32U32 | VariantSuccessU32U64

fun u32_of_variant :: "SyscallReturnVariant \<Rightarrow> u32" where
  "u32_of_variant VariantFailure = 0"
| "u32_of_variant VariantFailureU32 = 1"
| "u32_of_variant VariantFailureU32U32 = 2"
| "u32_of_variant VariantFailureU64 = 3"
| "u32_of_variant VariantSuccess = 128"
| "u32_of_variant VariantSuccessU32 = 129"
| "u32_of_variant VariantSuccessU32U32 = 130"
| "u32_of_variant VariantSuccessU64 = 131"
| "u32_of_variant VariantSuccessU32U32U32 = 132"
| "u32_of_variant VariantSuccessU32U64 = 133"

datatype SyscallReturn =
    Failure ErrorCode
  | FailureU32 ErrorCode u32
  | FailureU32U32 ErrorCode u32 u32
  | FailureU64 ErrorCode u64
  | Success
  | SuccessU32 u32
  | SuccessU32U32 u32 u32
  | SuccessU32U32U32 u32 u32 u32
  | SuccessU64 u64
  | SuccessU32U64 u32 u64
  | AllowReadWriteSuccess usize usize
  | AllowReadWriteFailure ErrorCode usize usize
  | UserspaceReadableAllowSuccess usize usize
  | UserspaceReadableAllowFailure ErrorCode usize usize
  | AllowReadOnlySuccess usize usize
  | AllowReadOnlyFailure ErrorCode usize usize
  | SubscribeSuccess usize usize
  | SubscribeFailure ErrorCode usize usize

fun is_success :: "SyscallReturn \<Rightarrow> bool" where
  "is_success Success = True"
| "is_success (SuccessU32 _) = True"
| "is_success (SuccessU32U32 _ _) = True"
| "is_success (SuccessU32U32U32 _ _ _) = True"
| "is_success (SuccessU64 _) = True"
| "is_success (SuccessU32U64 _ _) = True"
| "is_success (AllowReadWriteSuccess _ _) = True"
| "is_success (UserspaceReadableAllowSuccess _ _) = True"
| "is_success (AllowReadOnlySuccess _ _) = True"
| "is_success (SubscribeSuccess _ _) = True"
| "is_success (Failure _) = False"
| "is_success (FailureU32 _ _) = False"
| "is_success (FailureU32U32 _ _ _) = False"
| "is_success (FailureU64 _ _) = False"
| "is_success (AllowReadWriteFailure _ _ _) = False"
| "is_success (UserspaceReadableAllowFailure _ _ _) = False"
| "is_success (AllowReadOnlyFailure _ _ _) = False"
| "is_success (SubscribeFailure _ _ _) = False"

type_synonym regs = "u32 \<times> u32 \<times> u32 \<times> u32"

fun encode_syscall_return :: "SyscallReturn \<Rightarrow> regs \<Rightarrow> regs" where
  "encode_syscall_return (Failure e) (a0, a1, a2, a3) =
     (u32_of_variant VariantFailure, usize_from_ErrorCode e, a2, a3)"
| "encode_syscall_return (FailureU32 e data0) (a0, a1, a2, a3) =
     (u32_of_variant VariantFailureU32, usize_from_ErrorCode e, data0, a3)"
| "encode_syscall_return (FailureU32U32 e data0 data1) (a0, a1, a2, a3) =
     (u32_of_variant VariantFailureU32U32, usize_from_ErrorCode e, data0, data1)"
| "encode_syscall_return (FailureU64 e data0) (a0, a1, a2, a3) =
     (let (data0_msb, data0_lsb) = u64_to_be_u32s data0 in
      (u32_of_variant VariantFailureU64, usize_from_ErrorCode e, data0_lsb, data0_msb))"
| "encode_syscall_return Success (a0, a1, a2, a3) = (u32_of_variant VariantSuccess, a1, a2, a3)"
| "encode_syscall_return (SuccessU32 data0) (a0, a1, a2, a3) =
     (u32_of_variant VariantSuccessU32, data0, a2, a3)"
| "encode_syscall_return (SuccessU32U32 data0 data1) (a0, a1, a2, a3) =
     (u32_of_variant VariantSuccessU32U32, data0, data1, a3)"
| "encode_syscall_return (SuccessU32U32U32 data0 data1 data2) (a0, a1, a2, a3) =
     (u32_of_variant VariantSuccessU32U32U32, data0, data1, data2)"
| "encode_syscall_return (SuccessU64 data0) (a0, a1, a2, a3) =
     (let (data0_msb, data0_lsb) = u64_to_be_u32s data0 in
      (u32_of_variant VariantSuccessU64, data0_lsb, data0_msb, a3))"
| "encode_syscall_return (SuccessU32U64 data0 data1) (a0, a1, a2, a3) =
     (let (data1_msb, data1_lsb) = u64_to_be_u32s data1 in
      (u32_of_variant VariantSuccessU32U64, data0, data1_lsb, data1_msb))"
| "encode_syscall_return (AllowReadWriteSuccess p len) (a0, a1, a2, a3) =
     (u32_of_variant VariantSuccessU32U32, p, len, a3)"
| "encode_syscall_return (UserspaceReadableAllowSuccess p len) (a0, a1, a2, a3) =
     (u32_of_variant VariantSuccessU32U32, p, len, a3)"
| "encode_syscall_return (AllowReadWriteFailure err p len) (a0, a1, a2, a3) =
     (u32_of_variant VariantFailureU32U32, usize_from_ErrorCode err, p, len)"
| "encode_syscall_return (UserspaceReadableAllowFailure err p len) (a0, a1, a2, a3) =
     (u32_of_variant VariantFailureU32U32, usize_from_ErrorCode err, p, len)"
| "encode_syscall_return (AllowReadOnlySuccess p len) (a0, a1, a2, a3) =
     (u32_of_variant VariantSuccessU32U32, p, len, a3)"
| "encode_syscall_return (AllowReadOnlyFailure err p len) (a0, a1, a2, a3) =
     (u32_of_variant VariantFailureU32U32, usize_from_ErrorCode err, p, len)"
| "encode_syscall_return (SubscribeSuccess p d) (a0, a1, a2, a3) =
     (u32_of_variant VariantSuccessU32U32, p, d, a3)"
| "encode_syscall_return (SubscribeFailure err p d) (a0, a1, a2, a3) =
     (u32_of_variant VariantFailureU32U32, usize_from_ErrorCode err, p, d)"

datatype ContextSwitchReason = SyscallFired Syscall | Fault | Interrupted

section \<open>The convention from the user side\<close>

text \<open>
  \<open>to_register_arguments\<close> is the class number and the four argument registers a process loads to
  make a call; \<open>abi_decode\<close> reads the result registers back. The kernel-internal variants carry
  pointers and are indistinguishable in registers from the generic ones, so \<open>abi_view\<close> says what
  user space can see of a return value.
\<close>

fun to_register_arguments :: "Syscall \<Rightarrow> u8 \<times> usize \<times> usize \<times> usize \<times> usize" where
  "to_register_arguments (Yield w a) = (0, w, a, 0, 0)"
| "to_register_arguments (Subscribe d s p a) = (1, d, s, p, a)"
| "to_register_arguments (Command d s a b) = (2, d, s, a, b)"
| "to_register_arguments (ReadWriteAllow d s a l) = (3, d, s, a, l)"
| "to_register_arguments (ReadOnlyAllow d s a l) = (4, d, s, a, l)"
| "to_register_arguments (Memop p a) = (5, p, a, 0, 0)"
| "to_register_arguments (Exit w c) = (6, w, c, 0, 0)"
| "to_register_arguments (UserspaceReadableAllow d s a l) = (7, d, s, a, l)"

fun abi_view :: "SyscallReturn \<Rightarrow> SyscallReturn" where
  "abi_view (AllowReadWriteSuccess p l) = SuccessU32U32 p l"
| "abi_view (UserspaceReadableAllowSuccess p l) = SuccessU32U32 p l"
| "abi_view (AllowReadOnlySuccess p l) = SuccessU32U32 p l"
| "abi_view (SubscribeSuccess p d) = SuccessU32U32 p d"
| "abi_view (AllowReadWriteFailure e p l) = FailureU32U32 e p l"
| "abi_view (UserspaceReadableAllowFailure e p l) = FailureU32U32 e p l"
| "abi_view (AllowReadOnlyFailure e p l) = FailureU32U32 e p l"
| "abi_view (SubscribeFailure e p d) = FailureU32U32 e p d"
| "abi_view r = r"

definition join_u32s :: "u32 \<Rightarrow> u32 \<Rightarrow> u64" where
  "join_u32s msb lsb = push_bit 32 (ucast msb) OR ucast lsb"

definition abi_decode :: "regs \<Rightarrow> SyscallReturn option" where
  "abi_decode = (\<lambda>(a0, a1, a2, a3).
     if a0 < 4 then
       (case ErrorCode_of_usize a1 of
          None \<Rightarrow> None
        | Some e \<Rightarrow> Some (if a0 = 0 then Failure e else if a0 = 1 then FailureU32 e a2
                     else if a0 = 2 then FailureU32U32 e a2 a3 else FailureU64 e (join_u32s a3 a2)))
     else if a0 = 128 then Some Success
     else if a0 = 129 then Some (SuccessU32 a1)
     else if a0 = 130 then Some (SuccessU32U32 a1 a2)
     else if a0 = 131 then Some (SuccessU64 (join_u32s a2 a1))
     else if a0 = 132 then Some (SuccessU32U32U32 a1 a2 a3)
     else if a0 = 133 then Some (SuccessU32U64 a1 (join_u32s a3 a2))
     else None)"

section \<open>Lemmas\<close>

lemma nth_to_be_bytes:
  assumes "i < LENGTH('a) div 8"
  shows "to_be_bytes (w :: 'a::len word) ! i = ucast (drop_bit (8 * (LENGTH('a) div 8 - Suc i)) w)"
  using assms by (simp add: to_be_bytes_def rev_nth) (simp add: to_le_bytes_def)

lemma from_le_bytes_window:
  "from_le_bytes (map (\<lambda>i. ucast (drop_bit (8 * i + off) w)) [0..<4]) = (ucast (drop_bit off w) :: u32)"
proof (rule bit_word_eqI)
  fix n assume "n < LENGTH(32)"
  then have "n div 8 < 4" by auto
  moreover have "8 * (n div 8) + off + n mod 8 = off + n" by simp
  ultimately show "bit (from_le_bytes (map (\<lambda>i. ucast (drop_bit (8 * i + off) w)) [0..<4]) :: u32) n =
      bit (ucast (drop_bit off w) :: u32) n"
    by (auto simp: bit_from_le_bytes bit_simps add.commute [of n off])
qed

lemma u64_to_be_u32s_eq: "u64_to_be_u32s w = (ucast (drop_bit 32 w), ucast w)"
  using from_le_bytes_window [of 32 w] from_le_bytes_window [of 0 w]
  by (simp add: u64_to_be_u32s_def Let_def from_be_bytes_def nth_to_be_bytes upt_conv_Cons
      del: from_le_bytes.simps)

lemma join_split [simp]: "join_u32s (ucast (drop_bit 32 w)) (ucast w) = w"
  by (rule bit_word_eqI) (auto simp: join_u32s_def bit_simps)

lemma encode_is_success:
  "fst (encode_syscall_return r regs) \<ge> 128 \<longleftrightarrow> is_success r"
  by (cases regs; cases r) (simp_all add: u64_to_be_u32s_eq word_le_nat_alt)

lemma encode_decode: "abi_decode (encode_syscall_return r regs) = Some (abi_view r)"
  by (cases regs; cases r) (simp_all add: u64_to_be_u32s_eq abi_decode_def)

lemma abi_view_is_success [simp]: "is_success (abi_view r) = is_success r"
  by (cases r) simp_all

lemma from_to_register_arguments:
  "to_register_arguments s = (n, r0, r1, r2, r3) \<Longrightarrow> from_register_arguments n r0 r1 r2 r3 = Some s"
  by (cases s) (auto simp: from_register_arguments_def SyscallClass_try_from_def)

lemma from_register_arguments_None:
  "from_register_arguments n r0 r1 r2 r3 = None \<longleftrightarrow> 8 \<le> n"
proof -
  have "8 \<le> n \<longleftrightarrow> n \<noteq> 0 \<and> n \<noteq> 1 \<and> n \<noteq> 2 \<and> n \<noteq> 3 \<and> n \<noteq> 4 \<and> n \<noteq> 5 \<and> n \<noteq> 6 \<and> n \<noteq> 7"
    by (simp add: word_le_nat_alt word_unat_eq_iff) arith
  then show ?thesis
    by (simp add: from_register_arguments_def SyscallClass_try_from_def)
qed

end
