(* ===== verification/Mpu.thy ===== *)
theory Mpu
  imports Prelude
begin

text \<open>
  The interface of the memory protection unit, \<open>kernel/src/platform/mpu.rs\<close>. The trait \<open>MPU\<close> is a
  record of its methods, so that the process code can be stated for any implementation: \<open>'hw\<close> is
  the state of the unit itself and \<open>'cfg\<close> the per-process configuration. A method that mutates
  either returns the new one. The locale \<open>mpu_contract\<close> holds the part of the documented contract
  that the process code relies on; it is interpreted below on the trivial implementation for
  \<open>()\<close> and, in the theory of the Cortex-M unit, on the real one.
\<close>

section \<open>Model\<close>

datatype Permissions = ReadWriteExecute | ReadWriteOnly | ReadExecuteOnly | ReadOnly | ExecuteOnly

record Region =
  Region_start :: usize
  Region_size :: usize

definition Region_new :: "usize \<Rightarrow> usize \<Rightarrow> Region" where
  "Region_new start sz = \<lparr>Region_start = start, Region_size = sz\<rparr>"

record ('hw, 'cfg) MPU =
  mpu_new_config :: "'hw \<Rightarrow> 'cfg option \<times> 'hw"
  mpu_reset_config :: "'cfg \<Rightarrow> 'cfg"
  mpu_allocate_region ::
    "usize \<Rightarrow> usize \<Rightarrow> usize \<Rightarrow> Permissions \<Rightarrow> 'cfg \<Rightarrow> (Region option \<times> 'cfg) option"
  mpu_remove_memory_region :: "Region \<Rightarrow> 'cfg \<Rightarrow> ((unit + unit) \<times> 'cfg) option"
  mpu_allocate_app_memory_region ::
    "usize \<Rightarrow> usize \<Rightarrow> usize \<Rightarrow> usize \<Rightarrow> usize \<Rightarrow> Permissions \<Rightarrow> 'cfg \<Rightarrow>
      ((usize \<times> usize) option \<times> 'cfg) option"
  mpu_update_app_memory_region ::
    "usize \<Rightarrow> usize \<Rightarrow> Permissions \<Rightarrow> 'cfg \<Rightarrow> ((unit + unit) \<times> 'cfg) option"
  mpu_configure_mpu :: "'hw \<Rightarrow> 'cfg \<Rightarrow> 'hw \<times> 'cfg"

subsection \<open>The implementation for boards without a unit\<close>

definition unit_allocate_region ::
    "usize \<Rightarrow> usize \<Rightarrow> usize \<Rightarrow> Permissions \<Rightarrow> unit \<Rightarrow> (Region option \<times> unit) option" where
  "unit_allocate_region unallocated_memory_start unallocated_memory_size min_region_size _ config =
     Some (if min_region_size > unallocated_memory_size then (None, config)
           else (Some (Region_new unallocated_memory_start min_region_size), config))"

definition unit_allocate_app_memory_region ::
    "usize \<Rightarrow> usize \<Rightarrow> usize \<Rightarrow> usize \<Rightarrow> usize \<Rightarrow> Permissions \<Rightarrow> unit \<Rightarrow>
      ((usize \<times> usize) option \<times> unit) option" where
  "unit_allocate_app_memory_region unallocated_memory_start unallocated_memory_size min_memory_size
       initial_app_memory_size initial_kernel_memory_size _ config = do {
     total \<leftarrow> chk_add initial_app_memory_size initial_kernel_memory_size;
     let memory_size = max min_memory_size total;
     Some (if memory_size > unallocated_memory_size then (None, config)
           else (Some (unallocated_memory_start, memory_size), config))
   }"

definition unit_update_app_memory_region ::
    "usize \<Rightarrow> usize \<Rightarrow> Permissions \<Rightarrow> unit \<Rightarrow> ((unit + unit) \<times> unit) option" where
  "unit_update_app_memory_region app_memory_break kernel_memory_break _ config =
     Some (if app_memory_break > kernel_memory_break then (Inl (), config) else (Inr (), config))"

definition unit_mpu :: "(unit, unit) MPU" where
  "unit_mpu =
     \<lparr>mpu_new_config = (\<lambda>hw. (Some (), hw)),
      mpu_reset_config = (\<lambda>config. config),
      mpu_allocate_region = unit_allocate_region,
      mpu_remove_memory_region = (\<lambda>_ config. Some (Inr (), config)),
      mpu_allocate_app_memory_region = unit_allocate_app_memory_region,
      mpu_update_app_memory_region = unit_update_app_memory_region,
      mpu_configure_mpu = (\<lambda>hw config. (hw, config))\<rparr>"

section \<open>Contract\<close>

locale mpu_contract =
  fixes M :: "('hw, 'cfg) MPU"
  assumes update_Ok:
      "mpu_update_app_memory_region M ab kb p c = Some (Inr (), c') \<Longrightarrow> ab \<le> kb"
    and update_Err:
      "mpu_update_app_memory_region M ab kb p c = Some (Inl (), c') \<Longrightarrow> c' = c"
    and app_region_Some:
      "mpu_allocate_app_memory_region M s n min_sz app_sz ker_sz p c = Some (Some (st, sz), c') \<Longrightarrow>
        s \<le> st \<and> unat st + unat sz \<le> unat s + unat n \<and> min_sz \<le> sz \<and> unat app_sz + unat ker_sz \<le> unat sz"
    and app_region_None:
      "mpu_allocate_app_memory_region M s n min_sz app_sz ker_sz p c = Some (None, c') \<Longrightarrow> c' = c"
    and region_Some:
      "mpu_allocate_region M s n min_sz p c = Some (Some r, c') \<Longrightarrow>
        s \<le> Region_start r \<and> unat (Region_start r) + unat (Region_size r) \<le> unat s + unat n \<and>
        min_sz \<le> Region_size r"
    and region_None:
      "mpu_allocate_region M s n min_sz p c = Some (None, c') \<Longrightarrow> c' = c"
    and remove_Err:
      "mpu_remove_memory_region M r c = Some (Inl (), c') \<Longrightarrow> c' = c"
begin

lemma app_region_bounds:
  assumes "mpu_allocate_app_memory_region M s n min_sz app_sz ker_sz p c = Some (Some (st, sz), c')"
  shows "unat s \<le> unat st" "unat st + unat sz \<le> unat s + unat n" "unat min_sz \<le> unat sz"
    "unat app_sz + unat ker_sz \<le> unat sz"
  using app_region_Some [OF assms] by (auto simp: word_le_nat_alt)

end

interpretation unit_contract: mpu_contract unit_mpu
  by unfold_locales
    (auto simp: unit_mpu_def unit_update_app_memory_region_def unit_allocate_app_memory_region_def
      unit_allocate_region_def Region_new_def word_le_nat_alt checked_arith max_def not_less
      bind_eq_Some_conv split: if_splits)

end
