(* ===== verification/ProcessTypes.thy ===== *)
theory ProcessTypes
  imports Ram Syscall Mpu
begin

text \<open>
  The types the process code is written over: the identifiers, states, tasks and fault actions of
  \<open>kernel/src/process.rs\<close>, the fault policies of \<open>kernel/src/process_policies.rs\<close>, and the trait
  \<open>UserspaceKernelBoundary\<close> of \<open>kernel/src/syscall.rs\<close> as a record of its methods. The locale
  \<open>ukb_contract\<close> is the promise in the trait's documentation that an implementation changes process
  memory only between the start of accessible memory and the process break; it is interpreted on
  the Cortex-M implementation. \<open>'ss\<close> is the stored state of the implementation and \<open>'w\<close> whatever a
  running process and the hardware change outside the kernel's own data.
\<close>

section \<open>Model\<close>

record ProcessId =
  pid_index :: usize
  pid_identifier :: usize

definition ProcessId_new :: "usize \<Rightarrow> usize \<Rightarrow> ProcessId" where
  "ProcessId_new unique index = \<lparr>pid_index = index, pid_identifier = unique\<rparr>"

definition ProcessId_eq :: "ProcessId \<Rightarrow> ProcessId \<Rightarrow> bool" where
  "ProcessId_eq a b \<longleftrightarrow> pid_identifier a = pid_identifier b"

datatype ShortID = LocallyUnique | Fixed u32

fun ShortID_eq :: "ShortID \<Rightarrow> ShortID \<Rightarrow> bool" where
  "ShortID_eq (Fixed a) (Fixed b) \<longleftrightarrow> a = b"
| "ShortID_eq _ _ \<longleftrightarrow> False"

datatype State =
    Running | Yielded | StoppedRunning | StoppedYielded | Faulted | Terminated
  | CredentialsUnchecked | CredentialsApproved | CredentialsFailed

datatype FaultAction = PanicAction | RestartAction | StopAction

record UpcallId =
  upcall_driver_num :: usize
  subscribe_num :: usize

datatype FunctionCallSource = KernelSource | DriverSource UpcallId

record FunctionCall =
  source :: FunctionCallSource
  argument0 :: usize
  argument1 :: usize
  argument2 :: usize
  argument3 :: usize
  pc :: usize

datatype IPCUpcallType = ServiceUpcall | ClientUpcall

datatype Task = FunctionCall FunctionCall | IPC ProcessId IPCUpcallType

datatype StoppedExecutingReason = NoWorkLeft | StoppedFaulted | Stopped | TimesliceExpired | KernelPreemption

subsection \<open>Fault policies\<close>

datatype ProcessFaultPolicy =
    PanicFaultPolicy | StopFaultPolicy | StopWithDebugFaultPolicy | RestartFaultPolicy
  | ThresholdRestartFaultPolicy usize | ThresholdRestartThenPanicFaultPolicy usize

fun fault_action :: "ProcessFaultPolicy \<Rightarrow> usize \<Rightarrow> FaultAction" where
  "fault_action PanicFaultPolicy count = PanicAction"
| "fault_action StopFaultPolicy count = StopAction"
| "fault_action StopWithDebugFaultPolicy count = StopAction"
| "fault_action RestartFaultPolicy count = RestartAction"
| "fault_action (ThresholdRestartFaultPolicy threshold) count =
     (if count \<le> threshold then RestartAction else StopAction)"
| "fault_action (ThresholdRestartThenPanicFaultPolicy threshold) count =
     (if count \<le> threshold then RestartAction else PanicAction)"

subsection \<open>The boundary to user space\<close>

record ('w, 'ss) UKB =
  ukb_default :: 'ss
  ukb_initial_process_app_brk_size :: usize
  ukb_initialize_process :: "usize \<Rightarrow> usize \<Rightarrow> 'ss \<Rightarrow> ram \<Rightarrow> ((unit + unit) \<times> 'ss \<times> ram) option"
  ukb_set_syscall_return_value ::
    "usize \<Rightarrow> usize \<Rightarrow> 'ss \<Rightarrow> SyscallReturn \<Rightarrow> ram \<Rightarrow> ((unit + unit) \<times> 'ss \<times> ram) option"
  ukb_set_process_function ::
    "usize \<Rightarrow> usize \<Rightarrow> 'ss \<Rightarrow> FunctionCall \<Rightarrow> ram \<Rightarrow> ((unit + unit) \<times> 'ss \<times> ram) option"
  ukb_switch_to_process ::
    "usize \<Rightarrow> usize \<Rightarrow> 'ss \<Rightarrow> ram \<Rightarrow> 'w \<Rightarrow> (ContextSwitchReason \<times> usize option \<times> 'ss \<times> ram \<times> 'w) option"
  ukb_store_context :: "'ss \<Rightarrow> u8 list \<Rightarrow> ((ErrorCode + nat) \<times> u8 list) option"

section \<open>Contract\<close>

definition same_outside :: "usize \<Rightarrow> usize \<Rightarrow> ram \<Rightarrow> ram \<Rightarrow> bool" where
  "same_outside lo hi m m' \<longleftrightarrow> (\<forall>x. \<not> (lo \<le> x \<and> x < hi) \<longrightarrow> m' x = m x)"

lemma same_outside_refl [simp]: "same_outside lo hi m m"
  by (simp add: same_outside_def)

lemma same_outside_trans: "same_outside lo hi a b \<Longrightarrow> same_outside lo hi b c \<Longrightarrow> same_outside lo hi a c"
  by (simp add: same_outside_def)

lemma same_outside_mono:
  "same_outside lo hi a b \<Longrightarrow> lo' \<le> lo \<Longrightarrow> hi \<le> hi' \<Longrightarrow> same_outside lo' hi' a b"
  unfolding same_outside_def by (meson order_trans order_less_le_trans)

lemma same_outside_write:
  assumes "unat lo \<le> unat a" "unat a + 4 \<le> unat hi"
  shows "same_outside lo hi m (write_word a w m)"
proof -
  have "unat a + 4 \<le> 2 ^ 32" using assms unat_less_2p [of hi] by simp
  then have "x \<notin> span a" if "\<not> (lo \<le> x \<and> x < hi)" for x
    using that assms span_unat [of a x] by (auto simp: word_le_nat_alt word_less_nat_alt)
  then show ?thesis by (simp add: same_outside_def write_word_outside)
qed

locale ukb_contract =
  fixes U :: "('w, 'ss) UKB"
  assumes initialize_frame:
      "ukb_initialize_process U lo hi ss m = Some (r, ss', m') \<Longrightarrow> hi \<noteq> - 1 \<Longrightarrow> same_outside lo hi m m'"
    and set_return_frame:
      "ukb_set_syscall_return_value U lo hi ss v m = Some (r, ss', m') \<Longrightarrow> hi \<noteq> - 1 \<Longrightarrow> same_outside lo hi m m'"
    and set_function_frame:
      "ukb_set_process_function U lo hi ss c m = Some (r, ss', m') \<Longrightarrow> hi \<noteq> - 1 \<Longrightarrow> same_outside lo hi m m'"
begin

lemma kernel_memory_untouched:
  assumes "ukb_set_process_function U lo hi ss c m = Some (r, ss', m')" "hi \<noteq> - 1" "hi \<le> a"
  shows "m' a = m a"
  using set_function_frame [OF assms(1,2)] assms(3) by (simp add: same_outside_def not_less)

end

section \<open>Lemmas\<close>

lemma ShortID_eq_iff: "ShortID_eq a b \<longleftrightarrow> (\<exists>n. a = Fixed n \<and> b = Fixed n)"
  by (cases a; cases b) auto

lemma threshold_policy_stops:
  "fault_action (ThresholdRestartFaultPolicy t) n = RestartAction \<longleftrightarrow> n \<le> t"
  by simp

end
