(* ===== verification/RingBuffer.thy ===== *)
theory RingBuffer
  imports Prelude
begin

text \<open>
  The bounded queue of \<open>kernel/src/collections\<close>: the interface \<open>Queue\<close> of \<open>queue.rs\<close> as a
  locale over an abstraction function into lists, and its only implementation in the kernel, the
  \<open>RingBuffer\<close> of \<open>ring_buffer.rs\<close>, which holds the pending tasks of a process.

  A slice of Rust is never longer than half of the address space, so \<open>tail + 1\<close> does not
  overflow; the indices are naturals. A remainder by the length of an empty slice panics.
\<close>

section \<open>Model\<close>

record 'a ring_buffer =
  ring :: "'a list"
  head :: nat
  tail :: nat

definition rb_new :: "'a list \<Rightarrow> 'a ring_buffer" where
  "rb_new xs = \<lparr>ring = xs, head = 0, tail = 0\<rparr>"

definition rb_next :: "'a ring_buffer \<Rightarrow> nat \<Rightarrow> nat option" where
  "rb_next rb i = (if length (ring rb) = 0 then None else Some ((i + 1) mod length (ring rb)))"

definition rb_has_elements :: "'a ring_buffer \<Rightarrow> bool" where
  "rb_has_elements rb \<longleftrightarrow> head rb \<noteq> tail rb"

definition rb_is_full :: "'a ring_buffer \<Rightarrow> bool option" where
  "rb_is_full rb = do { n \<leftarrow> rb_next rb (tail rb); Some (head rb = n) }"

definition rb_len :: "'a ring_buffer \<Rightarrow> nat option" where
  "rb_len rb =
     (if tail rb > head rb then Some (tail rb - head rb)
      else if tail rb < head rb then
        (if head rb \<le> length (ring rb) then Some ((length (ring rb) - head rb) + tail rb) else None)
      else Some 0)"

definition rb_available_len :: "'a ring_buffer \<Rightarrow> nat option" where
  "rb_available_len rb = do { n \<leftarrow> rb_len rb; Some (length (ring rb) - (1 + n)) }"

definition rb_as_slices :: "'a ring_buffer \<Rightarrow> ('a list option \<times> 'a list option) option" where
  "rb_as_slices rb =
     (if head rb < tail rb then
        do { s \<leftarrow> slice_range (ring rb) (head rb) (tail rb); Some (Some s, None) }
      else if head rb > tail rb then
        (if head rb \<le> length (ring rb) then
           let left = take (head rb) (ring rb); right = drop (head rb) (ring rb) in
           if tail rb = 0 then Some (Some right, None)
           else do { l \<leftarrow> slice_range left 0 (tail rb); Some (Some right, Some l) }
         else None)
      else Some (None, None))"

definition rb_enqueue :: "'a ring_buffer \<Rightarrow> 'a \<Rightarrow> (bool \<times> 'a ring_buffer) option" where
  "rb_enqueue rb val = do {
     full \<leftarrow> rb_is_full rb;
     if full then Some (False, rb)
     else do {
       r \<leftarrow> slice_set (ring rb) (tail rb) val;
       t \<leftarrow> rb_next rb (tail rb);
       Some (True, rb\<lparr>ring := r, tail := t\<rparr>)
     }
   }"

definition rb_push :: "'a ring_buffer \<Rightarrow> 'a \<Rightarrow> ('a option \<times> 'a ring_buffer) option" where
  "rb_push rb val = do {
     full \<leftarrow> rb_is_full rb;
     (result, rb) \<leftarrow>
       (if full then do {
          v \<leftarrow> slice_get (ring rb) (head rb);
          h \<leftarrow> rb_next rb (head rb);
          Some (Some v, rb\<lparr>head := h\<rparr>)
        } else Some (None, rb));
     r \<leftarrow> slice_set (ring rb) (tail rb) val;
     t \<leftarrow> rb_next rb (tail rb);
     Some (result, rb\<lparr>ring := r, tail := t\<rparr>)
   }"

definition rb_dequeue :: "'a ring_buffer \<Rightarrow> ('a option \<times> 'a ring_buffer) option" where
  "rb_dequeue rb =
     (if rb_has_elements rb then do {
        val \<leftarrow> slice_get (ring rb) (head rb);
        h \<leftarrow> rb_next rb (head rb);
        Some (Some val, rb\<lparr>head := h\<rparr>)
      } else Some (None, rb))"

definition rb_empty :: "'a ring_buffer \<Rightarrow> 'a ring_buffer" where
  "rb_empty rb = rb\<lparr>head := 0, tail := 0\<rparr>"

text \<open>
  The loop of \<open>retain\<close>. On a malformed buffer it may run forever; \<open>None\<close> stands for that as for
  a panic, and \<open>rb_retain_correct\<close> below shows that it returns on every well-formed one.
\<close>

partial_function (option) rb_retain_loop ::
    "('a \<Rightarrow> bool) \<Rightarrow> nat \<Rightarrow> 'a ring_buffer \<Rightarrow> nat \<Rightarrow> nat \<Rightarrow> ('a ring_buffer \<times> nat) option" where
  "rb_retain_loop f len rb src dst =
     (if src = tail rb then Some (rb, dst)
      else do {
        x \<leftarrow> slice_get (ring rb) src;
        if f x then do {
          r \<leftarrow> (if src \<noteq> dst then slice_set (ring rb) dst x else Some (ring rb));
          rb_retain_loop f len (rb\<lparr>ring := r\<rparr>) ((src + 1) mod len) ((dst + 1) mod len)
        } else rb_retain_loop f len rb ((src + 1) mod len) dst
      })"

definition rb_retain :: "'a ring_buffer \<Rightarrow> ('a \<Rightarrow> bool) \<Rightarrow> 'a ring_buffer option" where
  "rb_retain rb f = do {
     (rb', dst) \<leftarrow> rb_retain_loop f (length (ring rb)) rb (head rb) (head rb);
     Some (rb'\<lparr>tail := dst\<rparr>)
   }"

section \<open>Invariant and abstraction\<close>

definition rb_inv :: "'a ring_buffer \<Rightarrow> bool" where
  "rb_inv rb \<longleftrightarrow> head rb < length (ring rb) \<and> tail rb < length (ring rb)"

definition rb_size :: "'a ring_buffer \<Rightarrow> nat" where
  "rb_size rb =
     (if head rb \<le> tail rb then tail rb - head rb else length (ring rb) - head rb + tail rb)"

definition rb_nth :: "'a ring_buffer \<Rightarrow> nat \<Rightarrow> 'a" where
  "rb_nth rb i = ring rb ! ((head rb + i) mod length (ring rb))"

definition rb_list :: "'a ring_buffer \<Rightarrow> 'a list" where
  "rb_list rb = map (rb_nth rb) [0..<rb_size rb]"

definition rb_capacity :: "'a ring_buffer \<Rightarrow> nat" where
  "rb_capacity rb = length (ring rb) - 1"

lemma rb_list_length [simp]: "length (rb_list rb) = rb_size rb"
  by (simp add: rb_list_def)

lemma rb_size_less: "rb_inv rb \<Longrightarrow> rb_size rb < length (ring rb)"
  by (auto simp: rb_inv_def rb_size_def)

lemma rb_tail_eq: "rb_inv rb \<Longrightarrow> tail rb = (head rb + rb_size rb) mod length (ring rb)"
  by (auto simp: rb_inv_def rb_size_def)

lemma rb_size_unique:
  assumes "rb_inv rb" "s < length (ring rb)" "tail rb = (head rb + s) mod length (ring rb)"
  shows "rb_size rb = s"
  using assms rb_size_less [OF assms(1)] rb_tail_eq [OF assms(1)] by (metis shift_mod_inj)

lemma rb_inv_length: "rb_inv rb \<Longrightarrow> 0 < length (ring rb)"
  by (auto simp: rb_inv_def)

lemma rb_next_eq: "rb_inv rb \<Longrightarrow> rb_next rb i = Some ((i + 1) mod length (ring rb))"
  by (auto simp: rb_inv_def rb_next_def)

lemma rb_new_inv: "0 < length xs \<Longrightarrow> rb_inv (rb_new xs)"
  by (simp add: rb_inv_def rb_new_def)

lemma rb_new_list [simp]: "rb_list (rb_new xs) = []"
  by (simp add: rb_list_def rb_size_def rb_new_def)

lemma rb_has_elements_iff: "rb_inv rb \<Longrightarrow> rb_has_elements rb \<longleftrightarrow> rb_list rb \<noteq> []"
  by (auto simp: rb_has_elements_def rb_inv_def rb_list_def rb_size_def)

lemma rb_len_eq: "rb_inv rb \<Longrightarrow> rb_len rb = Some (length (rb_list rb))"
  by (auto simp: rb_len_def rb_inv_def rb_size_def)

lemma rb_is_full_iff:
  assumes "rb_inv rb"
  shows "rb_is_full rb = Some (length (rb_list rb) = rb_capacity rb)"
proof -
  let ?n = "length (ring rb)"
  have n: "0 < ?n" and s: "rb_size rb < ?n"
    using rb_inv_length [OF assms] rb_size_less [OF assms] by simp_all
  have "head rb = (tail rb + 1) mod ?n \<longleftrightarrow> (head rb + 0) mod ?n = (head rb + Suc (rb_size rb)) mod ?n"
    using assms rb_tail_eq [OF assms] by (simp add: rb_inv_def mod_Suc_eq)
  also have "\<dots> \<longleftrightarrow> Suc (rb_size rb) = ?n"
  proof
    assume eq: "(head rb + 0) mod ?n = (head rb + Suc (rb_size rb)) mod ?n"
    show "Suc (rb_size rb) = ?n"
    proof (rule ccontr)
      assume "Suc (rb_size rb) \<noteq> ?n"
      then have "Suc (rb_size rb) < ?n" using s by simp
      from shift_mod_inj [OF n this eq] show False by simp
    qed
  qed simp
  finally show ?thesis
    using n s rb_next_eq [OF assms] by (auto simp: rb_is_full_def rb_capacity_def)
qed

lemma rb_available_len_eq:
  "rb_inv rb \<Longrightarrow> rb_available_len rb = Some (rb_capacity rb - length (rb_list rb))"
  by (simp add: rb_available_len_def rb_len_eq rb_capacity_def)

section \<open>The operations on the abstract queue\<close>

lemma rb_append_at_tail:
  fixes v :: 'a
  assumes inv: "rb_inv rb" and room: "Suc (rb_size rb) < length (ring rb)"
  defines "rb' \<equiv> rb\<lparr>ring := (ring rb)[tail rb := v], tail := (tail rb + 1) mod length (ring rb)\<rparr>"
  shows "rb_inv rb'" and "rb_list rb' = rb_list rb @ [v]"
proof -
  let ?n = "length (ring rb)"
  show inv': "rb_inv rb'"
    using inv by (auto simp: rb_inv_def rb'_def intro: mod_less_divisor)
  have "(tail rb + 1) mod ?n = (head rb + Suc (rb_size rb)) mod ?n"
    using rb_tail_eq [OF inv] by (simp add: mod_Suc_eq)
  then have size: "rb_size rb' = Suc (rb_size rb)"
    using inv' room by (intro rb_size_unique) (simp_all add: rb'_def)
  have old: "rb_nth rb' i = rb_nth rb i" if "i < rb_size rb" for i
  proof -
    have "(head rb + i) mod ?n \<noteq> (head rb + rb_size rb) mod ?n"
      using that room shift_mod_inj [of i ?n "rb_size rb" "head rb"] by auto
    then show ?thesis
      using rb_tail_eq [OF inv] by (simp add: rb_nth_def rb'_def)
  qed
  have new: "rb_nth rb' (rb_size rb) = v"
    using inv rb_tail_eq [OF inv] by (simp add: rb_nth_def rb'_def rb_inv_def)
  show "rb_list rb' = rb_list rb @ [v]"
    using old new by (simp add: rb_list_def size)
qed

lemma rb_advance_head:
  assumes inv: "rb_inv rb" and ne: "0 < rb_size rb"
  defines "rb' \<equiv> rb\<lparr>head := (head rb + 1) mod length (ring rb)\<rparr>"
  shows "rb_inv rb'" and "rb_size rb' = rb_size rb - 1" and "rb_list rb = ring rb ! head rb # rb_list rb'"
proof -
  let ?n = "length (ring rb)"
  have n: "0 < ?n" by (rule rb_inv_length [OF inv])
  show inv': "rb_inv rb'"
    using inv n by (auto simp: rb_inv_def rb'_def)
  have shift: "((head rb + 1) mod ?n + i) mod ?n = (head rb + Suc i) mod ?n" for i
    by (simp add: mod_add_left_eq)
  show size: "rb_size rb' = rb_size rb - 1"
    using inv' rb_size_less [OF inv] ne rb_tail_eq [OF inv] shift [of "rb_size rb - 1"]
    by (intro rb_size_unique) (simp_all add: rb'_def)
  have nth: "rb_nth rb' i = rb_nth rb (Suc i)" for i
    using shift by (simp add: rb_nth_def rb'_def)
  have hd: "rb_nth rb 0 = ring rb ! head rb"
    using inv by (simp add: rb_nth_def rb_inv_def)
  obtain k where k: "rb_size rb = Suc k"
    using ne by (cases "rb_size rb") auto
  show "rb_list rb = ring rb ! head rb # rb_list rb'"
    unfolding rb_list_def size k map_upt_Suc using nth hd by simp
qed

lemma rb_enqueue_full:
  "rb_inv rb \<Longrightarrow> length (rb_list rb) = rb_capacity rb \<Longrightarrow> rb_enqueue rb v = Some (False, rb)"
  by (simp add: rb_enqueue_def rb_is_full_iff)

lemma rb_enqueue_room:
  assumes inv: "rb_inv rb" and room: "length (rb_list rb) < rb_capacity rb"
  shows "\<exists>rb'. rb_enqueue rb v = Some (True, rb') \<and> rb_inv rb' \<and>
           rb_list rb' = rb_list rb @ [v] \<and> rb_capacity rb' = rb_capacity rb"
proof -
  have "Suc (rb_size rb) < length (ring rb)"
    using room by (simp add: rb_capacity_def)
  from rb_append_at_tail [OF inv this, of v] show ?thesis
    using inv room rb_next_eq [OF inv]
    by (simp add: rb_enqueue_def rb_is_full_iff slice_set_def rb_inv_def rb_capacity_def)
qed

lemma rb_dequeue_empty: "rb_inv rb \<Longrightarrow> rb_list rb = [] \<Longrightarrow> rb_dequeue rb = Some (None, rb)"
  by (simp add: rb_dequeue_def rb_has_elements_iff)

lemma rb_dequeue_Cons:
  assumes inv: "rb_inv rb" and ne: "rb_list rb = x # xs"
  shows "\<exists>rb'. rb_dequeue rb = Some (Some x, rb') \<and> rb_inv rb' \<and> rb_list rb' = xs \<and>
           rb_capacity rb' = rb_capacity rb"
proof -
  have "0 < rb_size rb"
    using ne by (metis rb_list_length length_Cons zero_less_Suc)
  from rb_advance_head [OF inv this] show ?thesis
    using inv ne rb_next_eq [OF inv]
    by (simp add: rb_dequeue_def rb_has_elements_iff slice_get_def rb_inv_def rb_capacity_def)
qed

lemma rb_push_room:
  assumes inv: "rb_inv rb" and room: "length (rb_list rb) < rb_capacity rb"
  shows "\<exists>rb'. rb_push rb v = Some (None, rb') \<and> rb_inv rb' \<and>
           rb_list rb' = rb_list rb @ [v] \<and> rb_capacity rb' = rb_capacity rb"
proof -
  have "Suc (rb_size rb) < length (ring rb)"
    using room by (simp add: rb_capacity_def)
  from rb_append_at_tail [OF inv this, of v] show ?thesis
    using inv room rb_next_eq [OF inv]
    by (simp add: rb_push_def rb_is_full_iff slice_set_def rb_inv_def rb_capacity_def)
qed

lemma rb_push_full:
  assumes inv: "rb_inv rb" and full: "length (rb_list rb) = rb_capacity rb"
    and ne: "rb_list rb = x # xs"
  shows "\<exists>rb'. rb_push rb v = Some (Some x, rb') \<and> rb_inv rb' \<and>
           rb_list rb' = xs @ [v] \<and> rb_capacity rb' = rb_capacity rb"
proof -
  define rb1 where "rb1 = rb\<lparr>head := (head rb + 1) mod length (ring rb)\<rparr>"
  have pos: "0 < rb_size rb"
    using ne by (metis rb_list_length length_Cons zero_less_Suc)
  note adv = rb_advance_head [OF inv pos, folded rb1_def]
  have x: "x = ring rb ! head rb" and xs: "xs = rb_list rb1"
    using adv(3) ne by simp_all
  have "Suc (rb_size rb1) < length (ring rb1)"
    using adv(2) pos full by (simp add: rb1_def rb_capacity_def)
  from rb_append_at_tail [OF adv(1) this, of v] show ?thesis
    using inv full x xs rb_next_eq [OF inv] rb_next_eq [OF adv(1)]
    by (simp add: rb_push_def rb_is_full_iff slice_set_def slice_get_def rb_inv_def rb_capacity_def
        rb1_def)
qed

lemma rb_empty_correct:
  assumes "rb_inv rb"
  shows "rb_inv (rb_empty rb) \<and> rb_list (rb_empty rb) = [] \<and> rb_capacity (rb_empty rb) = rb_capacity rb"
  using rb_inv_length [OF assms]
  by (simp add: rb_empty_def rb_inv_def rb_list_def rb_size_def rb_capacity_def)

subsection \<open>Retain\<close>

text \<open>
  The loop compacts in place. With \<open>k\<close> elements visited and \<open>j\<close> of them kept, the first \<open>j\<close>
  slots from the head hold the kept ones and the slots from \<open>k\<close> on are untouched.
\<close>

lemma rb_retain_loop_correct:
  assumes "rb_inv rb" "j \<le> k" "k \<le> rb_size rb" "n = length (ring rb)"
    and "L = map (rb_nth rb) [0..<j] @ filter f (map (rb_nth rb) [k..<rb_size rb])"
  shows "\<exists>r. rb_retain_loop f n rb ((head rb + k) mod n) ((head rb + j) mod n) =
               Some (rb\<lparr>ring := r\<rparr>, (head rb + length L) mod n) \<and> length r = n \<and>
             map (rb_nth (rb\<lparr>ring := r\<rparr>)) [0..<length L] = L"
  using assms
proof (induction "rb_size rb - k" arbitrary: rb j k n L)
  case 0
  then have "k = rb_size rb" by simp
  then have "(head rb + k) mod n = tail rb"
    using 0 rb_tail_eq by metis
  then show ?case
    using 0 \<open>k = rb_size rb\<close> by (intro exI [of _ "ring rb"]) (simp add: rb_retain_loop.simps)
next
  case (Suc d)
  let ?s = "(head rb + k) mod n" and ?d = "(head rb + j) mod n"
  note inv = \<open>rb_inv rb\<close>
  have k: "k < rb_size rb" and kn: "k < n" and n: "0 < n"
    using Suc rb_size_less [OF inv] rb_inv_length [OF inv] by auto
  have ne: "?s \<noteq> tail rb"
    using shift_mod_inj [of k n "rb_size rb" "head rb"] k kn rb_tail_eq [OF inv] rb_size_less [OF inv]
    by (auto simp: Suc.prems)
  have s: "?s < length (ring rb)" and x: "ring rb ! ?s = rb_nth rb k"
    using n by (auto simp: Suc.prems rb_nth_def)
  have step: "((head rb + i) mod n + 1) mod n = (head rb + Suc i) mod n" for i
    by (simp add: mod_Suc_eq)
  show ?case
  proof (cases "f (rb_nth rb k)")
    case False
    have "\<exists>r. rb_retain_loop f n rb ((head rb + Suc k) mod n) ?d =
               Some (rb\<lparr>ring := r\<rparr>, (head rb + length L) mod n) \<and> length r = n \<and>
             map (rb_nth (rb\<lparr>ring := r\<rparr>)) [0..<length L] = L"
    proof -
      have L: "L = map (rb_nth rb) [0..<j] @ filter f (map (rb_nth rb) [Suc k..<rb_size rb])"
        using False k by (simp add: Suc.prems upt_conv_Cons)
      show ?thesis
        using Suc.hyps(1) [of rb "Suc k" j] Suc.hyps(2) Suc.prems k unfolding L by simp
    qed
    then show ?thesis
      using ne s x False step [of k] by (subst rb_retain_loop.simps) (simp add: slice_get_def)
  next
    case True
    define r1 where "r1 = (ring rb)[?d := rb_nth rb k]"
    define rb1 where "rb1 = rb\<lparr>ring := r1\<rparr>"
    have d: "?d < length (ring rb)" and len: "length r1 = n"
      using n by (simp_all add: Suc.prems r1_def)
    have nth: "rb_nth rb1 i = (if i = j then rb_nth rb k else rb_nth rb i)" if "i < n" for i
      using that d shift_mod_inj [of i n j "head rb"] Suc.prems kn
      by (auto simp: rb_nth_def rb1_def r1_def nth_list_update)
    have size1: "rb_size rb1 = rb_size rb" and inv1: "rb_inv rb1" and hd: "head rb1 = head rb"
      and ring1: "length (ring rb1) = n"
      using inv len by (simp_all add: rb1_def rb_size_def rb_inv_def Suc.prems)
    have L: "L = map (rb_nth rb1) [0..<Suc j] @ filter f (map (rb_nth rb1) [Suc k..<rb_size rb1])"
    proof -
      have "map (rb_nth rb1) [0..<j] = map (rb_nth rb) [0..<j]"
        using nth kn Suc.prems by auto
      moreover have "map (rb_nth rb1) [Suc k..<rb_size rb] = map (rb_nth rb) [Suc k..<rb_size rb]"
        using nth kn Suc.prems rb_size_less [OF inv] by auto
      moreover have "rb_nth rb1 j = rb_nth rb k"
        using nth kn Suc.prems by auto
      ultimately show ?thesis
        using True k by (simp add: Suc.prems size1 upt_conv_Cons del: map_eq_conv)
    qed
    have "\<exists>r. rb_retain_loop f n rb1 ((head rb + Suc k) mod n) ((head rb + Suc j) mod n) =
               Some (rb1\<lparr>ring := r\<rparr>, (head rb + length L) mod n) \<and> length r = n \<and>
             map (rb_nth (rb1\<lparr>ring := r\<rparr>)) [0..<length L] = L"
    proof -
      have "d = rb_size rb1 - Suc k" "Suc j \<le> Suc k" "Suc k \<le> rb_size rb1"
        using Suc.hyps(2) Suc.prems(2) size1 k by auto
      from Suc.hyps(1) [OF this(1) inv1 this(2,3) ring1 [symmetric] L] show ?thesis
        unfolding hd .
    qed
    moreover have "(if ?s \<noteq> ?d then slice_set (ring rb) ?d (rb_nth rb k) else Some (ring rb)) = Some r1"
      using d x by (auto simp: slice_set_def r1_def) (metis list_update_id)
    ultimately show ?thesis
      using ne s x True step [of k] step [of j]
      by (subst rb_retain_loop.simps) (simp add: slice_get_def rb1_def)
  qed
qed

lemma rb_retain_correct:
  assumes inv: "rb_inv rb"
  shows "\<exists>rb'. rb_retain rb f = Some rb' \<and> rb_inv rb' \<and> rb_list rb' = filter f (rb_list rb) \<and>
           rb_capacity rb' = rb_capacity rb"
proof -
  let ?n = "length (ring rb)" and ?L = "filter f (rb_list rb)"
  have hd: "(head rb + 0) mod ?n = head rb"
    using inv by (simp add: rb_inv_def)
  obtain r where r: "rb_retain_loop f ?n rb (head rb) (head rb) =
               Some (rb\<lparr>ring := r\<rparr>, (head rb + length ?L) mod ?n)" "length r = ?n"
             "map (rb_nth (rb\<lparr>ring := r\<rparr>)) [0..<length ?L] = ?L"
    using rb_retain_loop_correct [OF inv, of 0 0 ?n ?L f] unfolding hd by (auto simp: rb_list_def)
  define rb' where "rb' = rb\<lparr>ring := r, tail := (head rb + length ?L) mod ?n\<rparr>"
  have le: "length ?L < ?n"
    using rb_size_less [OF inv] by (metis length_filter_le le_less_trans rb_list_length)
  have inv': "rb_inv rb'"
    using inv r(2) le by (auto simp: rb_inv_def rb'_def intro: mod_less_divisor)
  have size: "rb_size rb' = length ?L"
    using inv' le r(2) by (intro rb_size_unique) (simp_all add: rb'_def)
  have "rb_nth rb' = rb_nth (rb\<lparr>ring := r\<rparr>)"
    by (intro ext) (simp add: rb_nth_def rb'_def)
  then have "rb_list rb' = ?L"
    using r(3) unfolding rb_list_def [of rb'] size by simp
  then show ?thesis
    using inv' r by (simp add: rb_retain_def rb'_def rb_capacity_def)
qed

subsection \<open>The two slices\<close>

lemma rb_as_slices_correct:
  assumes inv: "rb_inv rb"
  shows "\<exists>a b. rb_as_slices rb = Some (a, b) \<and> case_option [] id a @ case_option [] id b = rb_list rb"
proof -
  let ?n = "length (ring rb)"
  have h: "head rb < ?n" and t: "tail rb < ?n"
    using inv by (auto simp: rb_inv_def)
  consider "head rb < tail rb" | "head rb > tail rb" | "head rb = tail rb" by linarith
  then show ?thesis
  proof cases
    case 1
    have "drop (head rb) (take (tail rb) (ring rb)) = rb_list rb"
      using 1 h t by (intro nth_equalityI) (auto simp: rb_size_def rb_nth_def rb_list_def)
    then show ?thesis
      using 1 t by (simp add: rb_as_slices_def slice_range_def drop_take)
  next
    case 2
    have "drop (head rb) (ring rb) @ take (tail rb) (ring rb) = rb_list rb"
      using 2 h t
      by (intro nth_equalityI)
        (auto simp: rb_size_def rb_nth_def rb_list_def nth_append mod_if intro: arg_cong [of _ _ "nth (ring rb)"])
    then show ?thesis
      using 2 h t by (auto simp: rb_as_slices_def slice_range_def Let_def min_def)
  next
    case 3
    then show ?thesis
      by (simp add: rb_as_slices_def rb_list_def rb_size_def)
  qed
qed

section \<open>The queue interface\<close>

text \<open>
  What a client of the trait \<open>Queue\<close> may rely on: no operation panics on a well-formed queue, and
  each of them is the list operation of the same name on the abstract content.
\<close>

locale bounded_queue =
  fixes inv :: "'q \<Rightarrow> bool" and abs :: "'q \<Rightarrow> 'a list" and cap :: "'q \<Rightarrow> nat"
    and has_elements :: "'q \<Rightarrow> bool" and is_full :: "'q \<Rightarrow> bool option"
    and qlen :: "'q \<Rightarrow> nat option"
    and enqueue :: "'q \<Rightarrow> 'a \<Rightarrow> (bool \<times> 'q) option"
    and push :: "'q \<Rightarrow> 'a \<Rightarrow> ('a option \<times> 'q) option"
    and dequeue :: "'q \<Rightarrow> ('a option \<times> 'q) option"
    and empty :: "'q \<Rightarrow> 'q" and retain :: "'q \<Rightarrow> ('a \<Rightarrow> bool) \<Rightarrow> 'q option"
  assumes bounded: "inv q \<Longrightarrow> length (abs q) \<le> cap q"
    and has_elements: "inv q \<Longrightarrow> has_elements q \<longleftrightarrow> abs q \<noteq> []"
    and is_full: "inv q \<Longrightarrow> is_full q = Some (length (abs q) = cap q)"
    and qlen: "inv q \<Longrightarrow> qlen q = Some (length (abs q))"
    and enqueue_full: "inv q \<Longrightarrow> length (abs q) = cap q \<Longrightarrow> enqueue q v = Some (False, q)"
    and enqueue_room: "inv q \<Longrightarrow> length (abs q) < cap q \<Longrightarrow>
      \<exists>q'. enqueue q v = Some (True, q') \<and> inv q' \<and> abs q' = abs q @ [v] \<and> cap q' = cap q"
    and push_room: "inv q \<Longrightarrow> length (abs q) < cap q \<Longrightarrow>
      \<exists>q'. push q v = Some (None, q') \<and> inv q' \<and> abs q' = abs q @ [v] \<and> cap q' = cap q"
    and push_full: "inv q \<Longrightarrow> length (abs q) = cap q \<Longrightarrow> abs q = x # xs \<Longrightarrow>
      \<exists>q'. push q v = Some (Some x, q') \<and> inv q' \<and> abs q' = xs @ [v] \<and> cap q' = cap q"
    and dequeue_empty: "inv q \<Longrightarrow> abs q = [] \<Longrightarrow> dequeue q = Some (None, q)"
    and dequeue_Cons: "inv q \<Longrightarrow> abs q = x # xs \<Longrightarrow>
      \<exists>q'. dequeue q = Some (Some x, q') \<and> inv q' \<and> abs q' = xs \<and> cap q' = cap q"
    and empty: "inv q \<Longrightarrow> inv (empty q) \<and> abs (empty q) = [] \<and> cap (empty q) = cap q"
    and retain: "inv q \<Longrightarrow>
      \<exists>q'. retain q f = Some q' \<and> inv q' \<and> abs q' = filter f (abs q) \<and> cap q' = cap q"
begin

lemma enqueue_spec:
  assumes "inv q"
  obtains b q' where "enqueue q v = Some (b, q')" "inv q'" "cap q' = cap q"
    "b \<longleftrightarrow> length (abs q) < cap q" "abs q' = (if b then abs q @ [v] else abs q)"
proof (cases "length (abs q) < cap q")
  case True
  from enqueue_room [OF assms this, of v] that True show ?thesis by auto
next
  case False
  then have "length (abs q) = cap q" using bounded [OF assms] by simp
  from enqueue_full [OF assms this, of v] that False assms show ?thesis by auto
qed

lemma dequeue_spec:
  assumes "inv q"
  obtains r q' where "dequeue q = Some (r, q')" "inv q'" "cap q' = cap q"
    "case r of None \<Rightarrow> abs q = [] \<and> q' = q | Some x \<Rightarrow> abs q = x # abs q'"
proof (cases "abs q")
  case Nil
  with dequeue_empty [OF assms] assms that show ?thesis by auto
next
  case (Cons x xs)
  from dequeue_Cons [OF assms this] that Cons show ?thesis by auto
qed

lemma retain_spec:
  assumes "inv q"
  obtains q' where "retain q f = Some q'" "inv q'" "cap q' = cap q" "abs q' = filter f (abs q)"
  using retain [OF assms] by blast

lemma push_spec:
  assumes "inv q" "0 < cap q"
  obtains r q' where "push q v = Some (r, q')" "inv q'" "cap q' = cap q"
    "case r of None \<Rightarrow> abs q' = abs q @ [v] | Some x \<Rightarrow> abs q' @ [] = tl (abs q) @ [v] \<and> x = hd (abs q)"
proof (cases "length (abs q) < cap q")
  case True
  from push_room [OF assms(1) this, of v] that show ?thesis by auto
next
  case False
  then have full: "length (abs q) = cap q" using bounded [OF assms(1)] by simp
  then obtain x xs where c: "abs q = x # xs" using assms(2) by (cases "abs q") auto
  from push_full [OF assms(1) full c, of v] that c show ?thesis by auto
qed

end

interpretation rbq: bounded_queue rb_inv rb_list rb_capacity rb_has_elements rb_is_full rb_len
  rb_enqueue rb_push rb_dequeue rb_empty rb_retain
proof unfold_locales
  fix q :: "'a ring_buffer"
  assume "rb_inv q"
  then show "length (rb_list q) \<le> rb_capacity q"
    using rb_size_less by (fastforce simp: rb_capacity_def)
qed (simp_all add: rb_has_elements_iff rb_is_full_iff rb_len_eq rb_enqueue_full rb_enqueue_room
    rb_push_room rb_push_full rb_dequeue_empty rb_dequeue_Cons rb_empty_correct rb_retain_correct)

end
