(* ===== verification/Tbf.thy ===== *)
theory Tbf
  imports Prelude
begin

text \<open>
  The Tock Binary Format of \<open>libraries/tock-tbf\<close>: the types of a header and their decoders
  (\<open>types.rs\<close>), the parser of headers and footers (\<open>parse.rs\<close>) and the accessors of a parsed header.

  A parser returns \<open>TbfParseError + 'a\<close>; \<open>and_then\<close> is the propagation the source writes as \<open>?\<close>.
  Every slice access of the parser is a checked \<open>get\<close>, so it has no panics; the accessors that add
  two header fields are option-valued, \<open>None\<close> being the overflow panic. The sizes the parser takes
  with \<open>size_of\<close> are 12, 20, 8, 8, 16 and 4 bytes.
\<close>

section \<open>Types\<close>

datatype InitialTbfParseError = UnableToParse | InvalidHeader u32

datatype TbfParseError =
    NotEnoughFlash
  | UnsupportedVersion u16
  | ChecksumMismatch u32 u32
  | BadTlvEntry nat
  | BadProcessName
  | InternalError
  | TooManyEntries nat

record TbfHeaderV2Base =
  base_version :: u16
  header_size :: u16
  total_size :: u32
  flags :: u32
  checksum :: u32

datatype TbfHeaderTypes =
    TbfHeaderMain | TbfHeaderWriteableFlashRegions | TbfHeaderPackageName | TbfHeaderFixedAddresses
  | TbfHeaderPermissions | TbfHeaderStoragePermissions | TbfHeaderKernelVersion | TbfHeaderProgram
  | TbfFooterCredentials | Unknown

fun tipe_as_usize :: "TbfHeaderTypes \<Rightarrow> nat" where
  "tipe_as_usize TbfHeaderMain = 1"
| "tipe_as_usize TbfHeaderWriteableFlashRegions = 2"
| "tipe_as_usize TbfHeaderPackageName = 3"
| "tipe_as_usize TbfHeaderFixedAddresses = 5"
| "tipe_as_usize TbfHeaderPermissions = 6"
| "tipe_as_usize TbfHeaderStoragePermissions = 7"
| "tipe_as_usize TbfHeaderKernelVersion = 8"
| "tipe_as_usize TbfHeaderProgram = 9"
| "tipe_as_usize TbfFooterCredentials = 128"
| "tipe_as_usize Unknown = 129"

record TbfTlv =
  tipe :: TbfHeaderTypes
  tlv_length :: u16

record TbfHeaderV2Main =
  main_init_fn_offset :: u32
  main_protected_trailer_size :: u32
  main_minimum_ram_size :: u32

record TbfHeaderV2Program =
  prog_init_fn_offset :: u32
  prog_protected_trailer_size :: u32
  prog_minimum_ram_size :: u32
  prog_binary_end_offset :: u32
  prog_version :: u32

record TbfHeaderV2WriteableFlashRegion =
  writeable_flash_region_offset :: u32
  writeable_flash_region_size :: u32

record TbfHeaderV2FixedAddresses =
  start_process_ram :: u32
  start_process_flash :: u32

record TbfHeaderDriverPermission =
  perm_driver_number :: u32
  perm_offset :: u32
  allowed_commands :: u64

record TbfHeaderV2Permissions =
  perms_length :: u16
  perms :: "TbfHeaderDriverPermission list"

record TbfHeaderV2StoragePermissions =
  write_id :: "u32 option"
  read_length :: u16
  read_ids :: "u32 list"
  modify_length :: u16
  modify_ids :: "u32 list"

record TbfHeaderV2KernelVersion =
  kv_major :: u16
  kv_minor :: u16

datatype TbfFooterV2CredentialsType = Reserved | Rsa3072Key | Rsa4096Key | SHA256 | SHA384 | SHA512

record TbfFooterV2Credentials =
  cred_format :: TbfFooterV2CredentialsType
  cred_data :: "u8 list"

datatype CommandPermissions = NoPermsAtAll | NoPermsThisDriver | Mask u64

record TbfHeaderV2 =
  hd_base :: TbfHeaderV2Base
  hd_main :: "TbfHeaderV2Main option"
  hd_program :: "TbfHeaderV2Program option"
  hd_package_name :: "u8 list option"
  hd_writeable_regions :: "TbfHeaderV2WriteableFlashRegion option list option"
  hd_fixed_addresses :: "TbfHeaderV2FixedAddresses option"
  hd_permissions :: "TbfHeaderV2Permissions option"
  hd_storage_permissions :: "TbfHeaderV2StoragePermissions option"
  hd_kernel_version :: "TbfHeaderV2KernelVersion option"

datatype TbfHeader = TbfHeaderV2 TbfHeaderV2 | Padding TbfHeaderV2Base

section \<open>Decoders\<close>

definition get_le :: "TbfParseError \<Rightarrow> u8 list \<Rightarrow> nat \<Rightarrow> nat \<Rightarrow> TbfParseError + 'a::len word" where
  "get_le e b i j = and_then (ok_or (slice_range b i j) e) (\<lambda>s. Inr (from_le_bytes s))"

definition TbfHeaderV2Base_try_from :: "u8 list \<Rightarrow> TbfParseError + TbfHeaderV2Base" where
  "TbfHeaderV2Base_try_from b =
     (if length b < 16 then Inl InternalError
      else and_then (get_le InternalError b 0 2) (\<lambda>v.
           and_then (get_le InternalError b 2 4) (\<lambda>hs.
           and_then (get_le InternalError b 4 8) (\<lambda>ts.
           and_then (get_le InternalError b 8 12) (\<lambda>fl.
           and_then (get_le InternalError b 12 16) (\<lambda>ck.
           Inr \<lparr>base_version = v, header_size = hs, total_size = ts, flags = fl, checksum = ck\<rparr>))))))"

definition TbfHeaderTypes_try_from :: "u16 \<Rightarrow> TbfHeaderTypes" where
  "TbfHeaderTypes_try_from h =
     (if h = 1 then TbfHeaderMain
      else if h = 2 then TbfHeaderWriteableFlashRegions
      else if h = 3 then TbfHeaderPackageName
      else if h = 5 then TbfHeaderFixedAddresses
      else if h = 6 then TbfHeaderPermissions
      else if h = 7 then TbfHeaderStoragePermissions
      else if h = 8 then TbfHeaderKernelVersion
      else if h = 9 then TbfHeaderProgram
      else if h = 128 then TbfFooterCredentials
      else Unknown)"

definition TbfTlv_try_from :: "u8 list \<Rightarrow> TbfParseError + TbfTlv" where
  "TbfTlv_try_from b =
     and_then (get_le InternalError b 0 2) (\<lambda>t.
     and_then (get_le InternalError b 2 4) (\<lambda>len.
     Inr \<lparr>tipe = TbfHeaderTypes_try_from t, tlv_length = len\<rparr>))"

definition TbfHeaderV2Main_try_from :: "u8 list \<Rightarrow> TbfParseError + TbfHeaderV2Main" where
  "TbfHeaderV2Main_try_from b =
     (if length b < 12 then Inl InternalError
      else and_then (get_le InternalError b 0 4) (\<lambda>i.
           and_then (get_le InternalError b 4 8) (\<lambda>p.
           and_then (get_le InternalError b 8 12) (\<lambda>m.
           Inr \<lparr>main_init_fn_offset = i, main_protected_trailer_size = p, main_minimum_ram_size = m\<rparr>))))"

definition TbfHeaderV2Program_try_from :: "u8 list \<Rightarrow> TbfParseError + TbfHeaderV2Program" where
  "TbfHeaderV2Program_try_from b =
     (if length b < 20 then Inl InternalError
      else and_then (get_le InternalError b 0 4) (\<lambda>i.
           and_then (get_le InternalError b 4 8) (\<lambda>p.
           and_then (get_le InternalError b 8 12) (\<lambda>m.
           and_then (get_le InternalError b 12 16) (\<lambda>e.
           and_then (get_le InternalError b 16 20) (\<lambda>v.
           Inr \<lparr>prog_init_fn_offset = i, prog_protected_trailer_size = p, prog_minimum_ram_size = m,
                prog_binary_end_offset = e, prog_version = v\<rparr>))))))"

definition TbfHeaderV2WriteableFlashRegion_try_from ::
    "u8 list \<Rightarrow> TbfParseError + TbfHeaderV2WriteableFlashRegion" where
  "TbfHeaderV2WriteableFlashRegion_try_from b =
     and_then (get_le InternalError b 0 4) (\<lambda>off.
     and_then (get_le InternalError b 4 8) (\<lambda>sz.
     Inr \<lparr>writeable_flash_region_offset = off, writeable_flash_region_size = sz\<rparr>))"

definition TbfHeaderV2FixedAddresses_try_from ::
    "u8 list \<Rightarrow> TbfParseError + TbfHeaderV2FixedAddresses" where
  "TbfHeaderV2FixedAddresses_try_from b =
     and_then (get_le InternalError b 0 4) (\<lambda>r.
     and_then (get_le InternalError b 4 8) (\<lambda>f.
     Inr \<lparr>start_process_ram = r, start_process_flash = f\<rparr>))"

definition TbfHeaderDriverPermission_try_from ::
    "u8 list \<Rightarrow> TbfParseError + TbfHeaderDriverPermission" where
  "TbfHeaderDriverPermission_try_from b =
     (if length b < 16 then Inl InternalError
      else and_then (get_le InternalError b 0 4) (\<lambda>d.
           and_then (get_le InternalError b 4 8) (\<lambda>off.
           and_then (get_le InternalError b 8 16) (\<lambda>cmds.
           Inr \<lparr>perm_driver_number = d, perm_offset = off, allowed_commands = cmds\<rparr>))))"

text \<open>
  The loops over the entries of a variable-length block: entry \<open>i\<close> of \<open>n\<close> is stored in the array
  \<open>arr\<close>; an entry past the end of the array is an error.
\<close>

function (sequential) perms_loop ::
    "u8 list \<Rightarrow> nat \<Rightarrow> nat \<Rightarrow> TbfHeaderDriverPermission list \<Rightarrow>
      TbfParseError + TbfHeaderDriverPermission list" where
  "perms_loop b n i arr =
     (if i < n then
        (if i < length arr then
           and_then (ok_or (slice_range b (2 + i * 16) (2 + i * 16 + 16)) NotEnoughFlash) (\<lambda>s.
           and_then (TbfHeaderDriverPermission_try_from s) (\<lambda>p.
           perms_loop b n (i + 1) (arr[i := p])))
         else Inl (BadTlvEntry (tipe_as_usize TbfHeaderPermissions)))
      else Inr arr)"
  by pat_completeness auto
termination by (relation "measure (\<lambda>(b, n, i, arr). n - i)") auto

definition TbfHeaderV2Permissions_try_from :: "nat \<Rightarrow> u8 list \<Rightarrow> TbfParseError + TbfHeaderV2Permissions" where
  "TbfHeaderV2Permissions_try_from L b =
     and_then (get_le NotEnoughFlash b 0 2) (\<lambda>number_perms.
     and_then (perms_loop b (unat number_perms) 0
       (replicate L \<lparr>perm_driver_number = 0, perm_offset = 0, allowed_commands = 0\<rparr>)) (\<lambda>ps.
     Inr \<lparr>perms_length = number_perms, perms = ps\<rparr>))"

function (sequential) ids_loop ::
    "u8 list \<Rightarrow> nat \<Rightarrow> nat \<Rightarrow> nat \<Rightarrow> u32 list \<Rightarrow> TbfParseError + u32 list" where
  "ids_loop b from n i arr =
     (if i < n then
        (if i < length arr then
           and_then (get_le NotEnoughFlash b (from + i * 4) (from + i * 4 + 4)) (\<lambda>x.
           ids_loop b from n (i + 1) (arr[i := x]))
         else Inl (BadTlvEntry (tipe_as_usize TbfHeaderStoragePermissions)))
      else Inr arr)"
  by pat_completeness auto
termination by (relation "measure (\<lambda>(b, from, n, i, arr). n - i)") auto

definition TbfHeaderV2StoragePermissions_try_from ::
    "nat \<Rightarrow> u8 list \<Rightarrow> TbfParseError + TbfHeaderV2StoragePermissions" where
  "TbfHeaderV2StoragePermissions_try_from L b =
     and_then (get_le NotEnoughFlash b 0 4) (\<lambda>w.
     and_then (get_le NotEnoughFlash b 4 6) (\<lambda>rl.
     and_then (ids_loop b 6 (unat rl) 0 (replicate L 0)) (\<lambda>rids.
     let read_end = 6 + unat rl * 4 in
     and_then (get_le NotEnoughFlash b read_end (read_end + 2)) (\<lambda>ml.
     and_then (ids_loop b (read_end + 2) (unat ml) 0 (replicate L 0)) (\<lambda>mids.
     Inr \<lparr>write_id = (if w = 0 then None else Some w), read_length = rl, read_ids = rids,
          modify_length = ml, modify_ids = mids\<rparr>)))))"

definition TbfHeaderV2KernelVersion_try_from ::
    "u8 list \<Rightarrow> TbfParseError + TbfHeaderV2KernelVersion" where
  "TbfHeaderV2KernelVersion_try_from b =
     and_then (get_le InternalError b 0 2) (\<lambda>mj.
     and_then (get_le InternalError b 2 4) (\<lambda>mn.
     Inr \<lparr>kv_major = mj, kv_minor = mn\<rparr>))"

fun credentials_length :: "TbfFooterV2CredentialsType \<Rightarrow> nat" where
  "credentials_length Reserved = 0"
| "credentials_length Rsa3072Key = 768"
| "credentials_length Rsa4096Key = 1024"
| "credentials_length SHA256 = 32"
| "credentials_length SHA384 = 48"
| "credentials_length SHA512 = 64"

definition TbfFooterV2Credentials_try_from :: "u8 list \<Rightarrow> TbfParseError + TbfFooterV2Credentials" where
  "TbfFooterV2Credentials_try_from b =
     and_then (get_le InternalError b 0 4) (\<lambda>format :: u32.
     and_then (if format = 0 then Inr Reserved
               else if format = 1 then Inr Rsa3072Key
               else if format = 2 then Inr Rsa4096Key
               else if format = 3 then Inr SHA256
               else if format = 4 then Inr SHA384
               else if format = 5 then Inr SHA512
               else Inl InternalError) (\<lambda>ftype.
     and_then (ok_or (slice_range b 4 (credentials_length ftype + 4)) NotEnoughFlash) (\<lambda>d.
     Inr \<lparr>cred_format = ftype, cred_data = d\<rparr>)))"

section \<open>UTF-8\<close>

text \<open>
  The check of \<open>str::from_utf8\<close>: the well-formed byte sequences of the Unicode standard (shortest
  form, no surrogates, at most \<open>U+10FFFF\<close>). \<open>utf8_tail b bs\<close> is what follows the character that
  starts with the non-ASCII byte \<open>b\<close>.
\<close>

definition in_range :: "u8 \<Rightarrow> u8 \<Rightarrow> u8 \<Rightarrow> bool" where
  "in_range lo hi b \<longleftrightarrow> lo \<le> b \<and> b \<le> hi"

fun strip_cont :: "nat \<Rightarrow> u8 list \<Rightarrow> u8 list option" where
  "strip_cont 0 bs = Some bs"
| "strip_cont (Suc n) [] = None"
| "strip_cont (Suc n) (b # bs) = (if in_range 0x80 0xBF b then strip_cont n bs else None)"

fun strip_first :: "u8 \<Rightarrow> u8 \<Rightarrow> nat \<Rightarrow> u8 list \<Rightarrow> u8 list option" where
  "strip_first lo hi n [] = None"
| "strip_first lo hi n (b # bs) = (if in_range lo hi b then strip_cont n bs else None)"

definition utf8_tail :: "u8 \<Rightarrow> u8 list \<Rightarrow> u8 list option" where
  "utf8_tail b bs =
     (if b < 0x80 then Some bs
      else if in_range 0xC2 0xDF b then strip_first 0x80 0xBF 0 bs
      else if b = 0xE0 then strip_first 0xA0 0xBF 1 bs
      else if b = 0xED then strip_first 0x80 0x9F 1 bs
      else if in_range 0xE1 0xEF b then strip_first 0x80 0xBF 1 bs
      else if b = 0xF0 then strip_first 0x90 0xBF 2 bs
      else if b = 0xF4 then strip_first 0x80 0x8F 2 bs
      else if in_range 0xF1 0xF3 b then strip_first 0x80 0xBF 2 bs
      else None)"

lemma strip_cont_length: "strip_cont n bs = Some r \<Longrightarrow> length r \<le> length bs"
  by (induction n bs rule: strip_cont.induct) (auto split: if_splits)

lemma strip_first_length: "strip_first lo hi n bs = Some r \<Longrightarrow> length r \<le> length bs"
  by (cases bs) (auto split: if_splits dest: strip_cont_length)

lemma utf8_tail_length: "utf8_tail b bs = Some r \<Longrightarrow> length r \<le> length bs"
  by (auto simp: utf8_tail_def split: if_splits dest: strip_first_length)

function valid_utf8 :: "u8 list \<Rightarrow> bool" where
  "valid_utf8 [] = True"
| "valid_utf8 (b # bs) = (case utf8_tail b bs of None \<Rightarrow> False | Some r \<Rightarrow> valid_utf8 r)"
  by pat_completeness auto
termination
  by (relation "measure length") (auto dest: utf8_tail_length simp: less_Suc_eq_le)

section \<open>Parser\<close>

definition align4 :: "nat \<Rightarrow> nat" where
  "align4 e = e + ((4 - (e mod 4)) mod 4)"

definition parse_tbf_header_lengths :: "u8 list \<Rightarrow> InitialTbfParseError + (u16 \<times> u16 \<times> u32)" where
  "parse_tbf_header_lengths app =
     (let version = from_le_bytes [app ! 0, app ! 1] :: u16 in
      if version = 2 then
        (let tbf_header_size = from_le_bytes [app ! 2, app ! 3] :: u16;
             tbf_size = from_le_bytes [app ! 4, app ! 5, app ! 6, app ! 7] :: u32 in
         if (ucast tbf_header_size :: u32) > tbf_size \<or> tbf_header_size < 16
         then Inl (InvalidHeader tbf_size)
         else Inr (version, tbf_header_size, tbf_size))
      else Inl UnableToParse)"

fun words_of :: "u8 list \<Rightarrow> u32 list" where
  "words_of (a # b # c # d # rest) = from_le_bytes [a, b, c, d] # words_of rest"
| "words_of _ = []"

fun checksum_loop :: "nat \<Rightarrow> u32 list \<Rightarrow> u32 \<Rightarrow> u32" where
  "checksum_loop i [] acc = acc"
| "checksum_loop i (w # ws) acc = checksum_loop (i + 1) ws (if i = 3 then acc else acc XOR w)"

text \<open>The fields that the loop over the TLV blocks fills in.\<close>

record tlv_state =
  main_pointer :: "TbfHeaderV2Main option"
  program_pointer :: "TbfHeaderV2Program option"
  wfr_pointer :: "TbfHeaderV2WriteableFlashRegion option list"
  app_name_str :: "u8 list"
  fixed_address_pointer :: "TbfHeaderV2FixedAddresses option"
  permissions_pointer :: "TbfHeaderV2Permissions option"
  storage_permissions_pointer :: "TbfHeaderV2StoragePermissions option"
  kernel_version :: "TbfHeaderV2KernelVersion option"

definition init_tlv_state :: tlv_state where
  "init_tlv_state =
     \<lparr>main_pointer = None, program_pointer = None, wfr_pointer = replicate 4 None, app_name_str = [],
      fixed_address_pointer = None, permissions_pointer = None, storage_permissions_pointer = None,
      kernel_version = None\<rparr>"

definition fixed_block ::
    "TbfTlv \<Rightarrow> u8 list \<Rightarrow> nat \<Rightarrow> (u8 list \<Rightarrow> TbfParseError + 'a) \<Rightarrow> TbfParseError + 'a" where
  "fixed_block tlv remaining entry_len try_from =
     (if unat (tlv_length tlv) = entry_len then
        and_then (ok_or (slice_range remaining 0 entry_len) NotEnoughFlash) try_from
      else Inl (BadTlvEntry (tipe_as_usize (tipe tlv))))"

fun wfr_loop ::
    "u8 list \<Rightarrow> nat \<Rightarrow> nat \<Rightarrow> TbfHeaderV2WriteableFlashRegion option list \<Rightarrow>
      TbfParseError + TbfHeaderV2WriteableFlashRegion option list" where
  "wfr_loop wfr_slice 0 i arr = Inr arr"
| "wfr_loop wfr_slice (Suc n) i arr =
     and_then (ok_or (slice_range wfr_slice (i * 8) ((i + 1) * 8)) NotEnoughFlash) (\<lambda>s.
     and_then (TbfHeaderV2WriteableFlashRegion_try_from s) (\<lambda>w.
     wfr_loop wfr_slice n (i + 1) (arr[i := Some w])))"

definition parse_tlv :: "TbfTlv \<Rightarrow> u8 list \<Rightarrow> tlv_state \<Rightarrow> TbfParseError + tlv_state" where
  "parse_tlv tlv remaining st =
     (case tipe tlv of
        TbfHeaderMain \<Rightarrow>
          (if main_pointer st = None then
             and_then (fixed_block tlv remaining 12 TbfHeaderV2Main_try_from) (\<lambda>m.
             Inr (st\<lparr>main_pointer := Some m\<rparr>))
           else Inr st)
      | TbfHeaderProgram \<Rightarrow>
          (if program_pointer st = None then
             and_then (fixed_block tlv remaining 20 TbfHeaderV2Program_try_from) (\<lambda>p.
             Inr (st\<lparr>program_pointer := Some p\<rparr>))
           else Inr st)
      | TbfHeaderWriteableFlashRegions \<Rightarrow>
          (if unat (tlv_length tlv) mod 8 = 0 then
             and_then (ok_or (slice_range remaining 0 (unat (tlv_length tlv))) NotEnoughFlash) (\<lambda>wfr_slice.
             let number_regions = unat (tlv_length tlv) div 8;
                 number_regions = (if number_regions > 4 then 4 else number_regions) in
             and_then (wfr_loop wfr_slice number_regions 0 (wfr_pointer st)) (\<lambda>ws.
             Inr (st\<lparr>wfr_pointer := ws\<rparr>)))
           else Inl (BadTlvEntry (tipe_as_usize (tipe tlv))))
      | TbfHeaderPackageName \<Rightarrow>
          and_then (ok_or (slice_range remaining 0 (unat (tlv_length tlv))) NotEnoughFlash) (\<lambda>name_buf.
          if valid_utf8 name_buf then Inr (st\<lparr>app_name_str := name_buf\<rparr>) else Inl BadProcessName)
      | TbfHeaderFixedAddresses \<Rightarrow>
          and_then (fixed_block tlv remaining 8 TbfHeaderV2FixedAddresses_try_from) (\<lambda>f.
          Inr (st\<lparr>fixed_address_pointer := Some f\<rparr>))
      | TbfHeaderPermissions \<Rightarrow>
          and_then (TbfHeaderV2Permissions_try_from 8 remaining) (\<lambda>p.
          Inr (st\<lparr>permissions_pointer := Some p\<rparr>))
      | TbfHeaderStoragePermissions \<Rightarrow>
          and_then (TbfHeaderV2StoragePermissions_try_from 8 remaining) (\<lambda>p.
          Inr (st\<lparr>storage_permissions_pointer := Some p\<rparr>))
      | TbfHeaderKernelVersion \<Rightarrow>
          and_then (fixed_block tlv remaining 4 TbfHeaderV2KernelVersion_try_from) (\<lambda>k.
          Inr (st\<lparr>kernel_version := Some k\<rparr>))
      | _ \<Rightarrow> Inr st)"

function parse_tlvs :: "u8 list \<Rightarrow> tlv_state \<Rightarrow> TbfParseError + tlv_state" where
  "parse_tlvs remaining st =
     (if length remaining > 0 then
        (case slice_range remaining 0 4 of
           None \<Rightarrow> Inl NotEnoughFlash
         | Some t4 \<Rightarrow>
             and_then (TbfTlv_try_from t4) (\<lambda>tlv_header.
             let rest = drop 4 remaining in
             and_then (parse_tlv tlv_header rest st) (\<lambda>st'.
             let skip_len = align4 (unat (tlv_length tlv_header)) in
             (case slice_from rest skip_len of
                None \<Rightarrow> Inl NotEnoughFlash
              | Some rest' \<Rightarrow> parse_tlvs rest' st'))))
      else Inr st)"
  by pat_completeness auto
termination
  by (relation "measure (\<lambda>(r, st). length r)") (auto simp: slice_from_def split: if_splits)

definition parse_tbf_header :: "u8 list \<Rightarrow> u16 \<Rightarrow> TbfParseError + TbfHeader" where
  "parse_tbf_header header version =
     (if version = 2 then
        and_then (TbfHeaderV2Base_try_from header) (\<lambda>tbf_header_base.
        let ck = checksum_loop 0 (words_of header) 0 in
        if ck \<noteq> checksum tbf_header_base then
          Inl (ChecksumMismatch (checksum tbf_header_base) ck)
        else
          and_then (ok_or (slice_from header 16) NotEnoughFlash) (\<lambda>remaining.
          if length remaining = 0 then Inr (Padding tbf_header_base)
          else
            and_then (parse_tlvs remaining init_tlv_state) (\<lambda>st.
            Inr (TbfHeaderV2
              \<lparr>hd_base = tbf_header_base, hd_main = main_pointer st, hd_program = program_pointer st,
               hd_package_name = Some (app_name_str st),
               hd_writeable_regions = Some (wfr_pointer st),
               hd_fixed_addresses = fixed_address_pointer st,
               hd_permissions = permissions_pointer st,
               hd_storage_permissions = storage_permissions_pointer st,
               hd_kernel_version = kernel_version st\<rparr>))))
      else Inl (UnsupportedVersion version))"

definition parse_tbf_footer :: "u8 list \<Rightarrow> TbfParseError + (TbfFooterV2Credentials \<times> u32)" where
  "parse_tbf_footer footers =
     and_then (TbfTlv_try_from footers) (\<lambda>tlv_header.
     and_then (ok_or (slice_from footers 4) NotEnoughFlash) (\<lambda>remaining.
     if tipe tlv_header = TbfFooterCredentials then
       and_then (ok_or (slice_range remaining 0 (unat (tlv_length tlv_header))) NotEnoughFlash) (\<lambda>s.
       and_then (TbfFooterV2Credentials_try_from s) (\<lambda>credential.
       Inr (credential, ucast (tlv_length tlv_header))))
     else Inl (BadTlvEntry (tipe_as_usize (tipe tlv_header)))))"

section \<open>Accessors\<close>

definition tbf_length :: "TbfHeader \<Rightarrow> u16" where
  "tbf_length h = (case h of TbfHeaderV2 h2 \<Rightarrow> header_size (hd_base h2) | Padding base \<Rightarrow> header_size base)"

definition is_app :: "TbfHeader \<Rightarrow> bool" where
  "is_app h = (case h of TbfHeaderV2 _ \<Rightarrow> True | Padding _ \<Rightarrow> False)"

definition tbf_enabled :: "TbfHeader \<Rightarrow> bool" where
  "tbf_enabled h = (case h of TbfHeaderV2 h2 \<Rightarrow> flags (hd_base h2) AND 1 = 1 | Padding _ \<Rightarrow> False)"

definition get_minimum_app_ram_size :: "TbfHeader \<Rightarrow> u32" where
  "get_minimum_app_ram_size h =
     (case h of
        TbfHeaderV2 h2 \<Rightarrow>
          (case hd_program h2 of
             Some p \<Rightarrow> prog_minimum_ram_size p
           | None \<Rightarrow> (case hd_main h2 of Some m \<Rightarrow> main_minimum_ram_size m | None \<Rightarrow> 0))
      | Padding _ \<Rightarrow> 0)"

definition get_protected_size :: "TbfHeader \<Rightarrow> u32 option" where
  "get_protected_size h =
     (case h of
        TbfHeaderV2 h2 \<Rightarrow>
          (case hd_program h2 of
             Some p \<Rightarrow> chk_add (ucast (header_size (hd_base h2))) (prog_protected_trailer_size p)
           | None \<Rightarrow>
               (case hd_main h2 of
                  Some m \<Rightarrow> chk_add (ucast (header_size (hd_base h2))) (main_protected_trailer_size m)
                | None \<Rightarrow> Some 0))
      | Padding _ \<Rightarrow> Some 0)"

definition get_app_start_offset :: "TbfHeader \<Rightarrow> u32 option" where
  "get_app_start_offset h = get_protected_size h"

definition get_init_function_offset :: "TbfHeader \<Rightarrow> u32 option" where
  "get_init_function_offset h =
     (case h of
        TbfHeaderV2 h2 \<Rightarrow>
          (case hd_program h2 of
             Some p \<Rightarrow> chk_add (prog_init_fn_offset p) (ucast (header_size (hd_base h2)))
           | None \<Rightarrow>
               (case hd_main h2 of
                  Some m \<Rightarrow> chk_add (main_init_fn_offset m) (ucast (header_size (hd_base h2)))
                | None \<Rightarrow> Some 0))
      | Padding _ \<Rightarrow> Some 0)"

definition get_package_name :: "TbfHeader \<Rightarrow> u8 list option" where
  "get_package_name h = (case h of TbfHeaderV2 h2 \<Rightarrow> hd_package_name h2 | Padding _ \<Rightarrow> None)"

definition number_writeable_flash_regions :: "TbfHeader \<Rightarrow> nat" where
  "number_writeable_flash_regions h =
     (case h of
        TbfHeaderV2 h2 \<Rightarrow>
          (case hd_writeable_regions h2 of
             None \<Rightarrow> 0
           | Some wrs \<Rightarrow> foldl (\<lambda>acc wr. if wr \<noteq> None then acc + 1 else acc) 0 wrs)
      | Padding _ \<Rightarrow> 0)"

definition get_writeable_flash_region :: "TbfHeader \<Rightarrow> nat \<Rightarrow> u32 \<times> u32" where
  "get_writeable_flash_region h index =
     (case h of
        TbfHeaderV2 h2 \<Rightarrow>
          (case hd_writeable_regions h2 of
             None \<Rightarrow> (0, 0)
           | Some wrs \<Rightarrow>
               (case slice_get wrs index of
                  Some (Some wr) \<Rightarrow> (writeable_flash_region_offset wr, writeable_flash_region_size wr)
                | _ \<Rightarrow> (0, 0)))
      | Padding _ \<Rightarrow> (0, 0))"

definition get_fixed_address_ram :: "TbfHeader \<Rightarrow> u32 option" where
  "get_fixed_address_ram h =
     (case h of
        TbfHeaderV2 h2 \<Rightarrow>
          (case hd_fixed_addresses h2 of
             None \<Rightarrow> None
           | Some f \<Rightarrow> if start_process_ram f = 0xFFFFFFFF then None else Some (start_process_ram f))
      | Padding _ \<Rightarrow> None)"

definition get_fixed_address_flash :: "TbfHeader \<Rightarrow> u32 option" where
  "get_fixed_address_flash h =
     (case h of
        TbfHeaderV2 h2 \<Rightarrow>
          (case hd_fixed_addresses h2 of
             None \<Rightarrow> None
           | Some f \<Rightarrow> if start_process_flash f = 0xFFFFFFFF then None else Some (start_process_flash f))
      | Padding _ \<Rightarrow> None)"

fun command_permissions_loop ::
    "TbfHeaderDriverPermission list \<Rightarrow> u32 \<Rightarrow> u32 \<Rightarrow> bool \<Rightarrow> CommandPermissions" where
  "command_permissions_loop [] driver_num offset found =
     (if found then Mask 0 else NoPermsThisDriver)"
| "command_permissions_loop (perm # ps) driver_num offset found =
     (if perm_driver_number perm = driver_num then
        (if perm_offset perm = offset then Mask (allowed_commands perm)
         else command_permissions_loop ps driver_num offset True)
      else command_permissions_loop ps driver_num offset found)"

definition get_command_permissions :: "TbfHeader \<Rightarrow> usize \<Rightarrow> usize \<Rightarrow> CommandPermissions" where
  "get_command_permissions h driver_num offset =
     (case h of
        TbfHeaderV2 h2 \<Rightarrow>
          (case hd_permissions h2 of
             Some permissions \<Rightarrow> command_permissions_loop (perms permissions) driver_num offset False
           | None \<Rightarrow> NoPermsAtAll)
      | Padding _ \<Rightarrow> NoPermsAtAll)"

definition get_storage_write_id :: "TbfHeader \<Rightarrow> u32 option" where
  "get_storage_write_id h =
     (case h of
        TbfHeaderV2 h2 \<Rightarrow> (case hd_storage_permissions h2 of Some p \<Rightarrow> write_id p | None \<Rightarrow> None)
      | Padding _ \<Rightarrow> None)"

definition get_storage_read_ids :: "TbfHeader \<Rightarrow> (nat \<times> u32 list) option" where
  "get_storage_read_ids h =
     (case h of
        TbfHeaderV2 h2 \<Rightarrow>
          (case hd_storage_permissions h2 of
             Some p \<Rightarrow> Some (unat (read_length p), read_ids p) | None \<Rightarrow> None)
      | Padding _ \<Rightarrow> None)"

definition get_storage_modify_ids :: "TbfHeader \<Rightarrow> (nat \<times> u32 list) option" where
  "get_storage_modify_ids h =
     (case h of
        TbfHeaderV2 h2 \<Rightarrow>
          (case hd_storage_permissions h2 of
             Some p \<Rightarrow> Some (unat (modify_length p), modify_ids p) | None \<Rightarrow> None)
      | Padding _ \<Rightarrow> None)"

definition get_kernel_version :: "TbfHeader \<Rightarrow> (u16 \<times> u16) option" where
  "get_kernel_version h =
     (case h of
        TbfHeaderV2 h2 \<Rightarrow>
          (case hd_kernel_version h2 of Some k \<Rightarrow> Some (kv_major k, kv_minor k) | None \<Rightarrow> None)
      | Padding _ \<Rightarrow> None)"

definition get_binary_end :: "TbfHeader \<Rightarrow> u32" where
  "get_binary_end h =
     (case h of
        TbfHeaderV2 h2 \<Rightarrow>
          (case hd_program h2 of None \<Rightarrow> total_size (hd_base h2) | Some p \<Rightarrow> prog_binary_end_offset p)
      | Padding _ \<Rightarrow> 0)"

definition get_binary_version :: "TbfHeader \<Rightarrow> u32" where
  "get_binary_version h =
     (case h of
        TbfHeaderV2 h2 \<Rightarrow> (case hd_program h2 of None \<Rightarrow> 0 | Some p \<Rightarrow> prog_version p)
      | Padding _ \<Rightarrow> 0)"

section \<open>Lemmas\<close>

declare perms_loop.simps [simp del] ids_loop.simps [simp del] parse_tlvs.simps [simp del]

subsection \<open>Well-formedness of what the parser accepts\<close>

definition tlv_wf :: "tlv_state \<Rightarrow> bool" where
  "tlv_wf st \<longleftrightarrow> length (wfr_pointer st) = 4 \<and> valid_utf8 (app_name_str st) \<and>
     (\<forall>p. permissions_pointer st = Some p \<longrightarrow> length (perms p) = 8 \<and> unat (perms_length p) \<le> 8) \<and>
     (\<forall>p. storage_permissions_pointer st = Some p \<longrightarrow>
        length (read_ids p) = 8 \<and> unat (read_length p) \<le> 8 \<and>
        length (modify_ids p) = 8 \<and> unat (modify_length p) \<le> 8 \<and> write_id p \<noteq> Some 0)"

definition header_wf :: "TbfHeader \<Rightarrow> bool" where
  "header_wf h =
     (case h of
        Padding _ \<Rightarrow> True
      | TbfHeaderV2 h2 \<Rightarrow>
          (\<exists>ws. hd_writeable_regions h2 = Some ws \<and> length ws = 4) \<and>
          (\<exists>n. hd_package_name h2 = Some n \<and> valid_utf8 n) \<and>
          (\<forall>p. hd_permissions h2 = Some p \<longrightarrow> length (perms p) = 8 \<and> unat (perms_length p) \<le> 8) \<and>
          (\<forall>p. hd_storage_permissions h2 = Some p \<longrightarrow>
             length (read_ids p) = 8 \<and> unat (read_length p) \<le> 8 \<and>
             length (modify_ids p) = 8 \<and> unat (modify_length p) \<le> 8 \<and> write_id p \<noteq> Some 0))"

lemma perms_loop_wf:
  "perms_loop b n i arr = Inr ps \<Longrightarrow> i \<le> length arr \<Longrightarrow> length ps = length arr \<and> n \<le> max i (length arr)"
proof (induction b n i arr rule: perms_loop.induct)
  case (1 b n i arr)
  then show ?case
    by (subst (asm) (2) perms_loop.simps) (fastforce simp: parse_step split: if_splits)
qed

lemma ids_loop_wf:
  "ids_loop b from n i arr = Inr ps \<Longrightarrow> i \<le> length arr \<Longrightarrow> length ps = length arr \<and> n \<le> max i (length arr)"
proof (induction b "from" n i arr rule: ids_loop.induct)
  case (1 b "from" n i arr)
  then show ?case
    by (subst (asm) (2) ids_loop.simps) (fastforce simp: parse_step split: if_splits)
qed

lemma wfr_loop_length: "wfr_loop s n i arr = Inr ws \<Longrightarrow> length ws = length arr"
  by (induction s n i arr rule: wfr_loop.induct) (auto simp: parse_step)

lemma parse_tlv_wf:
  assumes "parse_tlv tlv r st = Inr st'" "tlv_wf st"
  shows "tlv_wf st'"
proof (cases "tipe tlv")
  case TbfHeaderPermissions
  then show ?thesis
    using assms
    by (auto simp: parse_tlv_def tlv_wf_def parse_step TbfHeaderV2Permissions_try_from_def
        dest!: perms_loop_wf)
next
  case TbfHeaderStoragePermissions
  then show ?thesis
    using assms
    by (auto simp: parse_tlv_def tlv_wf_def parse_step TbfHeaderV2StoragePermissions_try_from_def Let_def
        dest!: ids_loop_wf split: if_splits)
qed (use assms in \<open>auto simp: parse_tlv_def tlv_wf_def parse_step Let_def dest: wfr_loop_length split: if_splits\<close>)

lemma parse_tlvs_wf: "parse_tlvs r st = Inr st' \<Longrightarrow> tlv_wf st \<Longrightarrow> tlv_wf st'"
proof (induction r st rule: parse_tlvs.induct)
  case (1 remaining st)
  show ?case
  proof (cases "length remaining > 0")
    case True
    then obtain tlv st1 rest where "slice_range remaining 0 4 \<noteq> None"
      "parse_tlv tlv (drop 4 remaining) st = Inr st1"
      "parse_tlvs rest st1 = Inr st'"
      "\<exists>t4. slice_range remaining 0 4 = Some t4 \<and> TbfTlv_try_from t4 = Inr tlv"
      "slice_from (drop 4 remaining) (align4 (unat (tlv_length tlv))) = Some rest"
      using 1(2) by (subst (asm) parse_tlvs.simps) (auto simp: parse_step Let_def split: option.splits)
    then show ?thesis
      using 1(1) True parse_tlv_wf [OF _ 1(3)] by blast
  qed (use 1 in \<open>simp add: parse_tlvs.simps\<close>)
qed

lemma init_tlv_wf [simp]: "tlv_wf init_tlv_state"
  by (simp add: tlv_wf_def init_tlv_state_def)

text \<open>The header that a final parser state stands for.\<close>

definition header_of :: "TbfHeaderV2Base \<Rightarrow> tlv_state \<Rightarrow> TbfHeader" where
  "header_of base st = TbfHeaderV2
     \<lparr>hd_base = base, hd_main = main_pointer st, hd_program = program_pointer st,
      hd_package_name = Some (app_name_str st), hd_writeable_regions = Some (wfr_pointer st),
      hd_fixed_addresses = fixed_address_pointer st, hd_permissions = permissions_pointer st,
      hd_storage_permissions = storage_permissions_pointer st, hd_kernel_version = kernel_version st\<rparr>"

lemma parse_tbf_header_eq:
  "parse_tbf_header b v = Inr h \<longleftrightarrow>
     v = 2 \<and> (\<exists>base. TbfHeaderV2Base_try_from b = Inr base \<and> checksum_loop 0 (words_of b) 0 = checksum base \<and>
       16 \<le> length b \<and>
       (if length b = 16 then h = Padding base
        else \<exists>st. parse_tlvs (drop 16 b) init_tlv_state = Inr st \<and> h = header_of base st))"
  by (auto simp: parse_tbf_header_def parse_step Let_def header_of_def slice_from_def TbfHeaderV2Base_try_from_def)

lemma header_of_wf: "tlv_wf st \<Longrightarrow> header_wf (header_of base st)"
  by (simp add: header_wf_def header_of_def tlv_wf_def)

lemma parse_tbf_header_wf:
  assumes "parse_tbf_header b v = Inr h"
  shows "header_wf h"
  using assms parse_tlvs_wf [OF _ init_tlv_wf] header_of_wf
  by (auto simp: parse_tbf_header_eq header_wf_def split: if_splits)

lemma header_lengths_ok:
  assumes "parse_tbf_header_lengths app = Inr (v, hs, ts)"
  shows "v = 2 \<and> 16 \<le> unat hs \<and> unat hs \<le> unat ts"
proof -
  have "\<not> ts < ucast hs" "\<not> hs < 16" "v = 2"
    using assms by (auto simp: parse_tbf_header_lengths_def Let_def split: if_splits)
  moreover have "unat (ucast hs :: u32) = unat hs"
    using unat_less_2p [of hs] by (simp add: unsigned_ucast_eq take_bit_nat_eq_self)
  ultimately show ?thesis
    by (auto simp: word_less_nat_alt not_less)
qed

subsection \<open>The checksum\<close>

definition xor_words :: "u32 list \<Rightarrow> u32" where
  "xor_words ws = foldr (XOR) ws 0"

lemma foldr_xor: "foldr (XOR) ws (a :: u32) = foldr (XOR) ws 0 XOR a"
  by (induction ws) (simp_all add: xor.assoc)

lemma checksum_loop_eq:
  "checksum_loop i ws acc = acc XOR xor_words (if i \<le> 3 then take (3 - i) ws @ drop (4 - i) ws else ws)"
proof (induction i ws acc rule: checksum_loop.induct)
  case (2 i w ws acc)
  consider "i < 3" | "i = 3" | "i > 3" by linarith
  then show ?case
  proof cases
    case 1
    then obtain m where "3 - i = Suc m" "4 - i = Suc (Suc m)" "3 - (i + 1) = m" "4 - (i + 1) = Suc m"
      by (cases "3 - i") auto
    then show ?thesis using 2 1 by (simp add: xor_words_def xor.assoc)
  qed (use 2 in \<open>auto simp: xor_words_def xor.assoc\<close>)
qed (simp add: xor_words_def)

lemma parse_checksum:
  assumes "parse_tbf_header b v = Inr h"
  shows "\<exists>base. TbfHeaderV2Base_try_from b = Inr base \<and>
     checksum base = xor_words (take 3 (words_of b) @ drop 4 (words_of b))"
  using assms by (auto simp: parse_tbf_header_eq checksum_loop_eq)

subsection \<open>Permissions and footers\<close>

lemma command_permissions_loop_eq:
  "command_permissions_loop ps d off found =
     (case find (\<lambda>p. perm_driver_number p = d \<and> perm_offset p = off) ps of
        Some p \<Rightarrow> Mask (allowed_commands p)
      | None \<Rightarrow> if found \<or> d \<in> perm_driver_number ` set ps then Mask 0 else NoPermsThisDriver)"
  by (induction ps arbitrary: found) auto

lemma parse_tbf_footer_ok:
  assumes "parse_tbf_footer b = Inr (c, len)"
  shows "length (cred_data c) = credentials_length (cred_format c)"
    "credentials_length (cred_format c) + 4 \<le> unat len" "unat len + 4 \<le> length b"
proof -
  obtain tlv s where tlv: "TbfTlv_try_from b = Inr tlv" "slice_range (drop 4 b) 0 (unat (tlv_length tlv)) = Some s"
    "TbfFooterV2Credentials_try_from s = Inr c" "len = ucast (tlv_length tlv)" "4 \<le> length b"
    using assms
    by (auto simp: parse_tbf_footer_def parse_step slice_from_def split: if_splits)
  have len: "unat len = unat (tlv_length tlv)"
    using tlv(4) unat_less_2p [of "tlv_length tlv"] by (simp add: unsigned_ucast_eq take_bit_nat_eq_self)
  have s: "length s = unat len" "unat len + 4 \<le> length b"
    using tlv(2,5) len by (auto simp: slice_range_def split: if_splits)
  obtain d where d: "slice_range s 4 (credentials_length (cred_format c) + 4) = Some d" "cred_data c = d"
    using tlv(3) by (auto simp: TbfFooterV2Credentials_try_from_def parse_step)
  show "length (cred_data c) = credentials_length (cred_format c)"
    using slice_range_length [OF d(1)] d(2) by simp
  show "credentials_length (cred_format c) + 4 \<le> unat len" "unat len + 4 \<le> length b"
    using s d(1) by (auto simp: slice_range_def split: if_splits)
qed

section \<open>Round trip\<close>

text \<open>
  A writer for the format: a block is its type, its length and its body padded to a multiple of
  four bytes; a header is the sixteen bytes of the base followed by the blocks. \<open>apply_item\<close> is what
  a block contributes to the parsed header: the first Main and the first Program block win, the
  last block of every other kind does, and at most four flash regions are kept.
\<close>

datatype tlv_item =
    ItemMain TbfHeaderV2Main
  | ItemProgram TbfHeaderV2Program
  | ItemRegions "TbfHeaderV2WriteableFlashRegion list"
  | ItemName "u8 list"
  | ItemFixed TbfHeaderV2FixedAddresses
  | ItemPermissions "TbfHeaderDriverPermission list"
  | ItemStorage u32 "u32 list" "u32 list"
  | ItemKernel TbfHeaderV2KernelVersion
  | ItemOther u16 "u8 list"

definition le32 :: "u32 \<Rightarrow> u8 list" where "le32 w = to_le_bytes w"
definition le16 :: "u16 \<Rightarrow> u8 list" where "le16 w = to_le_bytes w"
definition le64 :: "u64 \<Rightarrow> u8 list" where "le64 w = to_le_bytes w"

definition emit_region :: "TbfHeaderV2WriteableFlashRegion \<Rightarrow> u8 list" where
  "emit_region w = le32 (writeable_flash_region_offset w) @ le32 (writeable_flash_region_size w)"

definition emit_perm :: "TbfHeaderDriverPermission \<Rightarrow> u8 list" where
  "emit_perm p = le32 (perm_driver_number p) @ le32 (perm_offset p) @ le64 (allowed_commands p)"

fun item_tipe :: "tlv_item \<Rightarrow> u16" where
  "item_tipe (ItemMain _) = 1"
| "item_tipe (ItemRegions _) = 2"
| "item_tipe (ItemName _) = 3"
| "item_tipe (ItemFixed _) = 5"
| "item_tipe (ItemPermissions _) = 6"
| "item_tipe (ItemStorage _ _ _) = 7"
| "item_tipe (ItemKernel _) = 8"
| "item_tipe (ItemProgram _) = 9"
| "item_tipe (ItemOther t _) = t"

fun item_body :: "tlv_item \<Rightarrow> u8 list" where
  "item_body (ItemMain m) =
     le32 (main_init_fn_offset m) @ le32 (main_protected_trailer_size m) @ le32 (main_minimum_ram_size m)"
| "item_body (ItemProgram p) =
     le32 (prog_init_fn_offset p) @ le32 (prog_protected_trailer_size p) @ le32 (prog_minimum_ram_size p) @
     le32 (prog_binary_end_offset p) @ le32 (prog_version p)"
| "item_body (ItemRegions ws) = concat (map emit_region ws)"
| "item_body (ItemName n) = n"
| "item_body (ItemFixed f) = le32 (start_process_ram f) @ le32 (start_process_flash f)"
| "item_body (ItemPermissions ps) = le16 (of_nat (length ps)) @ concat (map emit_perm ps)"
| "item_body (ItemStorage w rs ms) =
     le32 w @ le16 (of_nat (length rs)) @ concat (map le32 rs) @
     le16 (of_nat (length ms)) @ concat (map le32 ms)"
| "item_body (ItemKernel k) = le16 (kv_major k) @ le16 (kv_minor k)"
| "item_body (ItemOther t bs) = bs"

fun item_ok :: "tlv_item \<Rightarrow> bool" where
  "item_ok (ItemRegions ws) \<longleftrightarrow> 8 * length ws < 2 ^ 16"
| "item_ok (ItemName n) \<longleftrightarrow> length n < 2 ^ 16 \<and> valid_utf8 n"
| "item_ok (ItemPermissions ps) \<longleftrightarrow> length ps \<le> 8"
| "item_ok (ItemStorage w rs ms) \<longleftrightarrow> length rs \<le> 8 \<and> length ms \<le> 8"
| "item_ok (ItemOther t bs) \<longleftrightarrow> length bs < 2 ^ 16 \<and> TbfHeaderTypes_try_from t \<in> {Unknown, TbfFooterCredentials}"
| "item_ok _ \<longleftrightarrow> True"

definition pad_to :: "nat \<Rightarrow> 'a \<Rightarrow> 'a list \<Rightarrow> 'a list" where
  "pad_to n x xs = xs @ replicate (n - length xs) x"

fun apply_item :: "tlv_item \<Rightarrow> tlv_state \<Rightarrow> tlv_state" where
  "apply_item (ItemMain m) st = (if main_pointer st = None then st\<lparr>main_pointer := Some m\<rparr> else st)"
| "apply_item (ItemProgram p) st = (if program_pointer st = None then st\<lparr>program_pointer := Some p\<rparr> else st)"
| "apply_item (ItemRegions ws) st =
     st\<lparr>wfr_pointer := map Some (take 4 ws) @ drop (length (take 4 ws)) (wfr_pointer st)\<rparr>"
| "apply_item (ItemName n) st = st\<lparr>app_name_str := n\<rparr>"
| "apply_item (ItemFixed f) st = st\<lparr>fixed_address_pointer := Some f\<rparr>"
| "apply_item (ItemPermissions ps) st =
     st\<lparr>permissions_pointer := Some \<lparr>perms_length = of_nat (length ps),
        perms = pad_to 8 \<lparr>perm_driver_number = 0, perm_offset = 0, allowed_commands = 0\<rparr> ps\<rparr>\<rparr>"
| "apply_item (ItemStorage w rs ms) st =
     st\<lparr>storage_permissions_pointer := Some \<lparr>write_id = (if w = 0 then None else Some w),
        read_length = of_nat (length rs), read_ids = pad_to 8 0 rs,
        modify_length = of_nat (length ms), modify_ids = pad_to 8 0 ms\<rparr>\<rparr>"
| "apply_item (ItemKernel k) st = st\<lparr>kernel_version := Some k\<rparr>"
| "apply_item (ItemOther t bs) st = st"

definition pad4 :: "u8 list \<Rightarrow> u8 list" where
  "pad4 bs = bs @ replicate (align4 (length bs) - length bs) 0"

definition emit_item :: "tlv_item \<Rightarrow> u8 list" where
  "emit_item it = le16 (item_tipe it) @ le16 (of_nat (length (item_body it))) @ pad4 (item_body it)"

definition emit_base :: "TbfHeaderV2Base \<Rightarrow> u8 list" where
  "emit_base b = le16 (base_version b) @ le16 (header_size b) @ le32 (total_size b) @ le32 (flags b) @
     le32 (checksum b)"

definition emit_header :: "TbfHeaderV2Base \<Rightarrow> tlv_item list \<Rightarrow> u8 list" where
  "emit_header b items = emit_base b @ concat (map emit_item items)"

subsection \<open>Reading back what was written\<close>

lemma length_le [simp]: "length (le16 v) = 2" "length (le32 w) = 4" "length (le64 x) = 8"
  by (simp_all add: le16_def le32_def le64_def)

lemma from_le [simp]: "from_le_bytes (le16 v) = v" "from_le_bytes (le32 w) = w" "from_le_bytes (le64 x) = x"
  by (simp_all add: le16_def le32_def le64_def from_to_le_bytes)

named_theorems read_back \<open>reading a field that was just written\<close>

lemma slice_range_skip [read_back]:
  "length a \<le> i \<Longrightarrow> i \<le> j \<Longrightarrow> slice_range (a @ xs) i j = slice_range xs (i - length a) (j - length a)"
  by (auto simp: slice_range_def)

lemma slice_range_here [read_back]: "length a = j \<Longrightarrow> slice_range (a @ xs) 0 j = Some a"
  by (auto simp: slice_range_def)

lemma slice_range_all [read_back]: "length a = j \<Longrightarrow> slice_range a 0 j = Some a"
  by (auto simp: slice_range_def)

lemma get_le_skip [read_back]:
  "length a \<le> i \<Longrightarrow> i \<le> j \<Longrightarrow> get_le e (a @ xs) i j = get_le e xs (i - length a) (j - length a)"
  by (simp add: get_le_def slice_range_skip)

lemma get_le_here [read_back]: "length a = j \<Longrightarrow> get_le e (a @ xs) 0 j = Inr (from_le_bytes a)"
  by (simp add: get_le_def slice_range_here)

lemma get_le_all [read_back]: "length a = j \<Longrightarrow> get_le e a 0 j = Inr (from_le_bytes a)"
  by (simp add: get_le_def slice_range_all)

lemma slice_from_skip [read_back]: "length a = i \<Longrightarrow> slice_from (a @ xs) i = Some xs"
  by (simp add: slice_from_def)

lemma length_emit [simp]: "length (emit_region w) = 8" "length (emit_perm p) = 16"
  by (simp_all add: emit_region_def emit_perm_def)

lemma length_concat_const: "(\<And>x. length (f x) = n) \<Longrightarrow> length (concat (map f xs)) = n * length xs"
  by (induction xs) auto

lemma align4_ge: "n \<le> align4 n"
  by (simp add: align4_def)

lemma length_pad4 [simp]: "length (pad4 bs) = align4 (length bs)"
  using align4_ge [of "length bs"] by (simp add: pad4_def)

lemma region_read_back [read_back]: "TbfHeaderV2WriteableFlashRegion_try_from (emit_region w) = Inr w"
  by (simp add: TbfHeaderV2WriteableFlashRegion_try_from_def emit_region_def read_back)

lemma perm_read_back [read_back]: "TbfHeaderDriverPermission_try_from (emit_perm p) = Inr p"
  by (simp add: TbfHeaderDriverPermission_try_from_def emit_perm_def read_back)

lemma block_read_back [read_back]:
  "TbfHeaderV2Main_try_from (item_body (ItemMain m)) = Inr m"
  "TbfHeaderV2Program_try_from (item_body (ItemProgram p)) = Inr p"
  "TbfHeaderV2FixedAddresses_try_from (item_body (ItemFixed f)) = Inr f"
  "TbfHeaderV2KernelVersion_try_from (item_body (ItemKernel k)) = Inr k"
  by (simp_all add: TbfHeaderV2Main_try_from_def TbfHeaderV2Program_try_from_def
      TbfHeaderV2FixedAddresses_try_from_def TbfHeaderV2KernelVersion_try_from_def read_back)

lemma slice_range_concat:
  assumes "\<And>x. length (f x) = n" "i < length xs" "j = i * n + n"
  shows "slice_range (concat (map f xs) @ rest) (i * n) j = Some (f (xs ! i))"
proof -
  have "concat (map f xs) = concat (map f (take i xs)) @ f (xs ! i) @ concat (map f (drop (Suc i) xs))"
    using id_take_nth_drop [OF assms(2)] by (metis concat.simps(2) concat_append list.simps(9) map_append)
  moreover have "length (concat (map f (take i xs))) = i * n"
    using assms by (simp add: length_concat_const mult.commute)
  ultimately show ?thesis
    using assms(1,3) by (simp add: slice_range_def)
qed

lemma wfr_loop_read_back:
  assumes "i + n \<le> length ws" "i + n \<le> length arr"
  shows "wfr_loop (concat (map emit_region ws)) n i arr =
     Inr (take i arr @ map Some (take n (drop i ws)) @ drop (i + n) arr)"
  using assms
proof (induction n arbitrary: i arr)
  case (Suc n)
  have i: "i < length ws" "i < length arr" using Suc.prems by auto
  have "slice_range (concat (map emit_region ws)) (i * 8) ((i + 1) * 8) = Some (emit_region (ws ! i))"
    using slice_range_concat [of emit_region 8 i ws "(i + 1) * 8" "[]"] i by (simp add: algebra_simps)
  then have "wfr_loop (concat (map emit_region ws)) (Suc n) i arr =
      Inr (take (Suc i) (arr[i := Some (ws ! i)]) @ map Some (take n (drop (Suc i) ws)) @ drop (Suc i + n) arr)"
    using Suc.IH [of "Suc i" "arr[i := Some (ws ! i)]"] Suc.prems by (simp add: region_read_back)
  also have "take (Suc i) (arr[i := Some (ws ! i)]) = take i arr @ [Some (ws ! i)]"
    using i by (simp add: take_Suc_conv_app_nth)
  also have "take (Suc n) (drop i ws) = ws ! i # take n (drop (Suc i) ws)"
    using i by (simp add: Cons_nth_drop_Suc [symmetric])
  ultimately show ?case by simp
qed simp

lemma array_fill:
  assumes "i < length xs" "length xs \<le> length arr"
  shows "take (Suc i) (arr[i := xs ! i]) @ drop (Suc i) xs @ drop (length xs) (arr[i := xs ! i]) =
         take i arr @ drop i xs @ drop (length xs) arr"
  using assms by (simp add: take_Suc_conv_app_nth Cons_nth_drop_Suc)

lemma perms_loop_read_back:
  assumes "i \<le> length ps" "length ps \<le> length arr"
  shows "perms_loop (le16 v @ concat (map emit_perm ps) @ rest) (length ps) i arr =
     Inr (take i arr @ drop i ps @ drop (length ps) arr)"
  using assms
proof (induction "length ps - i" arbitrary: i arr)
  case 0
  then show ?case by (subst perms_loop.simps) simp
next
  case (Suc d)
  then have i: "i < length ps" by simp
  have "slice_range (le16 v @ concat (map emit_perm ps) @ rest) (2 + i * 16) (2 + i * 16 + 16) =
      Some (emit_perm (ps ! i))"
    using slice_range_concat [of emit_perm 16 i ps "16 + i * 16" rest] i by (simp add: slice_range_skip)
  then show ?case
    using Suc.hyps(1) [of "Suc i" "arr[i := ps ! i]"] Suc.hyps(2) Suc.prems i array_fill [of i ps arr]
    by (subst perms_loop.simps) (simp add: perm_read_back)
qed

lemma ids_loop_read_back:
  assumes "i \<le> length xs" "length xs \<le> length arr" "from = length pre" "n = length xs"
  shows "ids_loop (pre @ concat (map le32 xs) @ rest) from n i arr =
     Inr (take i arr @ drop i xs @ drop (length xs) arr)"
  using assms
proof (induction "length xs - i" arbitrary: i arr)
  case 0
  then show ?case by (subst ids_loop.simps) simp
next
  case (Suc d)
  then have i: "i < length xs" by simp
  have "get_le NotEnoughFlash (pre @ concat (map le32 xs) @ rest) (from + i * 4) (from + i * 4 + 4) = Inr (xs ! i)"
    using slice_range_concat [of le32 4 i xs "i * 4 + 4" rest] i Suc.prems(3)
    by (simp add: get_le_def slice_range_skip)
  then show ?case
    using Suc.hyps(1) [of "Suc i" "arr[i := xs ! i]"] Suc.hyps(2) Suc.prems i array_fill [of i xs arr]
    by (subst ids_loop.simps) simp
qed

lemma unat_len16: "n < 2 ^ 16 \<Longrightarrow> unat (of_nat n :: u16) = n"
  by (simp add: unat_of_nat)

lemma fixed_block_read_back:
  "length bs = n \<Longrightarrow> n < 2 ^ 16 \<Longrightarrow> tlv_length tlv = of_nat (length bs) \<Longrightarrow> fixed_block tlv (bs @ rest) n f = f bs"
  by (simp add: fixed_block_def unat_len16 read_back)

lemma item_body_length:
  "length (item_body (ItemMain m)) = 12" "length (item_body (ItemProgram p)) = 20"
  "length (item_body (ItemFixed f)) = 8" "length (item_body (ItemKernel k)) = 4"
  by simp_all

lemma parse_item:
  assumes ok: "item_ok it" and wf: "length (wfr_pointer st) = 4"
  shows "parse_tlv \<lparr>tipe = TbfHeaderTypes_try_from (item_tipe it), tlv_length = of_nat (length (item_body it))\<rparr>
           (item_body it @ rest) st = Inr (apply_item it st)"
proof (cases it)
  case (ItemRegions ws)
  define l where "l = (of_nat (length (item_body it)) :: u16)"
  have len: "length (concat (map emit_region ws)) = 8 * length ws"
    by (rule length_concat_const) simp
  have l: "unat l = 8 * length ws"
    using ItemRegions ok len unat_len16 [of "8 * length ws"] by (simp add: l_def del: of_nat_mult)
  have n: "min 4 (length ws) = (if length ws > 4 then 4 else length ws)" by simp
  have "wfr_loop (concat (map emit_region ws)) (min 4 (length ws)) 0 (wfr_pointer st) =
      Inr (map Some (take 4 ws) @ drop (min 4 (length ws)) (wfr_pointer st))"
    using wfr_loop_read_back [of 0 "min 4 (length ws)" ws "wfr_pointer st"] wf by (simp add: min_def)
  then show ?thesis
    using ItemRegions len l unfolding l_def [symmetric]
    by (simp add: parse_tlv_def TbfHeaderTypes_try_from_def slice_range_here Let_def n [symmetric]
        min.commute [of "length ws"])
next
  case (ItemPermissions ps)
  then show ?thesis
    using ok perms_loop_read_back [of 0 ps "replicate 8 \<lparr>perm_driver_number = 0, perm_offset = 0, allowed_commands = 0\<rparr>"
        "of_nat (length ps)" rest]
    by (simp add: parse_tlv_def TbfHeaderTypes_try_from_def TbfHeaderV2Permissions_try_from_def read_back
        unat_len16 pad_to_def)
next
  case (ItemStorage w rs ms)
  let ?pre = "le32 w @ le16 (of_nat (length rs))"
  let ?pre2 = "?pre @ concat (map le32 rs) @ le16 (of_nat (length ms))"
  have len: "length (concat (map le32 rs)) = 4 * length rs"
    by (rule length_concat_const) simp
  have body: "item_body it @ rest = ?pre @ concat (map le32 rs) @ (le16 (of_nat (length ms)) @ concat (map le32 ms) @ rest)"
    "item_body it @ rest = ?pre2 @ concat (map le32 ms) @ rest"
    using ItemStorage by simp_all
  have r: "ids_loop (item_body it @ rest) 6 (length rs) 0 (replicate 8 0) = Inr (pad_to 8 0 rs)"
    unfolding body(1) using ok ItemStorage by (subst ids_loop_read_back) (auto simp: pad_to_def)
  have m: "ids_loop (item_body it @ rest) (6 + length rs * 4 + 2) (length ms) 0 (replicate 8 0) = Inr (pad_to 8 0 ms)"
    unfolding body(2) using ok ItemStorage len by (subst ids_loop_read_back) (auto simp: pad_to_def)
  have g: "get_le NotEnoughFlash (item_body it @ rest) 0 4 = Inr w"
    "get_le NotEnoughFlash (item_body it @ rest) 4 6 = Inr (of_nat (length rs) :: u16)"
    "get_le NotEnoughFlash (item_body it @ rest) (6 + length rs * 4) (6 + length rs * 4 + 2) = Inr (of_nat (length ms) :: u16)"
    using ItemStorage len by (simp_all add: read_back)
  show ?thesis
    using ok ItemStorage r m g
    by (simp add: parse_tlv_def TbfHeaderTypes_try_from_def TbfHeaderV2StoragePermissions_try_from_def
        unat_len16 Let_def del: item_body.simps)
next
  case (ItemMain m)
  then show ?thesis
    by (simp add: parse_tlv_def TbfHeaderTypes_try_from_def fixed_block_read_back
        item_body_length read_back del: item_body.simps)
next
  case (ItemProgram p)
  then show ?thesis
    by (simp add: parse_tlv_def TbfHeaderTypes_try_from_def fixed_block_read_back
        item_body_length read_back del: item_body.simps)
next
  case (ItemFixed f)
  then show ?thesis
    by (simp add: parse_tlv_def TbfHeaderTypes_try_from_def fixed_block_read_back
        item_body_length read_back del: item_body.simps)
next
  case (ItemKernel k)
  then show ?thesis
    by (simp add: parse_tlv_def TbfHeaderTypes_try_from_def fixed_block_read_back
        item_body_length read_back del: item_body.simps)
next
  case (ItemName n)
  then show ?thesis using ok
    by (simp add: parse_tlv_def TbfHeaderTypes_try_from_def read_back unat_len16)
next
  case (ItemOther t bs)
  then show ?thesis using ok by (auto simp: parse_tlv_def)
qed

lemma item_body_short: "item_ok it \<Longrightarrow> length (item_body it) < 2 ^ 16"
  by (cases it) (simp_all add: length_concat_const)

lemma tlv_read_back: "TbfTlv_try_from (le16 t @ le16 l) = Inr \<lparr>tipe = TbfHeaderTypes_try_from t, tlv_length = l\<rparr>"
  by (simp add: TbfTlv_try_from_def read_back)

lemma apply_item_wfr: "length (wfr_pointer st) = 4 \<Longrightarrow> length (wfr_pointer (apply_item it st)) = 4"
  by (cases it) auto

lemma parse_tlvs_item:
  assumes ok: "item_ok it" and wf: "length (wfr_pointer st) = 4"
  shows "parse_tlvs (emit_item it @ rest) st = parse_tlvs rest (apply_item it st)"
proof -
  let ?b = "item_body it"
  let ?h = "le16 (item_tipe it) @ le16 (of_nat (length ?b))"
  have r: "emit_item it @ rest = ?h @ pad4 ?b @ rest"
    by (simp add: emit_item_def)
  have p: "pad4 ?b @ rest = ?b @ (replicate (align4 (length ?b) - length ?b) 0 @ rest)"
    by (simp add: pad4_def)
  have t4: "slice_range (?h @ pad4 ?b @ rest) 0 4 = Some ?h" "drop 4 (?h @ pad4 ?b @ rest) = pad4 ?b @ rest"
    by (auto simp: slice_range_def)
  have skip: "slice_from (pad4 ?b @ rest) (align4 (unat (of_nat (length ?b) :: u16))) = Some rest"
    using item_body_short [OF ok] by (simp add: unat_len16 slice_from_skip)
  have item: "parse_tlv \<lparr>tipe = TbfHeaderTypes_try_from (item_tipe it), tlv_length = of_nat (length ?b)\<rparr>
      (pad4 ?b @ rest) st = Inr (apply_item it st)"
    unfolding p by (rule parse_item [OF ok wf])
  have pos: "length (?h @ pad4 ?b @ rest) > 0" by simp
  show ?thesis
    unfolding r
    by (subst parse_tlvs.simps)
      (simp only: pos if_True t4 option.case tlv_read_back and_then.simps Let_def item skip TbfTlv.simps)
qed

lemma parse_tlvs_items:
  assumes "list_all item_ok items" "length (wfr_pointer st) = 4"
  shows "parse_tlvs (concat (map emit_item items)) st = Inr (fold apply_item items st)"
  using assms
proof (induction items arbitrary: st)
  case Nil
  then show ?case by (subst parse_tlvs.simps) simp
next
  case (Cons it items)
  then show ?case by (simp add: parse_tlvs_item apply_item_wfr)
qed

lemma base_read_back: "TbfHeaderV2Base_try_from (emit_base b @ rest) = Inr b"
  by (simp add: TbfHeaderV2Base_try_from_def emit_base_def read_back)

lemma length_emit_base [simp]: "length (emit_base b) = 16"
  by (simp add: emit_base_def)

lemma emit_item_nonempty: "items \<noteq> [] \<Longrightarrow> concat (map emit_item items) \<noteq> []"
  by (cases items) (auto simp: emit_item_def le16_def to_le_bytes_def)

definition sealed :: "TbfHeaderV2Base \<Rightarrow> tlv_item list \<Rightarrow> bool" where
  "sealed b items \<longleftrightarrow>
     (let ws = words_of (emit_header b items) in checksum b = xor_words (take 3 ws @ drop 4 ws))"

lemma parse_emit_header:
  assumes "list_all item_ok items" "items \<noteq> []" "sealed b items"
  shows "parse_tbf_header (emit_header b items) 2 = Inr (header_of b (fold apply_item items init_tlv_state))"
proof -
  have "parse_tlvs (concat (map emit_item items)) init_tlv_state = Inr (fold apply_item items init_tlv_state)"
    using parse_tlvs_items [OF assms(1)] by (simp add: init_tlv_state_def)
  moreover have "drop 16 (emit_header b items) = concat (map emit_item items)"
    by (simp add: emit_header_def)
  moreover have "length (emit_header b items) \<noteq> 16"
    using emit_item_nonempty [OF assms(2)] by (simp add: emit_header_def del: concat_eq_Nil_conv)
  moreover have "checksum_loop 0 (words_of (emit_header b items)) 0 = checksum b"
    using assms(3) by (simp add: sealed_def Let_def checksum_loop_eq)
  moreover have "TbfHeaderV2Base_try_from (emit_header b items) = Inr b"
    by (simp add: emit_header_def base_read_back)
  ultimately show ?thesis
    unfolding parse_tbf_header_eq by (auto simp: emit_header_def)
qed

end
