(* ===== verification/StoragePermissions.thy ===== *)
theory StoragePermissions
  imports Prelude
begin

text \<open>
  Storage permissions, \<open>kernel/src/storage_permissions.rs\<close>: which stored items a process may read or
  update and under which identifier it creates new ones. A \<open>NonZeroU32\<close> is a \<open>u32\<close> and the
  constructors' callers never pass zero.
\<close>

section \<open>Model\<close>

record StoragePermissions =
  read_count :: nat
  read_permissions :: "u32 list"
  modify_count :: nat
  modify_permissions :: "u32 list"
  sp_write_id :: "u32 option"
  kerneluser :: bool

definition StoragePermissions_new ::
    "nat \<Rightarrow> u32 list \<Rightarrow> nat \<Rightarrow> u32 list \<Rightarrow> u32 option \<Rightarrow> StoragePermissions" where
  "StoragePermissions_new read_cnt read_perms modify_cnt modify_perms wid =
     \<lparr>read_count = min read_cnt 8, read_permissions = read_perms,
      modify_count = min modify_cnt 8, modify_permissions = modify_perms,
      sp_write_id = wid, kerneluser = False\<rparr>"

definition new_kernel_permissions :: StoragePermissions where
  "new_kernel_permissions =
     \<lparr>read_count = 0, read_permissions = replicate 8 0, modify_count = 0,
      modify_permissions = replicate 8 0, sp_write_id = None, kerneluser = True\<rparr>"

definition check_read_permission :: "StoragePermissions \<Rightarrow> u32 \<Rightarrow> bool" where
  "check_read_permission sp storage_id =
     (if storage_id = 0 then kerneluser sp
      else storage_id \<in> set (case slice_range (read_permissions sp) 0 (read_count sp) of Some s \<Rightarrow> s | None \<Rightarrow> []))"

definition check_write_permission :: "StoragePermissions \<Rightarrow> u32 \<Rightarrow> bool" where
  "check_write_permission sp storage_id =
     (if storage_id = 0 then kerneluser sp
      else storage_id \<in> set (case slice_range (modify_permissions sp) 0 (modify_count sp) of Some s \<Rightarrow> s | None \<Rightarrow> []))"

definition sp_get_write_id :: "StoragePermissions \<Rightarrow> u32 option" where
  "sp_get_write_id sp =
     (if kerneluser sp then Some (case sp_write_id sp of None \<Rightarrow> 0 | Some wid \<Rightarrow> wid) else sp_write_id sp)"

section \<open>Lemmas\<close>

lemma check_read_iff:
  "length rs = 8 \<Longrightarrow> check_read_permission (StoragePermissions_new rc rs mc ms w) x \<longleftrightarrow>
     x \<noteq> 0 \<and> x \<in> set (take rc rs)"
  by (auto simp: check_read_permission_def StoragePermissions_new_def slice_range_def min_def)

lemma check_write_iff:
  "length ms = 8 \<Longrightarrow> check_write_permission (StoragePermissions_new rc rs mc ms w) x \<longleftrightarrow>
     x \<noteq> 0 \<and> x \<in> set (take mc ms)"
  by (auto simp: check_write_permission_def StoragePermissions_new_def slice_range_def min_def)

text \<open>The kernel's own permissions reach the items stored under identifier 0 and no others.\<close>

lemma kernel_permissions_iff:
  "check_read_permission new_kernel_permissions x \<longleftrightarrow> x = 0"
  "check_write_permission new_kernel_permissions x \<longleftrightarrow> x = 0"
  by (simp_all add: check_read_permission_def check_write_permission_def new_kernel_permissions_def slice_range_def)

end
