(* ===== verification/Process.thy ===== *)
theory Process
  imports ProcessTypes RingBuffer Tbf StoragePermissions
begin

text \<open>
  The process, \<open>kernel/src/process_standard.rs\<close>. The record \<open>ProcessStandard\<close> is the struct, with
  every \<open>Cell\<close> a field, every \<open>MapCell\<close> and \<open>OptionalCell\<close> an option, and the flash slice its
  address and its bytes. A method takes the process and returns it updated; a method that reaches
  outside the struct also takes and returns the \<open>Machine\<close>: the memory protection unit, the memory,
  and the counters of the \<open>Kernel\<close> struct it consults. The methods of the chip come in through the
  \<open>Chip\<close> record. \<open>None\<close> is a kernel panic, from an overflowing addition or the panic fault policy.
  Output under the debugging configuration flags is left out.
\<close>

section \<open>Model\<close>

record GrantPointerEntry =
  gp_driver_num :: usize
  grant_ptr :: usize

record ProcessStandardDebug =
  fixed_address_flash :: "u32 option"
  fixed_address_ram :: "u32 option"
  app_heap_start_pointer :: "usize option"
  app_stack_start_pointer :: "usize option"
  app_stack_min_pointer :: "usize option"
  syscall_count :: usize
  last_syscall :: "Syscall option"
  dropped_upcall_count :: usize
  timeslice_expiration_count :: usize

record ('cfg, 'ss) ProcessStandard =
  process_id :: ProcessId
  app_id :: ShortID
  memory_start :: usize
  memory_len :: usize
  grant_pointers :: "GrantPointerEntry list option"
  kernel_memory_break :: usize
  app_break :: usize
  allow_high_water_mark :: usize
  flash_ptr :: usize
  flash_bytes :: "u8 list"
  footers :: "u8 list"
  header :: TbfHeader
  credentials :: "TbfFooterV2Credentials option"
  stored_state :: "'ss option"
  pstate :: State
  fault_policy :: ProcessFaultPolicy
  mpu_config :: "'cfg option"
  mpu_regions :: "Region option list"
  tasks :: "Task ring_buffer option"
  restart_count :: usize
  exit_code :: "u32 option option"
  process_name :: "u8 list"
  debug :: "ProcessStandardDebug option"

record ('hw, 'cfg, 'w, 'ss) Chip =
  mpu :: "('hw, 'cfg) MPU"
  ukb :: "('w, 'ss) UKB"
  size_of_Task :: usize
  size_of_ProcessStandard :: usize

record ('hw, 'w) Machine =
  mpu_hw :: 'hw
  memory :: ram
  world :: 'w
  process_identifier_max :: usize
  grant_counter :: usize
  grants_finalized :: bool

subsection \<open>Kernel counters\<close>

definition get_grant_count_and_finalize :: "('hw, 'w) Machine \<Rightarrow> usize \<times> ('hw, 'w) Machine" where
  "get_grant_count_and_finalize mc = (grant_counter mc, mc\<lparr>grants_finalized := True\<rparr>)"

definition create_process_identifier :: "('hw, 'w) Machine \<Rightarrow> (usize \<times> ('hw, 'w) Machine) option" where
  "create_process_identifier mc = do {
     n \<leftarrow> chk_add (process_identifier_max mc) 1;
     Some (process_identifier_max mc, mc\<lparr>process_identifier_max := n\<rparr>)
   }"

definition create_grant :: "('hw, 'w) Machine \<Rightarrow> (usize \<times> ('hw, 'w) Machine) option" where
  "create_grant mc =
     (if grants_finalized mc then None
      else do {
        n \<leftarrow> chk_add (grant_counter mc) 1;
        Some (grant_counter mc, mc\<lparr>grant_counter := n\<rparr>)
      })"

subsection \<open>Addresses\<close>

definition mem_start :: "('cfg, 'ss) ProcessStandard \<Rightarrow> usize" where
  "mem_start p = memory_start p"

definition mem_end :: "('cfg, 'ss) ProcessStandard \<Rightarrow> usize" where
  "mem_end p = memory_start p + memory_len p"

definition flash_start :: "('cfg, 'ss) ProcessStandard \<Rightarrow> usize" where
  "flash_start p = flash_ptr p"

definition flash_non_protected_start :: "('cfg, 'ss) ProcessStandard \<Rightarrow> usize option" where
  "flash_non_protected_start p = do { n \<leftarrow> get_protected_size (header p); chk_add (flash_ptr p) n }"

definition flash_end :: "('cfg, 'ss) ProcessStandard \<Rightarrow> usize" where
  "flash_end p = flash_ptr p + of_nat (length (flash_bytes p))"

definition in_app_owned_memory :: "usize \<Rightarrow> usize \<Rightarrow> ('cfg, 'ss) ProcessStandard \<Rightarrow> bool" where
  "in_app_owned_memory buf_start_addr len p =
     (let buf_end_addr = buf_start_addr + len in
      buf_end_addr \<ge> buf_start_addr \<and> buf_start_addr \<ge> mem_start p \<and> buf_end_addr \<le> app_break p)"

definition in_app_flash_memory :: "usize \<Rightarrow> usize \<Rightarrow> ('cfg, 'ss) ProcessStandard \<Rightarrow> bool option" where
  "in_app_flash_memory buf_start_addr len p =
     (let buf_end_addr = buf_start_addr + len in
      if buf_end_addr \<ge> buf_start_addr then do {
        start \<leftarrow> flash_non_protected_start p;
        Some (buf_start_addr \<ge> start \<and> buf_end_addr \<le> flash_end p)
      } else Some False)"

subsection \<open>State and tasks\<close>

definition is_running :: "('cfg, 'ss) ProcessStandard \<Rightarrow> bool" where
  "is_running p =
     (case pstate p of
        Running \<Rightarrow> True | Yielded \<Rightarrow> True | StoppedRunning \<Rightarrow> True | StoppedYielded \<Rightarrow> True
      | _ \<Rightarrow> False)"

definition bump_dropped :: "ProcessStandardDebug option \<Rightarrow> ProcessStandardDebug option option" where
  "bump_dropped dbg =
     (case dbg of
        None \<Rightarrow> Some None
      | Some d \<Rightarrow> do {
          n \<leftarrow> chk_add (dropped_upcall_count d) 1;
          Some (Some (d\<lparr>dropped_upcall_count := n\<rparr>))
        })"

definition enqueue_task ::
    "Task \<Rightarrow> ('cfg, 'ss) ProcessStandard \<Rightarrow> ((ErrorCode + unit) \<times> ('cfg, 'ss) ProcessStandard) option" where
  "enqueue_task task p =
     (if \<not> is_running p then Some (Inl NODEVICE, p)
      else do {
        (ret, p) \<leftarrow>
          (case tasks p of
             None \<Rightarrow> Some (Inl FAIL, p)
           | Some ts \<Rightarrow> do {
               (ok, ts') \<leftarrow> rb_enqueue ts task;
               Some (if ok then Inr () else Inl NOMEM, p\<lparr>tasks := Some ts'\<rparr>)
             });
        (case ret of
           Inr _ \<Rightarrow> Some (ret, p)
         | Inl _ \<Rightarrow> do { dbg \<leftarrow> bump_dropped (debug p); Some (ret, p\<lparr>debug := dbg\<rparr>) })
      })"

definition mark_credentials_pass ::
    "TbfFooterV2Credentials option \<Rightarrow> ShortID \<Rightarrow> ('cfg, 'ss) ProcessStandard \<Rightarrow>
      (ErrorCode + unit) \<times> ('cfg, 'ss) ProcessStandard" where
  "mark_credentials_pass creds short_app_id p =
     (if pstate p \<noteq> CredentialsUnchecked then (Inl NODEVICE, p)
      else
        let p = p\<lparr>pstate := CredentialsApproved, app_id := short_app_id\<rparr> in
        (Inr (), case creds of None \<Rightarrow> p | Some c \<Rightarrow> p\<lparr>credentials := Some c\<rparr>))"

definition mark_credentials_fail :: "('cfg, 'ss) ProcessStandard \<Rightarrow> ('cfg, 'ss) ProcessStandard" where
  "mark_credentials_fail p = p\<lparr>pstate := CredentialsFailed\<rparr>"

definition enqueue_init_task ::
    "('cfg, 'ss) ProcessStandard \<Rightarrow> ((ErrorCode + unit) \<times> ('cfg, 'ss) ProcessStandard) option" where
  "enqueue_init_task p =
     (if pstate p \<noteq> CredentialsApproved \<and> pstate p \<noteq> Terminated then Some (Inl NODEVICE, p)
      else
        let p = p\<lparr>pstate := Yielded\<rparr> in do {
        app_off \<leftarrow> get_app_start_offset (header p);
        init_off \<leftarrow> get_init_function_offset (header p);
        enqueue_task (FunctionCall
          \<lparr>source = KernelSource, argument0 = flash_start p + app_off, argument1 = memory_start p,
           argument2 = memory_len p, argument3 = app_break p, pc = flash_start p + init_off\<rparr>) p
      })"

definition ready :: "('cfg, 'ss) ProcessStandard \<Rightarrow> bool" where
  "ready p \<longleftrightarrow>
     (case tasks p of None \<Rightarrow> False | Some ring_buf \<Rightarrow> rb_has_elements ring_buf) \<or>
     pstate p = Running \<or> pstate p = CredentialsApproved"

fun keep_task :: "UpcallId \<Rightarrow> Task \<Rightarrow> bool" where
  "keep_task upcall_id (FunctionCall function_call) =
     (case source function_call of KernelSource \<Rightarrow> True | DriverSource uid \<Rightarrow> uid \<noteq> upcall_id)"
| "keep_task upcall_id (IPC _ _) = True"

definition remove_pending_upcalls ::
    "UpcallId \<Rightarrow> ('cfg, 'ss) ProcessStandard \<Rightarrow> ('cfg, 'ss) ProcessStandard option" where
  "remove_pending_upcalls upcall_id p =
     (case tasks p of
        None \<Rightarrow> Some p
      | Some ts \<Rightarrow> do { ts' \<leftarrow> rb_retain ts (keep_task upcall_id); Some (p\<lparr>tasks := Some ts'\<rparr>) })"

definition set_yielded_state :: "('cfg, 'ss) ProcessStandard \<Rightarrow> ('cfg, 'ss) ProcessStandard" where
  "set_yielded_state p = (if pstate p = Running then p\<lparr>pstate := Yielded\<rparr> else p)"

definition stop :: "('cfg, 'ss) ProcessStandard \<Rightarrow> ('cfg, 'ss) ProcessStandard" where
  "stop p =
     (case pstate p of
        Running \<Rightarrow> p\<lparr>pstate := StoppedRunning\<rparr>
      | Yielded \<Rightarrow> p\<lparr>pstate := StoppedYielded\<rparr>
      | _ \<Rightarrow> p)"

definition resume :: "('cfg, 'ss) ProcessStandard \<Rightarrow> ('cfg, 'ss) ProcessStandard" where
  "resume p =
     (case pstate p of
        StoppedRunning \<Rightarrow> p\<lparr>pstate := Running\<rparr>
      | StoppedYielded \<Rightarrow> p\<lparr>pstate := Yielded\<rparr>
      | _ \<Rightarrow> p)"

definition has_tasks :: "('cfg, 'ss) ProcessStandard \<Rightarrow> bool" where
  "has_tasks p = (case tasks p of None \<Rightarrow> False | Some ts \<Rightarrow> rb_has_elements ts)"

definition dequeue_task ::
    "('cfg, 'ss) ProcessStandard \<Rightarrow> (Task option \<times> ('cfg, 'ss) ProcessStandard) option" where
  "dequeue_task p =
     (case tasks p of
        None \<Rightarrow> Some (None, p)
      | Some ts \<Rightarrow> do { (t, ts') \<leftarrow> rb_dequeue ts; Some (t, p\<lparr>tasks := Some ts'\<rparr>) })"

definition pending_tasks :: "('cfg, 'ss) ProcessStandard \<Rightarrow> nat option" where
  "pending_tasks p = (case tasks p of None \<Rightarrow> Some 0 | Some ts \<Rightarrow> rb_len ts)"

definition get_storage_permissions :: "('cfg, 'ss) ProcessStandard \<Rightarrow> StoragePermissions option" where
  "get_storage_permissions p =
     (let (read_cnt, read_ids') = (case get_storage_read_ids (header p) of Some x \<Rightarrow> x | None \<Rightarrow> (0, replicate 8 0));
          (modify_cnt, modify_ids') = (case get_storage_modify_ids (header p) of Some x \<Rightarrow> x | None \<Rightarrow> (0, replicate 8 0));
          wid = get_storage_write_id (header p) in
      Some (StoragePermissions_new read_cnt read_ids' modify_cnt modify_ids' wid))"

subsection \<open>Termination and restart\<close>

definition grant_ptrs_reset :: "('cfg, 'ss) ProcessStandard \<Rightarrow> ('cfg, 'ss) ProcessStandard" where
  "grant_ptrs_reset p =
     p\<lparr>grant_pointers := map_option (map (\<lambda>_. \<lparr>gp_driver_num = 0, grant_ptr = 0\<rparr>)) (grant_pointers p)\<rparr>"

definition terminate :: "u32 option \<Rightarrow> ('cfg, 'ss) ProcessStandard \<Rightarrow> ('cfg, 'ss) ProcessStandard" where
  "terminate code p =
     (if \<not> is_running p \<and> pstate p \<noteq> Faulted \<and> pstate p \<noteq> CredentialsApproved then p
      else
        let p = p\<lparr>tasks := map_option rb_empty (tasks p)\<rparr>;
            p = grant_ptrs_reset p in
        p\<lparr>exit_code := Some code, pstate := Terminated\<rparr>)"

definition reset_debug :: "ProcessStandardDebug \<Rightarrow> ProcessStandardDebug" where
  "reset_debug d =
     d\<lparr>syscall_count := 0, last_syscall := None, dropped_upcall_count := 0, timeslice_expiration_count := 0\<rparr>"

definition CALLBACK_LEN :: usize where
  "CALLBACK_LEN = 10"

definition CALLBACKS_OFFSET :: "('hw, 'cfg, 'w, 'ss) Chip \<Rightarrow> usize option" where
  "CALLBACKS_OFFSET chip = chk_mul (size_of_Task chip) CALLBACK_LEN"

definition reset ::
    "('hw, 'cfg, 'w, 'ss) Chip \<Rightarrow> ('cfg, 'ss) ProcessStandard \<Rightarrow> ('hw, 'w) Machine \<Rightarrow>
      ((ErrorCode + unit) \<times> ('cfg, 'ss) ProcessStandard \<times> ('hw, 'w) Machine) option" where
  "reset chip p mc = do {
     let old_index = pid_index (process_id p);
     (new_identifier, mc) \<leftarrow> create_process_identifier mc;
     let p = p\<lparr>process_id := ProcessId_new new_identifier old_index, debug := map_option reset_debug (debug p)\<rparr>;
     (case mpu_config p of
        None \<Rightarrow> Some (Inl FAIL, p, mc)
      | Some config \<Rightarrow> do {
          let p = p\<lparr>mpu_config := None\<rparr>;
          let config = mpu_reset_config (mpu chip) config;
          (app_mpu_flash, config) \<leftarrow>
            mpu_allocate_region (mpu chip) (flash_ptr p) (of_nat (length (flash_bytes p)))
              (of_nat (length (flash_bytes p))) ReadExecuteOnly config;
          if app_mpu_flash = None then Some (Inl FAIL, p, mc)
          else do {
            let min_process_memory_size = ukb_initial_process_app_brk_size (ukb chip);
            let (grant_ptrs_num, mc) = get_grant_count_and_finalize mc;
            grant_ptrs_offset \<leftarrow> chk_mul grant_ptrs_num 8;
            callbacks_offset \<leftarrow> CALLBACKS_OFFSET chip;
            n \<leftarrow> chk_add grant_ptrs_offset callbacks_offset;
            initial_kernel_memory_size \<leftarrow> chk_add n (size_of_ProcessStandard chip);
            (app_mpu_mem, config) \<leftarrow>
              mpu_allocate_app_memory_region (mpu chip) (mem_start p) (memory_len p) (memory_len p)
                min_process_memory_size initial_kernel_memory_size ReadWriteOnly config;
            (case app_mpu_mem of
               None \<Rightarrow> Some (Inl NOMEM, p, mc)
             | Some (app_mpu_mem_start, app_mpu_mem_len) \<Rightarrow> do {
                 let app_brk = app_mpu_mem_start + min_process_memory_size;
                 let kernel_brk = app_mpu_mem_start + app_mpu_mem_len - initial_kernel_memory_size;
                 let p = p\<lparr>app_break := app_brk, kernel_memory_break := kernel_brk,
                           allow_high_water_mark := app_mpu_mem_start, mpu_config := Some config\<rparr>;
                 (ukb_init_process, p, mc) \<leftarrow>
                   (case stored_state p of
                      None \<Rightarrow> Some (Inl (), p, mc)
                    | Some ss \<Rightarrow> do {
                        (r, ss, m) \<leftarrow> ukb_initialize_process (ukb chip) app_mpu_mem_start app_brk ss (memory mc);
                        Some (r, p\<lparr>stored_state := Some ss\<rparr>, mc\<lparr>memory := m\<rparr>)
                      });
                 (case ukb_init_process of
                    Inl _ \<Rightarrow> Some (Inl RESERVE, p, mc)
                  | Inr _ \<Rightarrow> do {
                      n \<leftarrow> chk_add (restart_count p) 1;
                      let p = p\<lparr>restart_count := n\<rparr>;
                      (if pstate p = CredentialsUnchecked \<or> pstate p = CredentialsFailed
                       then Some (Inl NODEVICE, p, mc)
                       else Some (Inr (), p\<lparr>pstate := CredentialsApproved\<rparr>, mc))
                    })
               })
          }
        })
   }"

definition try_restart ::
    "('hw, 'cfg, 'w, 'ss) Chip \<Rightarrow> u32 option \<Rightarrow> ('cfg, 'ss) ProcessStandard \<Rightarrow> ('hw, 'w) Machine \<Rightarrow>
      (('cfg, 'ss) ProcessStandard \<times> ('hw, 'w) Machine) option" where
  "try_restart chip code p mc =
     (if pstate p = CredentialsFailed \<or> pstate p = CredentialsUnchecked then Some (p, mc)
      else do {
        let p = terminate code p;
        (r, p, mc) \<leftarrow> reset chip p mc;
        (case r of Inr _ \<Rightarrow> Some (p\<lparr>pstate := CredentialsApproved\<rparr>, mc) | Inl _ \<Rightarrow> Some (p, mc))
      })"

definition set_fault_state ::
    "('hw, 'cfg, 'w, 'ss) Chip \<Rightarrow> ('cfg, 'ss) ProcessStandard \<Rightarrow> ('hw, 'w) Machine \<Rightarrow>
      (('cfg, 'ss) ProcessStandard \<times> ('hw, 'w) Machine) option" where
  "set_fault_state chip p mc =
     (let action = fault_action (fault_policy p) (restart_count p) in
      if pstate p = CredentialsFailed \<or> pstate p = CredentialsUnchecked then Some (p, mc)
      else
        (case action of
           PanicAction \<Rightarrow> None
         | RestartAction \<Rightarrow> try_restart chip None p mc
         | StopAction \<Rightarrow> Some ((terminate None p)\<lparr>pstate := Faulted\<rparr>, mc)))"

subsection \<open>Memory\<close>

definition update_stack_start_pointer ::
    "usize \<Rightarrow> ('cfg, 'ss) ProcessStandard \<Rightarrow> ('cfg, 'ss) ProcessStandard" where
  "update_stack_start_pointer stack_pointer p =
     (if stack_pointer \<ge> mem_start p \<and> stack_pointer < mem_end p then
        p\<lparr>debug := map_option (\<lambda>d. d\<lparr>app_stack_start_pointer := Some stack_pointer,
                                    app_stack_min_pointer := Some stack_pointer\<rparr>) (debug p)\<rparr>
      else p)"

definition update_heap_start_pointer ::
    "usize \<Rightarrow> ('cfg, 'ss) ProcessStandard \<Rightarrow> ('cfg, 'ss) ProcessStandard" where
  "update_heap_start_pointer heap_pointer p =
     (if heap_pointer \<ge> mem_start p \<and> heap_pointer < mem_end p then
        p\<lparr>debug := map_option (\<lambda>d. d\<lparr>app_heap_start_pointer := Some heap_pointer\<rparr>) (debug p)\<rparr>
      else p)"

definition setup_mpu ::
    "('hw, 'cfg, 'w, 'ss) Chip \<Rightarrow> ('cfg, 'ss) ProcessStandard \<Rightarrow> ('hw, 'w) Machine \<Rightarrow>
      ('cfg, 'ss) ProcessStandard \<times> ('hw, 'w) Machine" where
  "setup_mpu chip p mc =
     (case mpu_config p of
        None \<Rightarrow> (p, mc)
      | Some config \<Rightarrow>
          let (hw, config) = mpu_configure_mpu (mpu chip) (mpu_hw mc) config in
          (p\<lparr>mpu_config := Some config\<rparr>, mc\<lparr>mpu_hw := hw\<rparr>))"

fun first_none :: "'a option list \<Rightarrow> nat option" where
  "first_none [] = None"
| "first_none (x # xs) = (case x of None \<Rightarrow> Some 0 | Some _ \<Rightarrow> map_option Suc (first_none xs))"

fun position :: "('a \<Rightarrow> bool) \<Rightarrow> 'a list \<Rightarrow> nat option" where
  "position f [] = None"
| "position f (x # xs) = (if f x then Some 0 else map_option Suc (position f xs))"

definition add_mpu_region ::
    "('hw, 'cfg, 'w, 'ss) Chip \<Rightarrow> usize \<Rightarrow> usize \<Rightarrow> usize \<Rightarrow> ('cfg, 'ss) ProcessStandard \<Rightarrow>
      (Region option \<times> ('cfg, 'ss) ProcessStandard) option" where
  "add_mpu_region chip unallocated_memory_start unallocated_memory_size min_region_size p =
     (case mpu_config p of
        None \<Rightarrow> Some (None, p)
      | Some config \<Rightarrow> do {
          (r, config) \<leftarrow> mpu_allocate_region (mpu chip) unallocated_memory_start unallocated_memory_size
                           min_region_size ReadWriteOnly config;
          let p = p\<lparr>mpu_config := Some config\<rparr>;
          (case r of
             None \<Rightarrow> Some (None, p)
           | Some new_region \<Rightarrow>
               (case first_none (mpu_regions p) of
                  None \<Rightarrow> Some (None, p)
                | Some i \<Rightarrow> Some (Some new_region, p\<lparr>mpu_regions := (mpu_regions p)[i := Some new_region]\<rparr>)))
        })"

definition remove_mpu_region ::
    "('hw, 'cfg, 'w, 'ss) Chip \<Rightarrow> Region \<Rightarrow> ('cfg, 'ss) ProcessStandard \<Rightarrow>
      ((ErrorCode + unit) \<times> ('cfg, 'ss) ProcessStandard) option" where
  "remove_mpu_region chip region p =
     (case mpu_config p of
        None \<Rightarrow> Some (Inl INVAL, p)
      | Some config \<Rightarrow>
          (case position (\<lambda>r. r = Some region) (mpu_regions p) of
             None \<Rightarrow> Some (Inl INVAL, p)
           | Some i \<Rightarrow> do {
               (res, config) \<leftarrow> mpu_remove_memory_region (mpu chip) region config;
               let p = p\<lparr>mpu_config := Some config\<rparr>;
               (case res of
                  Inl _ \<Rightarrow> Some (Inl FAIL, p)
                | Inr _ \<Rightarrow> Some (Inr (), p\<lparr>mpu_regions := (mpu_regions p)[i := None]\<rparr>))
             }))"

definition brk ::
    "('hw, 'cfg, 'w, 'ss) Chip \<Rightarrow> usize \<Rightarrow> ('cfg, 'ss) ProcessStandard \<Rightarrow> ('hw, 'w) Machine \<Rightarrow>
      ((process_error + usize) \<times> ('cfg, 'ss) ProcessStandard \<times> ('hw, 'w) Machine) option" where
  "brk chip new_break p mc =
     (if \<not> is_running p then Some (Inl InactiveApp, p, mc)
      else
        (case mpu_config p of
           None \<Rightarrow> Some (Inl KernelError, p, mc)
         | Some config \<Rightarrow>
             if new_break < allow_high_water_mark p \<or> new_break \<ge> mem_end p then
               Some (Inl AddressOutOfBounds, p, mc)
             else if new_break > kernel_memory_break p then Some (Inl OutOfMemory, p, mc)
             else do {
               (r, config) \<leftarrow> mpu_update_app_memory_region (mpu chip) new_break (kernel_memory_break p)
                                ReadWriteOnly config;
               (case r of
                  Inl _ \<Rightarrow> Some (Inl OutOfMemory, p\<lparr>mpu_config := Some config\<rparr>, mc)
                | Inr _ \<Rightarrow>
                    let old_break = app_break p;
                        (hw, config) = mpu_configure_mpu (mpu chip) (mpu_hw mc) config in
                    Some (Inr old_break, p\<lparr>app_break := new_break, mpu_config := Some config\<rparr>,
                          mc\<lparr>mpu_hw := hw\<rparr>))
             }))"

definition sbrk ::
    "('hw, 'cfg, 'w, 'ss) Chip \<Rightarrow> usize \<Rightarrow> ('cfg, 'ss) ProcessStandard \<Rightarrow> ('hw, 'w) Machine \<Rightarrow>
      ((process_error + usize) \<times> ('cfg, 'ss) ProcessStandard \<times> ('hw, 'w) Machine) option" where
  "sbrk chip increment p mc =
     (if \<not> is_running p then Some (Inl InactiveApp, p, mc)
      else brk chip (app_break p + increment) p mc)"

subsection \<open>Buffers\<close>

record ProcessBuffer =
  buf_ptr :: usize
  buf_len :: usize
  buf_process_id :: "ProcessId option"

definition ProcessBuffer_new :: "usize \<Rightarrow> usize \<Rightarrow> ProcessId \<Rightarrow> ProcessBuffer" where
  "ProcessBuffer_new addr len pid = \<lparr>buf_ptr = addr, buf_len = len, buf_process_id = Some pid\<rparr>"

definition build_readwrite_process_buffer ::
    "usize \<Rightarrow> usize \<Rightarrow> ('cfg, 'ss) ProcessStandard \<Rightarrow>
      (ErrorCode + ProcessBuffer) \<times> ('cfg, 'ss) ProcessStandard" where
  "build_readwrite_process_buffer buf_start_addr len p =
     (if \<not> is_running p then (Inl FAIL, p)
      else if len = 0 then (Inr (ProcessBuffer_new buf_start_addr 0 (process_id p)), p)
      else if in_app_owned_memory buf_start_addr len p then
        let buf_end_addr = buf_start_addr + len;
            new_water_mark = max (allow_high_water_mark p) buf_end_addr in
        (Inr (ProcessBuffer_new buf_start_addr len (process_id p)), p\<lparr>allow_high_water_mark := new_water_mark\<rparr>)
      else (Inl INVAL, p))"

definition build_readonly_process_buffer ::
    "usize \<Rightarrow> usize \<Rightarrow> ('cfg, 'ss) ProcessStandard \<Rightarrow>
      ((ErrorCode + ProcessBuffer) \<times> ('cfg, 'ss) ProcessStandard) option" where
  "build_readonly_process_buffer buf_start_addr len p =
     (if \<not> is_running p then Some (Inl FAIL, p)
      else if len = 0 then Some (Inr (ProcessBuffer_new buf_start_addr 0 (process_id p)), p)
      else do {
        ok \<leftarrow> (if in_app_owned_memory buf_start_addr len p then Some True
               else in_app_flash_memory buf_start_addr len p);
        Some (if ok then
          let p' = (if in_app_owned_memory buf_start_addr len p then
                      p\<lparr>allow_high_water_mark := max (allow_high_water_mark p) (buf_start_addr + len)\<rparr>
                    else p) in
          (Inr (ProcessBuffer_new buf_start_addr len (process_id p)), p')
        else (Inl INVAL, p))
      })"

definition set_byte ::
    "usize \<Rightarrow> u8 \<Rightarrow> ('cfg, 'ss) ProcessStandard \<Rightarrow> ('hw, 'w) Machine \<Rightarrow> bool \<times> ('hw, 'w) Machine" where
  "set_byte addr val p mc =
     (if in_app_owned_memory addr 1 p then (True, mc\<lparr>memory := (memory mc)(addr := val)\<rparr>) else (False, mc))"

subsection \<open>Grants\<close>

definition grant_get :: "usize \<Rightarrow> ('cfg, 'ss) ProcessStandard \<Rightarrow> GrantPointerEntry option" where
  "grant_get grant_num p = Option.bind (grant_pointers p) (\<lambda>gs. slice_get gs (unat grant_num))"

definition grant_set ::
    "usize \<Rightarrow> GrantPointerEntry \<Rightarrow> ('cfg, 'ss) ProcessStandard \<Rightarrow> ('cfg, 'ss) ProcessStandard" where
  "grant_set grant_num e p = p\<lparr>grant_pointers := map_option (\<lambda>gs. gs[unat grant_num := e]) (grant_pointers p)\<rparr>"

definition grant_is_allocated :: "usize \<Rightarrow> ('cfg, 'ss) ProcessStandard \<Rightarrow> bool option" where
  "grant_is_allocated grant_num p =
     (if \<not> is_running p then None else map_option (\<lambda>e. grant_ptr e \<noteq> 0) (grant_get grant_num p))"

definition allocate_in_grant_region_internal ::
    "('hw, 'cfg, 'w, 'ss) Chip \<Rightarrow> usize \<Rightarrow> usize \<Rightarrow> ('cfg, 'ss) ProcessStandard \<Rightarrow>
      (usize option \<times> ('cfg, 'ss) ProcessStandard) option" where
  "allocate_in_grant_region_internal chip len align p =
     (case mpu_config p of
        None \<Rightarrow> Some (None, p)
      | Some config \<Rightarrow>
          let new_break_unaligned = kernel_memory_break p - len;
              align = max align 2;
              alignment_mask = NOT (align - 1);
              new_break = new_break_unaligned AND alignment_mask in
          if new_break < app_break p then Some (None, p)
          else if new_break > kernel_memory_break p then Some (None, p)
          else do {
            (r, config) \<leftarrow> mpu_update_app_memory_region (mpu chip) (app_break p) new_break ReadWriteOnly config;
            let p = p\<lparr>mpu_config := Some config\<rparr>;
            (case r of
               Inl _ \<Rightarrow> Some (None, p)
             | Inr _ \<Rightarrow> Some (Some new_break, p\<lparr>kernel_memory_break := new_break\<rparr>))
          })"

definition driver_grant_exists :: "usize \<Rightarrow> ('cfg, 'ss) ProcessStandard \<Rightarrow> bool" where
  "driver_grant_exists driver p =
     (case grant_pointers p of
        None \<Rightarrow> False
      | Some gs \<Rightarrow> list_ex (\<lambda>e. grant_ptr e \<noteq> 0 \<and> gp_driver_num e = driver) gs)"

definition allocate_grant ::
    "('hw, 'cfg, 'w, 'ss) Chip \<Rightarrow> usize \<Rightarrow> usize \<Rightarrow> usize \<Rightarrow> usize \<Rightarrow>
      ('cfg, 'ss) ProcessStandard \<Rightarrow> ('hw, 'w) Machine \<Rightarrow>
      (bool \<times> ('cfg, 'ss) ProcessStandard \<times> ('hw, 'w) Machine) option" where
  "allocate_grant chip grant_num driver len align p mc =
     (if \<not> is_running p then Some (False, p, mc)
      else
        let (count, mc) = get_grant_count_and_finalize mc in
        if grant_num \<ge> count then Some (False, p, mc)
        else if grant_is_allocated grant_num p = Some True then Some (False, p, mc)
        else if driver_grant_exists driver p then Some (False, p, mc)
        else do {
          (r, p) \<leftarrow> allocate_in_grant_region_internal chip len align p;
          (case r of
             None \<Rightarrow> Some (False, p, mc)
           | Some ptr \<Rightarrow>
               (case grant_get grant_num p of
                  None \<Rightarrow> Some (False, p, mc)
                | Some e \<Rightarrow>
                    Some (True, grant_set grant_num (e\<lparr>gp_driver_num := driver, grant_ptr := ptr\<rparr>) p, mc)))
        })"

definition create_custom_grant_identifier :: "usize \<Rightarrow> ('cfg, 'ss) ProcessStandard \<Rightarrow> usize option" where
  "create_custom_grant_identifier ptr p = chk_sub (mem_end p) ptr"

definition get_custom_grant_address :: "usize \<Rightarrow> ('cfg, 'ss) ProcessStandard \<Rightarrow> usize option" where
  "get_custom_grant_address offset p = chk_sub (mem_end p) offset"

definition allocate_custom_grant ::
    "('hw, 'cfg, 'w, 'ss) Chip \<Rightarrow> usize \<Rightarrow> usize \<Rightarrow> ('cfg, 'ss) ProcessStandard \<Rightarrow>
      ((usize \<times> usize) option \<times> ('cfg, 'ss) ProcessStandard) option" where
  "allocate_custom_grant chip len align p =
     (if \<not> is_running p then Some (None, p)
      else do {
        (r, p) \<leftarrow> allocate_in_grant_region_internal chip len align p;
        (case r of
           None \<Rightarrow> Some (None, p)
         | Some ptr \<Rightarrow> do {
             offset \<leftarrow> create_custom_grant_identifier ptr p;
             Some (Some (offset, ptr), p)
           })
      })"

definition enter_grant ::
    "usize \<Rightarrow> ('cfg, 'ss) ProcessStandard \<Rightarrow> (process_error + usize) \<times> ('cfg, 'ss) ProcessStandard" where
  "enter_grant grant_num p =
     (if \<not> is_running p then (Inl InactiveApp, p)
      else if grant_pointers p = None then (Inl KernelError, p)
      else
        (case grant_get grant_num p of
           None \<Rightarrow> (Inl AddressOutOfBounds, p)
         | Some e \<Rightarrow>
             if grant_ptr e AND 1 = 1 then (Inl AlreadyInUse, p)
             else (Inr (grant_ptr e), grant_set grant_num (e\<lparr>grant_ptr := grant_ptr e OR 1\<rparr>) p)))"

definition enter_custom_grant ::
    "usize \<Rightarrow> ('cfg, 'ss) ProcessStandard \<Rightarrow> (process_error + usize) option" where
  "enter_custom_grant offset p =
     (if \<not> is_running p then Some (Inl InactiveApp)
      else do { a \<leftarrow> get_custom_grant_address offset p; Some (Inr a) })"

definition leave_grant :: "usize \<Rightarrow> ('cfg, 'ss) ProcessStandard \<Rightarrow> ('cfg, 'ss) ProcessStandard" where
  "leave_grant grant_num p =
     (if \<not> is_running p then p
      else
        (case grant_get grant_num p of
           None \<Rightarrow> p
         | Some e \<Rightarrow> grant_set grant_num (e\<lparr>grant_ptr := grant_ptr e AND NOT 1\<rparr>) p))"

definition grant_allocated_count :: "('cfg, 'ss) ProcessStandard \<Rightarrow> nat option" where
  "grant_allocated_count p =
     (if \<not> is_running p then None
      else map_option (\<lambda>gs. length (filter (\<lambda>e. grant_ptr e \<noteq> 0) gs)) (grant_pointers p))"

definition lookup_grant_from_driver_num ::
    "usize \<Rightarrow> ('cfg, 'ss) ProcessStandard \<Rightarrow> process_error + nat" where
  "lookup_grant_from_driver_num driver p =
     (case grant_pointers p of
        None \<Rightarrow> Inl KernelError
      | Some gs \<Rightarrow>
          (case position (\<lambda>e. grant_ptr e \<noteq> 0 \<and> gp_driver_num e = driver) gs of
             Some idx \<Rightarrow> Inr idx
           | None \<Rightarrow> Inl OutOfMemory))"

subsection \<open>Crossing to user space\<close>

definition is_valid_upcall_function_pointer :: "usize \<Rightarrow> ('cfg, 'ss) ProcessStandard \<Rightarrow> bool option" where
  "is_valid_upcall_function_pointer ptr p = do {
     in_flash \<leftarrow> in_app_flash_memory ptr 4 p;
     Some (in_flash \<or> in_app_owned_memory ptr 4 p)
   }"

definition proc_set_syscall_return_value ::
    "('hw, 'cfg, 'w, 'ss) Chip \<Rightarrow> SyscallReturn \<Rightarrow> ('cfg, 'ss) ProcessStandard \<Rightarrow> ('hw, 'w) Machine \<Rightarrow>
      (('cfg, 'ss) ProcessStandard \<times> ('hw, 'w) Machine) option" where
  "proc_set_syscall_return_value chip return_value p mc =
     (case stored_state p of
        None \<Rightarrow> set_fault_state chip p mc
      | Some ss \<Rightarrow> do {
          (r, ss, m) \<leftarrow> ukb_set_syscall_return_value (ukb chip) (mem_start p) (app_break p) ss return_value (memory mc);
          let p = p\<lparr>stored_state := Some ss\<rparr>;
          let mc = mc\<lparr>memory := m\<rparr>;
          (case r of Inr _ \<Rightarrow> Some (p, mc) | Inl _ \<Rightarrow> set_fault_state chip p mc)
        })"

definition proc_set_process_function ::
    "('hw, 'cfg, 'w, 'ss) Chip \<Rightarrow> FunctionCall \<Rightarrow> ('cfg, 'ss) ProcessStandard \<Rightarrow> ('hw, 'w) Machine \<Rightarrow>
      (('cfg, 'ss) ProcessStandard \<times> ('hw, 'w) Machine) option" where
  "proc_set_process_function chip callback p mc =
     (case stored_state p of
        None \<Rightarrow> set_fault_state chip p mc
      | Some ss \<Rightarrow> do {
          (r, ss, m) \<leftarrow> ukb_set_process_function (ukb chip) (mem_start p) (app_break p) ss callback (memory mc);
          let p = p\<lparr>stored_state := Some ss\<rparr>;
          let mc = mc\<lparr>memory := m\<rparr>;
          (case r of Inr _ \<Rightarrow> Some (p\<lparr>pstate := Running\<rparr>, mc) | Inl _ \<Rightarrow> set_fault_state chip p mc)
        })"

definition note_stack_pointer :: "usize \<Rightarrow> ProcessStandardDebug \<Rightarrow> ProcessStandardDebug" where
  "note_stack_pointer sp d =
     (case app_stack_min_pointer d of
        None \<Rightarrow> d\<lparr>app_stack_min_pointer := Some sp\<rparr>
      | Some asmp \<Rightarrow> if sp < asmp then d\<lparr>app_stack_min_pointer := Some sp\<rparr> else d)"

definition switch_to ::
    "('hw, 'cfg, 'w, 'ss) Chip \<Rightarrow> ('cfg, 'ss) ProcessStandard \<Rightarrow> ('hw, 'w) Machine \<Rightarrow>
      (ContextSwitchReason option \<times> ('cfg, 'ss) ProcessStandard \<times> ('hw, 'w) Machine) option" where
  "switch_to chip p mc =
     (if \<not> is_running p then Some (None, p, mc)
      else
        (case stored_state p of
           None \<Rightarrow> Some (None, p, mc)
         | Some ss \<Rightarrow> do {
             (reason, sp, ss, m, w) \<leftarrow>
               ukb_switch_to_process (ukb chip) (mem_start p) (app_break p) ss (memory mc) (world mc);
             let p = p\<lparr>stored_state := Some ss\<rparr>;
             let p = (case sp of None \<Rightarrow> p | Some sp \<Rightarrow> p\<lparr>debug := map_option (note_stack_pointer sp) (debug p)\<rparr>);
             Some (Some reason, p, mc\<lparr>memory := m, world := w\<rparr>)
           }))"

definition debug_timeslice_expired ::
    "('cfg, 'ss) ProcessStandard \<Rightarrow> ('cfg, 'ss) ProcessStandard option" where
  "debug_timeslice_expired p =
     (case debug p of
        None \<Rightarrow> Some p
      | Some d \<Rightarrow> do {
          n \<leftarrow> chk_add (timeslice_expiration_count d) 1;
          Some (p\<lparr>debug := Some (d\<lparr>timeslice_expiration_count := n\<rparr>)\<rparr>)
        })"

definition debug_syscall_called ::
    "Syscall \<Rightarrow> ('cfg, 'ss) ProcessStandard \<Rightarrow> ('cfg, 'ss) ProcessStandard option" where
  "debug_syscall_called syscall p =
     (case debug p of
        None \<Rightarrow> Some p
      | Some d \<Rightarrow> do {
          n \<leftarrow> chk_add (syscall_count d) 1;
          Some (p\<lparr>debug := Some (d\<lparr>syscall_count := n, last_syscall := Some syscall\<rparr>)\<rparr>)
        })"

record ProcessAddresses =
  pa_flash_start :: usize
  pa_flash_non_protected_start :: usize
  pa_flash_integrity_end :: usize
  pa_flash_end :: usize
  pa_sram_start :: usize
  pa_sram_app_brk :: usize
  pa_sram_grant_start :: usize
  pa_sram_end :: usize
  pa_sram_heap_start :: "usize option"
  pa_sram_stack_top :: "usize option"
  pa_sram_stack_bottom :: "usize option"

definition get_addresses :: "('cfg, 'ss) ProcessStandard \<Rightarrow> ProcessAddresses option" where
  "get_addresses p = do {
     nps \<leftarrow> flash_non_protected_start p;
     integrity_end \<leftarrow> chk_add (flash_ptr p) (get_binary_end (header p));
     Some \<lparr>pa_flash_start = flash_start p, pa_flash_non_protected_start = nps,
           pa_flash_integrity_end = integrity_end, pa_flash_end = flash_end p,
           pa_sram_start = mem_start p, pa_sram_app_brk = app_break p,
           pa_sram_grant_start = kernel_memory_break p, pa_sram_end = mem_end p,
           pa_sram_heap_start = Option.bind (debug p) app_heap_start_pointer,
           pa_sram_stack_top = Option.bind (debug p) app_stack_start_pointer,
           pa_sram_stack_bottom = Option.bind (debug p) app_stack_min_pointer\<rparr>
   }"

record ProcessSizes =
  sz_grant_pointers :: usize
  sz_upcall_list :: usize
  sz_process_control_block :: usize

definition get_sizes ::
    "('hw, 'cfg, 'w, 'ss) Chip \<Rightarrow> ('hw, 'w) Machine \<Rightarrow> (ProcessSizes \<times> ('hw, 'w) Machine) option" where
  "get_sizes chip mc = do {
     let (count, mc) = get_grant_count_and_finalize mc;
     g \<leftarrow> chk_mul 8 count;
     c \<leftarrow> CALLBACKS_OFFSET chip;
     Some (\<lparr>sz_grant_pointers = g, sz_upcall_list = c, sz_process_control_block = size_of_ProcessStandard chip\<rparr>, mc)
   }"

definition get_stored_state ::
    "('hw, 'cfg, 'w, 'ss) Chip \<Rightarrow> u8 list \<Rightarrow> ('cfg, 'ss) ProcessStandard \<Rightarrow> ((ErrorCode + nat) \<times> u8 list) option" where
  "get_stored_state chip out p =
     (case stored_state p of None \<Rightarrow> Some (Inl FAIL, out) | Some ss \<Rightarrow> ukb_store_context (ukb chip) ss out)"

end
