(* ===== verification/MathUtil.thy ===== *)
theory MathUtil
  imports Prelude
begin

text \<open>
  The integer helpers of \<open>kernel/src/utilities/math.rs\<close> used to size protection regions: the bit
  trick that rounds up to a power of two, the base-two logarithm, and the \<open>PowerOfTwo\<close> wrapper,
  whose value is the exponent.
\<close>

section \<open>Model\<close>

definition closest_power_of_two :: "u32 \<Rightarrow> u32 option" where
  "closest_power_of_two num = do {
     num \<leftarrow> chk_sub num 1;
     let num = num OR drop_bit 1 num;
     let num = num OR drop_bit 2 num;
     let num = num OR drop_bit 4 num;
     let num = num OR drop_bit 8 num;
     let num = num OR drop_bit 16 num;
     chk_add num 1
   }"

definition leading_zeros :: "'a::len word \<Rightarrow> nat" where
  "leading_zeros w = length (takeWhile Not (map (bit w) (rev [0..<LENGTH('a)])))"

definition log_base_two :: "u32 \<Rightarrow> u32" where
  "log_base_two num = (if num = 0 then 0 else of_nat (31 - leading_zeros num))"

definition log_base_two_u64 :: "u64 \<Rightarrow> u32" where
  "log_base_two_u64 num = (if num = 0 then 0 else of_nat (63 - leading_zeros num))"

datatype PowerOfTwo = PowerOfTwo (exp_of: u32)

definition PowerOfTwo_floor :: "u32 \<Rightarrow> PowerOfTwo" where
  "PowerOfTwo_floor f = PowerOfTwo (log_base_two f)"

definition PowerOfTwo_ceiling :: "u32 \<Rightarrow> PowerOfTwo option" where
  "PowerOfTwo_ceiling f = map_option (\<lambda>p. PowerOfTwo (log_base_two p)) (closest_power_of_two f)"

definition PowerOfTwo_zero :: PowerOfTwo where
  "PowerOfTwo_zero = PowerOfTwo 0"

definition PowerOfTwo_as_num :: "PowerOfTwo \<Rightarrow> u32 option" where
  "PowerOfTwo_as_num p = (if unat (exp_of p) < 32 then Some (push_bit (unat (exp_of p)) 1) else None)"

section \<open>The highest set bit\<close>

lemma bit_iff_odd_div: "bit (w :: 'a::len word) i \<longleftrightarrow> odd (unat w div 2 ^ i)"
  by (metis bit_iff_odd bit_unsigned_iff possible_bit_nat)

lemma highest_bit:
  fixes w :: "'a::len word"
  assumes "2 ^ k \<le> unat w" "unat w < 2 ^ Suc k"
  shows "bit w i \<Longrightarrow> i \<le> k" and "bit w k" and "k < LENGTH('a)"
proof -
  show "bit w k"
  proof -
    have "unat w div 2 ^ k = 1"
      using assms by (intro div_nat_eqI) auto
    then show ?thesis by (simp add: bit_iff_odd_div)
  qed
  then show "k < LENGTH('a)" by (rule bit_imp_le_length)
  show "i \<le> k" if "bit w i"
  proof (rule ccontr)
    assume "\<not> i \<le> k"
    then have "(2::nat) ^ Suc k \<le> 2 ^ i" by (intro power_increasing) auto
    then have "unat w div 2 ^ i = 0" using assms by simp
    with that show False by (simp add: bit_iff_odd_div)
  qed
qed

lemma leading_zeros_eq:
  fixes w :: "'a::len word"
  assumes "2 ^ k \<le> unat w" "unat w < 2 ^ Suc k"
  shows "leading_zeros w = LENGTH('a) - Suc k"
proof -
  note hb = highest_bit [OF assms]
  have split: "[0..<LENGTH('a)] = [0..<k] @ k # [Suc k..<LENGTH('a)]"
    using hb(3) upt_add_eq_append [of 0 k "LENGTH('a) - k"] by (simp add: upt_conv_Cons)
  have "\<not> bit w j" if "j \<in> set (rev [Suc k..<LENGTH('a)])" for j
    using hb(1) [of j] that by auto
  then have "takeWhile Not (map (bit w) (rev [Suc k..<LENGTH('a)])) = map (bit w) (rev [Suc k..<LENGTH('a)])"
    by (subst takeWhile_eq_all_conv) auto
  then have "takeWhile Not (map (bit w) (rev [0..<LENGTH('a)])) = map (bit w) (rev [Suc k..<LENGTH('a)])"
    unfolding split using hb(2) by (simp add: takeWhile_append)
  then show ?thesis by (simp add: leading_zeros_def)
qed

lemma word_power_ivl:
  fixes w :: "'a::len word"
  assumes "w \<noteq> 0"
  obtains k where "2 ^ k \<le> unat w" "unat w < 2 ^ Suc k"
proof -
  have "1 \<le> unat w" using assms by (simp add: Suc_le_eq unat_gt_0)
  from ex_power_ivl1 [of 2, OF _ this] that show ?thesis by auto
qed

lemma log_base_two_bounds:
  assumes "num \<noteq> 0"
  shows "2 ^ unat (log_base_two num) \<le> unat num \<and> unat num < 2 ^ Suc (unat (log_base_two num))"
proof -
  obtain k where k: "2 ^ k \<le> unat num" "unat num < 2 ^ Suc k"
    by (rule word_power_ivl [OF assms])
  have "k < 32" using highest_bit(3) [OF k] by simp
  then have "unat (log_base_two num) = k"
    using assms leading_zeros_eq [OF k] by (simp add: log_base_two_def unat_of_nat)
  then show ?thesis using k by simp
qed

section \<open>Rounding up\<close>

text \<open>After smearing with shifts up to \<open>d\<close>, a bit is set iff one of the next \<open>d\<close> bits was.\<close>

definition smeared :: "nat \<Rightarrow> u32 \<Rightarrow> u32 \<Rightarrow> bool" where
  "smeared d m x \<longleftrightarrow> (\<forall>i. bit x i \<longleftrightarrow> (\<exists>j. i \<le> j \<and> j < i + d \<and> bit m j))"

lemma smeared_1: "smeared 1 m m"
  unfolding smeared_def by (metis add.commute le_antisym less_Suc_eq_le order_refl plus_1_eq_Suc)

lemma smeared_step:
  assumes "smeared d m x"
  shows "smeared (d + d) m (x OR drop_bit d x)"
  unfolding smeared_def
proof (intro allI)
  fix i
  have "bit (x OR drop_bit d x) i \<longleftrightarrow>
      (\<exists>j. i \<le> j \<and> j < i + d \<and> bit m j) \<or> (\<exists>j. i + d \<le> j \<and> j < i + d + d \<and> bit m j)"
    using assms by (auto simp: smeared_def bit_simps add.commute)
  also have "\<dots> \<longleftrightarrow> (\<exists>j. i \<le> j \<and> j < i + (d + d) \<and> bit m j)"
    by (smt (verit, best) add.assoc le_add1 le_trans linorder_not_le trans_less_add1)
  finally show "bit (x OR drop_bit d x) i \<longleftrightarrow> (\<exists>j. i \<le> j \<and> j < i + (d + d) \<and> bit m j)" .
qed

lemma smeared_mask:
  assumes "smeared 32 m x" "2 ^ k \<le> unat m" "unat m < 2 ^ Suc k"
  shows "unat x = 2 ^ Suc k - 1"
proof -
  note hb = highest_bit [OF assms(2,3)]
  have "x = mask (Suc k)"
  proof (rule bit_word_eqI)
    fix i assume i: "i < LENGTH(32)"
    have "bit x i \<longleftrightarrow> i \<le> k"
    proof
      show "bit x i \<Longrightarrow> i \<le> k"
        using assms(1) hb(1) by (auto simp: smeared_def intro: le_trans)
      show "i \<le> k \<Longrightarrow> bit x i"
        using assms(1) hb(2,3) by (auto simp: smeared_def intro!: exI [of _ k])
    qed
    then show "bit x i = bit (mask (Suc k) :: u32) i"
      using i by (auto simp: bit_mask_iff)
  qed
  moreover have "min LENGTH(32) (Suc k) = Suc k" using hb(3) by simp
  ultimately have "unat x = mask (Suc k)"
    by (simp only: unat_mask_word)
  then show ?thesis
    by (simp add: mask_eq_exp_minus_1)
qed

lemma closest_power_of_two_unfold:
  assumes "2 \<le> unat num"
  obtains x where "closest_power_of_two num = chk_add x 1" "smeared 32 (num - 1) x"
proof -
  have "chk_sub num 1 = Some (num - 1)"
    using assms by (simp add: chk_sub_def word_le_nat_alt)
  then show ?thesis
    using that smeared_step [OF smeared_step [OF smeared_step [OF smeared_step [OF smeared_step
      [OF smeared_1 [of "num - 1"]]]]]]
    by (simp add: closest_power_of_two_def Let_def numeral_eq_Suc)
qed

lemma closest_power_of_two_correct:
  assumes "1 \<le> unat num" "unat num \<le> 2 ^ 31"
  shows "\<exists>p k. closest_power_of_two num = Some p \<and> unat p = 2 ^ k \<and> unat num \<le> unat p \<and>
           unat p < 2 * unat num"
proof (cases "unat num = 1")
  case True
  then have "num = 1" by (simp add: word_unat_eq_iff)
  then show ?thesis
    by (intro exI [of _ 1] exI [of _ 0]) (simp add: closest_power_of_two_def chk_sub_def chk_add_def)
next
  case False
  then have ge: "2 \<le> unat num" using assms by simp
  obtain x where x: "closest_power_of_two num = chk_add x 1" "smeared 32 (num - 1) x"
    by (rule closest_power_of_two_unfold [OF ge])
  have m: "unat (num - 1) = unat num - 1"
    using ge by (simp add: unat_sub word_le_nat_alt)
  have "1 \<le> unat num - 1" using ge by simp
  from ex_power_ivl1 [of 2, OF _ this] obtain k
    where k: "2 ^ k \<le> unat (num - 1)" "unat (num - 1) < 2 ^ Suc k" unfolding m by auto
  have ux: "unat x = 2 ^ Suc k - 1" by (rule smeared_mask [OF x(2) k])
  have "(2::nat) ^ k < 2 ^ 31" using k(1) assms(2) unfolding m using ge by linarith
  then have "Suc k \<le> 31" using power_less_imp_less_exp [of "2::nat" k 31] by simp
  then have "(2::nat) ^ Suc k \<le> 2 ^ 31" by (intro power_increasing) auto
  then have "chk_add x 1 = Some (x + 1)" and "unat (x + 1) = 2 ^ Suc k"
    using ux by (simp_all add: chk_add_def unat_add_lem [THEN iffD1])
  moreover have "unat num \<le> 2 ^ Suc k" "2 ^ Suc k < 2 * unat num"
    using k ge unfolding m by auto
  ultimately show ?thesis
    using x(1) by (intro exI [of _ "x + 1"] exI [of _ "Suc k"]) simp
qed

lemma closest_power_of_two_overflow:
  assumes "2 ^ 31 < unat num"
  shows "closest_power_of_two num = None"
proof -
  have ge: "2 \<le> unat num" using assms by simp
  obtain x where x: "closest_power_of_two num = chk_add x 1" "smeared 32 (num - 1) x"
    by (rule closest_power_of_two_unfold [OF ge])
  have m: "unat (num - 1) = unat num - 1"
    using ge by (simp add: unat_sub word_le_nat_alt)
  have "unat x = 2 ^ Suc 31 - 1"
  proof (rule smeared_mask [OF x(2)])
    show "2 ^ 31 \<le> unat (num - 1)" unfolding m using assms by simp
    show "unat (num - 1) < 2 ^ Suc 31" unfolding m using unat_less_2p [of num] by simp
  qed
  then show ?thesis using x(1) by (simp add: chk_add_def)
qed

lemma closest_power_of_two_0 [simp]: "closest_power_of_two 0 = None"
  by (simp add: closest_power_of_two_def chk_sub_def)


lemma closest_power_of_two_SomeE:
  assumes "closest_power_of_two num = Some p"
  obtains k where "unat p = 2 ^ k" "unat num \<le> unat p" "unat p < 2 * unat num"
proof -
  have "num \<noteq> 0" using assms by auto
  then have "1 \<le> unat num" by (simp add: Suc_le_eq unat_gt_0)
  moreover have "unat num \<le> 2 ^ 31"
    using assms closest_power_of_two_overflow [of num] by (cases "2 ^ 31 < unat num") auto
  ultimately show ?thesis
    using closest_power_of_two_correct [of num] assms that by auto
qed

end
