(* ===== verification/Registers.thy ===== *)
theory Registers
  imports Prelude
begin

text \<open>
  The bit fields of \<open>libraries/tock-register-interface\<close>: fields, field values and the local copy
  of a register (\<open>fields.rs\<close>, \<open>local_register.rs\<close>). The type parameter that ties a field to its
  register has no run-time content and is left out. \<open>register_bitfields!\<close> builds a field from its
  offset and width as a contiguous mask (\<open>bitfield\<close>), with the offset below the register width.
\<close>

section \<open>Model\<close>

record 'w Field =
  fld_mask :: "'w"
  fld_shift :: nat

record 'w FieldValue =
  fv_mask :: "'w"
  fv_value :: "'w"

definition Field_new :: "'a::len word \<Rightarrow> nat \<Rightarrow> 'a word Field" where
  "Field_new m s = \<lparr>fld_mask = m, fld_shift = s\<rparr>"

definition Field_read :: "'a::len word Field \<Rightarrow> 'a word \<Rightarrow> 'a word" where
  "Field_read f v = drop_bit (fld_shift f) (v AND push_bit (fld_shift f) (fld_mask f))"

definition Field_is_set :: "'a::len word Field \<Rightarrow> 'a word \<Rightarrow> bool" where
  "Field_is_set f v \<longleftrightarrow> v AND push_bit (fld_shift f) (fld_mask f) \<noteq> 0"

definition FieldValue_new :: "'a::len word \<Rightarrow> nat \<Rightarrow> 'a word \<Rightarrow> 'a word FieldValue" where
  "FieldValue_new m s v = \<lparr>fv_mask = push_bit s m, fv_value = push_bit s (v AND m)\<rparr>"

definition Field_val :: "'a::len word Field \<Rightarrow> 'a word \<Rightarrow> 'a word FieldValue" where
  "Field_val f v = FieldValue_new (fld_mask f) (fld_shift f) v"

definition FieldValue_none :: "'a::len word FieldValue" where
  "FieldValue_none = \<lparr>fv_mask = 0, fv_value = 0\<rparr>"

definition FieldValue_read :: "'a::len word FieldValue \<Rightarrow> 'a word Field \<Rightarrow> 'a word" where
  "FieldValue_read fv f = Field_read f (fv_value fv)"

definition FieldValue_modify :: "'a::len word FieldValue \<Rightarrow> 'a word \<Rightarrow> 'a word" where
  "FieldValue_modify fv v = (v AND NOT (fv_mask fv)) OR fv_value fv"

definition any_matching_bits_set :: "'a::len word FieldValue \<Rightarrow> 'a word \<Rightarrow> bool" where
  "any_matching_bits_set fv v \<longleftrightarrow> v AND fv_mask fv AND fv_value fv \<noteq> 0"

definition matches_all :: "'a::len word FieldValue \<Rightarrow> 'a word \<Rightarrow> bool" where
  "matches_all fv v \<longleftrightarrow> v AND fv_mask fv = fv_value fv"

definition FieldValue_add :: "'a::len word FieldValue \<Rightarrow> 'a word FieldValue \<Rightarrow> 'a word FieldValue" where
  "FieldValue_add a b = \<lparr>fv_mask = fv_mask a OR fv_mask b, fv_value = fv_value a OR fv_value b\<rparr>"

text \<open>\<open>LocalRegisterCopy\<close> holds a plain value; the mutating methods return the new one.\<close>

type_synonym 'a LocalRegisterCopy = "'a word"

definition reg_write :: "'a::len LocalRegisterCopy \<Rightarrow> 'a word FieldValue \<Rightarrow> 'a LocalRegisterCopy" where
  "reg_write r fv = fv_value fv"

definition reg_modify :: "'a::len LocalRegisterCopy \<Rightarrow> 'a word FieldValue \<Rightarrow> 'a LocalRegisterCopy" where
  "reg_modify r fv = FieldValue_modify fv r"

definition reg_matches_any :: "'a::len LocalRegisterCopy \<Rightarrow> 'a word FieldValue list \<Rightarrow> bool" where
  "reg_matches_any r fvs \<longleftrightarrow> list_ex (\<lambda>fv. r AND fv_mask fv = fv_value fv) fvs"

definition bitfield :: "nat \<Rightarrow> nat \<Rightarrow> 'a::len word Field" where
  "bitfield off n = Field_new (mask n) off"

section \<open>Lemmas\<close>

named_theorems bitfields \<open>reading a bit field of a composed register value\<close>

lemmas field_bits = Field_read_def FieldValue_add_def FieldValue_modify_def Field_val_def
  FieldValue_new_def bitfield_def Field_new_def bit_simps

lemma Field_read_bitfield:
  "Field_read (bitfield off n) v = take_bit n (drop_bit off v)"
  by (rule bit_word_eqI) (auto simp: field_bits dest: bit_imp_le_length)

lemma Field_read_add [bitfields]:
  "Field_read f (fv_value (FieldValue_add a b)) = Field_read f (fv_value a) OR Field_read f (fv_value b)"
  by (rule bit_word_eqI) (auto simp: field_bits)

lemma Field_read_val_same:
  assumes "off + n \<le> LENGTH('a)"
  shows "Field_read (bitfield off n) (fv_value (Field_val (bitfield off n) (x :: 'a::len word))) = take_bit n x"
  using assms by (intro bit_word_eqI) (auto simp: field_bits dest: bit_imp_le_length)

lemma Field_read_val_other:
  assumes "off + n \<le> off' \<or> off' + n' \<le> off"
  shows "Field_read (bitfield off n) (fv_value (Field_val (bitfield off' n') x)) = 0"
  using assms by (intro bit_word_eqI) (auto simp: field_bits)

lemma modify_read_same:
  assumes "off + n \<le> LENGTH('a)"
  shows "Field_read (bitfield off n) (FieldValue_modify (Field_val (bitfield off n) x) (v :: 'a::len word)) = take_bit n x"
  using assms by (intro bit_word_eqI) (auto simp: field_bits dest: bit_imp_le_length)

lemma modify_read_other:
  assumes "off + n \<le> off' \<or> off' + n' \<le> off"
  shows "Field_read (bitfield off n) (FieldValue_modify (Field_val (bitfield off' n') x) v) =
         Field_read (bitfield off n) v"
  using assms by (intro bit_word_eqI) (auto simp: field_bits)

lemma matches_all_modify:
  "matches_all (Field_val f x) (FieldValue_modify (Field_val f x) v)"
  unfolding matches_all_def by (rule bit_word_eqI) (auto simp: field_bits)

end
