(* ===== verification/CortexM_Mpu.thy ===== *)
theory CortexM_Mpu
  imports Mpu MathUtil Registers
begin

text \<open>
  The Cortex-M memory protection unit, \<open>arch/cortex-m/src/mpu.rs\<close>. The constant parameter
  \<open>MIN_REGION_SIZE\<close> is an argument of the definitions and \<open>NUM_REGIONS\<close> is the length of the list
  of regions of a configuration. The unit itself is the counter of configurations, the
  configuration it was last loaded with, the control register, and the base address and attribute
  registers of each region.

  What the registers mean for an unprivileged access is given by \<open>region_permits\<close>, which reads
  the bit fields as the source documents them: a region is enabled by bit 0 of the attributes,
  spans \<open>2 ^ (SIZE + 1)\<close> bytes from its base, and a set bit of \<open>SRD\<close> turns one eighth of it off.
\<close>

section \<open>Model\<close>

subsection \<open>Register fields\<close>

definition CTRL_PRIVDEFENA :: "u32 Field" where "CTRL_PRIVDEFENA = bitfield 2 1"
definition CTRL_HFNMIENA :: "u32 Field" where "CTRL_HFNMIENA = bitfield 1 1"
definition CTRL_ENABLE :: "u32 Field" where "CTRL_ENABLE = bitfield 0 1"
definition RBAR_ADDR :: "u32 Field" where "RBAR_ADDR = bitfield 5 27"
definition RBAR_VALID :: "u32 Field" where "RBAR_VALID = bitfield 4 1"
definition RBAR_REGION :: "u32 Field" where "RBAR_REGION = bitfield 0 4"
definition RASR_XN :: "u32 Field" where "RASR_XN = bitfield 28 1"
definition RASR_AP :: "u32 Field" where "RASR_AP = bitfield 24 3"
definition RASR_SRD :: "u32 Field" where "RASR_SRD = bitfield 8 8"
definition RASR_SIZE :: "u32 Field" where "RASR_SIZE = bitfield 1 5"
definition RASR_ENABLE :: "u32 Field" where "RASR_ENABLE = bitfield 0 1"

subsection \<open>Regions\<close>

record CortexMRegion =
  location :: "(usize \<times> usize) option"
  base_address :: "u32 FieldValue"
  attributes :: "u32 FieldValue"

definition CortexMRegion_eq :: "CortexMRegion \<Rightarrow> Region \<Rightarrow> bool" where
  "CortexMRegion_eq r other =
     (case location r of
        None \<Rightarrow> False
      | Some (addr, sz) \<Rightarrow> addr = Region_start other \<and> sz = Region_size other)"

fun region_access :: "Permissions \<Rightarrow> u32 \<times> u32" where
  "region_access ReadWriteExecute = (3, 0)"
| "region_access ReadWriteOnly = (3, 1)"
| "region_access ReadExecuteOnly = (2, 0)"
| "region_access ReadOnly = (2, 1)"
| "region_access ExecuteOnly = (1, 0)"

fun subregion_mask :: "nat list \<Rightarrow> u8 \<Rightarrow> u8 option" where
  "subregion_mask [] res = Some res"
| "subregion_mask (i # is) res =
     (if i < 8 then subregion_mask is (res XOR push_bit i 1) else None)"

definition CortexMRegion_new ::
    "usize \<Rightarrow> usize \<Rightarrow> usize \<Rightarrow> usize \<Rightarrow> nat \<Rightarrow> (usize \<times> usize) option \<Rightarrow> Permissions \<Rightarrow>
      CortexMRegion option" where
  "CortexMRegion_new logical_start logical_size region_start region_size region_num subregions permissions = do {
     let (access, execute) = region_access permissions;
     let base_address =
       FieldValue_add (FieldValue_add (Field_val RBAR_ADDR (drop_bit 5 region_start))
         (Field_val RBAR_VALID 1)) (Field_val RBAR_REGION (of_nat region_num));
     size_value \<leftarrow> chk_sub (log_base_two region_size) 1;
     let attributes =
       FieldValue_add (FieldValue_add (FieldValue_add (Field_val RASR_ENABLE 1)
         (Field_val RASR_SIZE size_value)) (Field_val RASR_AP access)) (Field_val RASR_XN execute);
     attributes \<leftarrow>
       (case subregions of
          None \<Rightarrow> Some attributes
        | Some (min_subregion, max_subregion) \<Rightarrow> do {
            m \<leftarrow> subregion_mask [unat min_subregion..<Suc (unat max_subregion)] 255;
            Some (FieldValue_add attributes (Field_val RASR_SRD (ucast m)))
          });
     Some \<lparr>location = Some (logical_start, logical_size), base_address = base_address,
           attributes = attributes\<rparr>
   }"

definition CortexMRegion_empty :: "nat \<Rightarrow> CortexMRegion" where
  "CortexMRegion_empty region_num =
     \<lparr>location = None,
      base_address = FieldValue_add (Field_val RBAR_VALID 1) (Field_val RBAR_REGION (of_nat region_num)),
      attributes = Field_val RASR_ENABLE 0\<rparr>"

definition region_overlaps :: "CortexMRegion \<Rightarrow> usize \<Rightarrow> usize \<Rightarrow> bool option" where
  "region_overlaps r other_start other_size = do {
     other_end \<leftarrow> chk_add other_start other_size;
     (case location r of
        Some (region_start, sz) \<Rightarrow> do {
          region_end \<leftarrow> chk_add region_start sz;
          Some (region_start < other_end \<and> other_start < region_end)
        }
      | None \<Rightarrow> Some False)
   }"

subsection \<open>Configurations\<close>

record CortexMConfig =
  config_id :: usize
  regions :: "CortexMRegion list"
  is_dirty :: bool

definition APP_MEMORY_REGION_MAX_NUM :: nat where
  "APP_MEMORY_REGION_MAX_NUM = 1"

fun unused_region_from :: "nat \<Rightarrow> CortexMRegion list \<Rightarrow> nat option" where
  "unused_region_from n [] = None"
| "unused_region_from n (r # rs) =
     (if n \<le> APP_MEMORY_REGION_MAX_NUM then unused_region_from (Suc n) rs
      else if location r = None then Some n
      else unused_region_from (Suc n) rs)"

definition unused_region_number :: "CortexMConfig \<Rightarrow> nat option" where
  "unused_region_number config = unused_region_from 0 (regions config)"

record cortexm_hw =
  config_count :: usize
  hardware_is_configured_for :: "usize option"
  ctrl_reg :: u32
  rbar_regs :: "nat \<Rightarrow> u32"
  rasr_regs :: "nat \<Rightarrow> u32"

definition cm_clear_mpu :: "cortexm_hw \<Rightarrow> cortexm_hw" where
  "cm_clear_mpu hw = hw\<lparr>ctrl_reg := reg_write (ctrl_reg hw) (Field_val CTRL_ENABLE 0)\<rparr>"

definition cm_enable_app_mpu :: "cortexm_hw \<Rightarrow> cortexm_hw" where
  "cm_enable_app_mpu hw =
     hw\<lparr>ctrl_reg := reg_write (ctrl_reg hw)
          (FieldValue_add (FieldValue_add (Field_val CTRL_ENABLE 1) (Field_val CTRL_HFNMIENA 0)) (Field_val CTRL_PRIVDEFENA 1))\<rparr>"

definition cm_disable_app_mpu :: "cortexm_hw \<Rightarrow> cortexm_hw" where
  "cm_disable_app_mpu hw = hw\<lparr>ctrl_reg := reg_write (ctrl_reg hw) (Field_val CTRL_ENABLE 0)\<rparr>"

definition cm_reset_config :: "CortexMConfig \<Rightarrow> CortexMConfig" where
  "cm_reset_config config =
     config\<lparr>regions := map CortexMRegion_empty [0..<length (regions config)], is_dirty := True\<rparr>"

definition cm_new_config :: "nat \<Rightarrow> cortexm_hw \<Rightarrow> CortexMConfig option \<times> cortexm_hw" where
  "cm_new_config num_regions hw =
     (case chk_add (config_count hw) 1 of
        None \<Rightarrow> (None, hw)
      | Some n \<Rightarrow>
          (Some (cm_reset_config \<lparr>config_id = config_count hw,
                   regions = replicate num_regions (CortexMRegion_empty 0), is_dirty = True\<rparr>),
           hw\<lparr>config_count := n\<rparr>))"

fun any_overlaps :: "CortexMRegion list \<Rightarrow> usize \<Rightarrow> usize \<Rightarrow> bool option" where
  "any_overlaps [] start sz = Some False"
| "any_overlaps (r # rs) start sz = do {
     b \<leftarrow> region_overlaps r start sz;
     if b then Some True else any_overlaps rs start sz
   }"

subsection \<open>Allocating a region\<close>

definition trailing_zeros :: "'a::len word \<Rightarrow> nat" where
  "trailing_zeros w = length (takeWhile Not (map (bit w) [0..<LENGTH('a)]))"

definition count_ones :: "'a::len word \<Rightarrow> nat" where
  "count_ones w = length (filter (bit w) [0..<LENGTH('a)])"

definition align_up :: "usize \<Rightarrow> usize \<Rightarrow> usize option" where
  "align_up start al = do {
     r \<leftarrow> chk_mod start al;
     if r \<noteq> 0 then do { d \<leftarrow> chk_sub al r; chk_add start d } else Some start
   }"

definition subregion_size_for :: "usize \<Rightarrow> usize \<Rightarrow> usize option" where
  "subregion_size_for start sz =
     (if trailing_zeros start < 32 then Some (push_bit (trailing_zeros start) 1)
      else do {
        ceil \<leftarrow> closest_power_of_two sz;
        let ceil = (if ceil < 256 then 256 else ceil);
        Some (ceil div 8)
      })"

text \<open>
  The placement computed by \<open>allocate_region\<close>: the logical start and size, the start and size of
  the underlying hardware region, and the range of its subregions that are turned on.
\<close>

definition place_region ::
    "usize \<Rightarrow> usize \<Rightarrow> (usize \<times> usize \<times> usize \<times> usize \<times> (usize \<times> usize) option) option" where
  "place_region start sz = do {
     off \<leftarrow> chk_mod start sz;
     if count_ones sz > 1 \<or> off \<noteq> 0 then do {
       subregion_size \<leftarrow> subregion_size_for start sz;
       underlying_region_size \<leftarrow> chk_mul subregion_size 8;
       r \<leftarrow> chk_mod start underlying_region_size;
       underlying_region_start \<leftarrow> chk_sub start r;
       sz \<leftarrow> align_up sz subregion_size;
       e \<leftarrow> chk_add start sz;
       underlying_region_end \<leftarrow> chk_add underlying_region_start underlying_region_size;
       if subregion_size \<ge> 32 \<and> underlying_region_end \<ge> e then do {
         d \<leftarrow> chk_sub start underlying_region_start;
         min_subregion \<leftarrow> chk_div d subregion_size;
         n \<leftarrow> chk_div sz subregion_size;
         m \<leftarrow> chk_add min_subregion n;
         max_subregion \<leftarrow> chk_sub m 1;
         Some (start, sz, underlying_region_start, underlying_region_size,
               Some (min_subregion, max_subregion))
       } else do {
         sz \<leftarrow> closest_power_of_two sz;
         r \<leftarrow> chk_mod start sz;
         d \<leftarrow> chk_sub sz r;
         start \<leftarrow> chk_add start d;
         Some (start, sz, start, sz, None)
       }
     } else Some (start, sz, start, sz, None)
   }"

definition cm_allocate_region ::
    "usize \<Rightarrow> usize \<Rightarrow> usize \<Rightarrow> usize \<Rightarrow> Permissions \<Rightarrow> CortexMConfig \<Rightarrow>
      (Region option \<times> CortexMConfig) option" where
  "cm_allocate_region MIN_REGION_SIZE unallocated_memory_start unallocated_memory_size
       min_region_size permissions config = do {
     o_l \<leftarrow> any_overlaps (regions config) unallocated_memory_start unallocated_memory_size;
     if o_l then Some (None, config)
     else (case unused_region_number config of
       None \<Rightarrow> Some (None, config)
     | Some region_num \<Rightarrow> do {
         start \<leftarrow> align_up unallocated_memory_start MIN_REGION_SIZE;
         let sz = (if min_region_size < MIN_REGION_SIZE then MIN_REGION_SIZE else min_region_size);
         (start, sz, region_start, region_size, subregions) \<leftarrow> place_region start sz;
         e \<leftarrow> chk_add start sz;
         limit \<leftarrow> chk_add unallocated_memory_start unallocated_memory_size;
         if e > limit then Some (None, config)
         else do {
           region \<leftarrow> CortexMRegion_new start sz region_start region_size region_num subregions permissions;
           rs \<leftarrow> slice_set (regions config) region_num region;
           Some (Some (Region_new start sz), config\<lparr>regions := rs, is_dirty := True\<rparr>)
         }
       })
   }"

fun find_region :: "nat \<Rightarrow> CortexMRegion list \<Rightarrow> Region \<Rightarrow> nat option" where
  "find_region n [] region = None"
| "find_region n (r # rs) region =
     (if CortexMRegion_eq r region then Some n else find_region (Suc n) rs region)"

definition cm_remove_memory_region ::
    "Region \<Rightarrow> CortexMConfig \<Rightarrow> ((unit + unit) \<times> CortexMConfig) option" where
  "cm_remove_memory_region region config =
     (case find_region 0 (regions config) region of
        None \<Rightarrow> Some (Inl (), config)
      | Some idx \<Rightarrow>
          if idx \<le> APP_MEMORY_REGION_MAX_NUM then Some (Inl (), config)
          else do {
            rs \<leftarrow> slice_set (regions config) idx (CortexMRegion_empty idx);
            Some (Inr (), config\<lparr>regions := rs, is_dirty := True\<rparr>)
          })"

subsection \<open>The memory of a process\<close>

text \<open>
  Both operations on the memory of a process end by building regions 0 and 1 from the number of
  enabled subregions.
\<close>

definition set_app_regions ::
    "usize \<Rightarrow> usize \<Rightarrow> usize \<Rightarrow> Permissions \<Rightarrow> CortexMConfig \<Rightarrow> CortexMConfig option" where
  "set_app_regions region_start region_size num_enabled_subregions permissions config = do {
     let num_enabled_subregions0 = min num_enabled_subregions 8;
     let num_enabled_subregions1 = saturating_sub num_enabled_subregions 8;
     last0 \<leftarrow> chk_sub num_enabled_subregions0 1;
     region0 \<leftarrow> CortexMRegion_new region_start region_size region_start region_size 0
                 (Some (0, last0)) permissions;
     region1 \<leftarrow>
       (if num_enabled_subregions1 = 0 then Some (CortexMRegion_empty 1)
        else do {
          start1 \<leftarrow> chk_add region_start region_size;
          last1 \<leftarrow> chk_sub num_enabled_subregions1 1;
          CortexMRegion_new start1 region_size start1 region_size 1 (Some (0, last1)) permissions
        });
     rs \<leftarrow> slice_set (regions config) 0 region0;
     rs \<leftarrow> slice_set rs 1 region1;
     Some (config\<lparr>regions := rs, is_dirty := True\<rparr>)
   }"

definition subregions_for_app :: "usize \<Rightarrow> usize \<Rightarrow> usize option" where
  "subregions_for_app initial_app_memory_size region_size = do {
     a \<leftarrow> chk_mul initial_app_memory_size 8;
     b \<leftarrow> chk_div a region_size;
     chk_add b 1
   }"

text \<open>
  The placement part of \<open>allocate_app_memory_region\<close>: the start and size of the two hardware regions
  and the number of subregions to turn on, for a memory block of \<open>memory_size_po2\<close> bytes.
\<close>

definition place_app_memory :: "usize \<Rightarrow> usize \<Rightarrow> usize \<Rightarrow> usize \<Rightarrow> (usize \<times> usize \<times> usize) option" where
  "place_app_memory unallocated_memory_start memory_size_po2 initial_app_memory_size
       initial_kernel_memory_size = do {
     let region_size = memory_size_po2 div 2;
     region_start \<leftarrow> align_up unallocated_memory_start region_size;
     num_enabled_subregions \<leftarrow> subregions_for_app initial_app_memory_size region_size;
     let subregion_size = region_size div 8;
     len \<leftarrow> chk_mul num_enabled_subregions subregion_size;
     subregions_enabled_end \<leftarrow> chk_add region_start len;
     block_end \<leftarrow> chk_add region_start memory_size_po2;
     kernel_memory_break \<leftarrow> chk_sub block_end initial_kernel_memory_size;
     if subregions_enabled_end > kernel_memory_break then do {
       region_size \<leftarrow> chk_mul region_size 2;
       region_start \<leftarrow> align_up region_start region_size;
       num_enabled_subregions \<leftarrow> subregions_for_app initial_app_memory_size region_size;
       Some (region_start, region_size, num_enabled_subregions)
     } else Some (region_start, region_size, num_enabled_subregions)
   }"

definition cm_allocate_app_memory_region ::
    "usize \<Rightarrow> usize \<Rightarrow> usize \<Rightarrow> usize \<Rightarrow> usize \<Rightarrow> Permissions \<Rightarrow> CortexMConfig \<Rightarrow>
      ((usize \<times> usize) option \<times> CortexMConfig) option" where
  "cm_allocate_app_memory_region unallocated_memory_start unallocated_memory_size min_memory_size
       initial_app_memory_size initial_kernel_memory_size permissions config = do {
     o_l \<leftarrow> any_overlaps (regions config) unallocated_memory_start unallocated_memory_size;
     if o_l then Some (None, config)
     else do {
       total \<leftarrow> chk_add initial_app_memory_size initial_kernel_memory_size;
       let memory_size = max min_memory_size total;
       po2 \<leftarrow> closest_power_of_two memory_size;
       let exponent = log_base_two po2;
       if exponent \<ge> 9 \<and> exponent > 32 then Some (None, config)
       else do {
         let memory_size_po2 = (if exponent < 9 then 512 else po2);
         (region_start, region_size, num_enabled_subregions) \<leftarrow>
           place_app_memory unallocated_memory_start memory_size_po2 initial_app_memory_size
             initial_kernel_memory_size;
         block_end \<leftarrow> chk_add region_start memory_size_po2;
         limit \<leftarrow> chk_add unallocated_memory_start unallocated_memory_size;
         if block_end > limit then Some (None, config)
         else do {
           config \<leftarrow> set_app_regions region_start region_size num_enabled_subregions permissions config;
           Some (Some (region_start, memory_size_po2), config)
         }
       }
     }
   }"

definition cm_update_app_memory_region ::
    "usize \<Rightarrow> usize \<Rightarrow> Permissions \<Rightarrow> CortexMConfig \<Rightarrow> ((unit + unit) \<times> CortexMConfig) option" where
  "cm_update_app_memory_region app_memory_break kernel_memory_break permissions config = do {
     r0 \<leftarrow> slice_get (regions config) 0;
     (case location r0 of
        None \<Rightarrow> Some (Inl (), config)
      | Some (region_start, region_size) \<Rightarrow>
          if app_memory_break > kernel_memory_break then Some (Inl (), config)
          else do {
            app_memory_size \<leftarrow> chk_sub app_memory_break region_start;
            let subregion_size = region_size div 8;
            a \<leftarrow> chk_add app_memory_size subregion_size;
            b \<leftarrow> chk_sub a 1;
            num_enabled_subregions \<leftarrow> chk_div b subregion_size;
            len \<leftarrow> chk_mul subregion_size num_enabled_subregions;
            subregions_enabled_end \<leftarrow> chk_add region_start len;
            if subregions_enabled_end > kernel_memory_break then Some (Inl (), config)
            else do {
              config \<leftarrow> set_app_regions region_start region_size num_enabled_subregions permissions config;
              Some (Inr (), config)
            }
          })
   }"

subsection \<open>Loading a configuration\<close>

text \<open>
  Writing a base address with the \<open>VALID\<close> bit set selects the region its \<open>REGION\<close> field names;
  the attributes written next go to that region.
\<close>

definition write_region :: "CortexMRegion \<Rightarrow> cortexm_hw \<Rightarrow> cortexm_hw" where
  "write_region r hw =
     (let n = unat (Field_read RBAR_REGION (fv_value (base_address r))) in
      hw\<lparr>rbar_regs := (rbar_regs hw)(n := fv_value (base_address r)),
         rasr_regs := (rasr_regs hw)(n := fv_value (attributes r))\<rparr>)"

definition cm_configure_mpu :: "cortexm_hw \<Rightarrow> CortexMConfig \<Rightarrow> cortexm_hw \<times> CortexMConfig" where
  "cm_configure_mpu hw config =
     (if hardware_is_configured_for hw \<noteq> Some (config_id config) \<or> is_dirty config then
        ((fold write_region (regions config) hw)\<lparr>hardware_is_configured_for := Some (config_id config)\<rparr>,
         config\<lparr>is_dirty := False\<rparr>)
      else (hw, config))"

definition cortexm_mpu :: "nat \<Rightarrow> usize \<Rightarrow> (cortexm_hw, CortexMConfig) MPU" where
  "cortexm_mpu NUM_REGIONS MIN_REGION_SIZE =
     \<lparr>mpu_new_config = cm_new_config NUM_REGIONS,
      mpu_reset_config = cm_reset_config,
      mpu_allocate_region = cm_allocate_region MIN_REGION_SIZE,
      mpu_remove_memory_region = cm_remove_memory_region,
      mpu_allocate_app_memory_region = cm_allocate_app_memory_region,
      mpu_update_app_memory_region = cm_update_app_memory_region,
      mpu_configure_mpu = cm_configure_mpu\<rparr>"

section \<open>What the registers permit\<close>

definition reg_permits :: "u32 \<Rightarrow> u32 \<Rightarrow> nat \<Rightarrow> bool" where
  "reg_permits rbar rasr a \<longleftrightarrow>
     (let base = 32 * unat (Field_read RBAR_ADDR rbar);
          len = 2 ^ (unat (Field_read RASR_SIZE rasr) + 1) in
      Field_read RASR_ENABLE rasr = 1 \<and> Field_read RASR_AP rasr \<in> {2, 3} \<and>
      base \<le> a \<and> a < base + len \<and>
      \<not> bit (Field_read RASR_SRD rasr) ((a - base) div (len div 8)))"

definition region_permits :: "CortexMRegion \<Rightarrow> nat \<Rightarrow> bool" where
  "region_permits r = reg_permits (fv_value (base_address r)) (fv_value (attributes r))"

section \<open>Regions and their registers\<close>

lemmas register_fields = RBAR_ADDR_def RBAR_VALID_def RBAR_REGION_def RASR_XN_def RASR_AP_def
  RASR_SRD_def RASR_SIZE_def RASR_ENABLE_def

lemma field_reads:
  "off + n \<le> 32 \<Longrightarrow> Field_read (bitfield off n) (fv_value (Field_val (bitfield off n) x)) = take_bit n (x :: u32)"
  "off + n \<le> off' \<or> off' + n' \<le> off \<Longrightarrow>
     Field_read (bitfield off n) (fv_value (Field_val (bitfield off' n') x)) = (0 :: u32)"
  by (simp_all add: Field_read_val_same Field_read_val_other)

lemma subregion_mask_bits:
  assumes "subregion_mask is res = Some m" "distinct is" "j < 8"
  shows "bit m j \<longleftrightarrow> bit res j \<noteq> (j \<in> set is)"
  using assms
proof (induction "is" arbitrary: res)
  case (Cons i "is")
  then show ?case by (auto simp: bit_simps split: if_splits)
qed simp

lemma subregion_mask_total: "\<forall>i\<in>set is. i < 8 \<Longrightarrow> \<exists>m. subregion_mask is res = Some m"
  by (induction "is" arbitrary: res) auto

lemma subregion_mask_bound: "subregion_mask is res = Some m \<Longrightarrow> i \<in> set is \<Longrightarrow> i < 8"
  by (induction "is" arbitrary: res) (auto split: if_splits)

lemma bit_255: "j < 8 \<Longrightarrow> bit (255 :: u8) j"
proof -
  have "(255 :: u8) = mask 8" by (simp add: mask_eq_exp_minus_1)
  then show "j < 8 \<Longrightarrow> bit (255 :: u8) j" by (simp only: bit_mask_iff) simp
qed

lemma region_new_registers:
  assumes "CortexMRegion_new ls lz rs rz num subs p = Some r"
  shows "location r = Some (ls, lz)"
    "Field_read RBAR_ADDR (fv_value (base_address r)) = take_bit 27 (drop_bit 5 rs)"
    "Field_read RBAR_REGION (fv_value (base_address r)) = take_bit 4 (of_nat num)"
    "Field_read RASR_ENABLE (fv_value (attributes r)) = 1"
    "Field_read RASR_SIZE (fv_value (attributes r)) = take_bit 5 (log_base_two rz - 1)"
    "Field_read RASR_AP (fv_value (attributes r)) = take_bit 3 (fst (region_access p))"
    "1 \<le> log_base_two rz"
    "case subs of None \<Rightarrow> Field_read RASR_SRD (fv_value (attributes r)) = 0
     | Some (mn, mx) \<Rightarrow> \<exists>m. subregion_mask [unat mn..<Suc (unat mx)] 255 = Some m \<and>
         Field_read RASR_SRD (fv_value (attributes r)) = take_bit 8 (ucast m)"
proof -
  obtain acc ex where ae: "region_access p = (acc, ex)" by fastforce
  note r = assms [unfolded CortexMRegion_new_def ae Let_def prod.case]
  show "location r = Some (ls, lz)"
    using r by (auto simp: bind_eq_Some_conv)
  show "Field_read RBAR_ADDR (fv_value (base_address r)) = take_bit 27 (drop_bit 5 rs)"
    "Field_read RBAR_REGION (fv_value (base_address r)) = take_bit 4 (of_nat num)"
    using r by (auto simp: bind_eq_Some_conv bitfields register_fields field_reads)
  show "1 \<le> log_base_two rz"
    using r by (auto simp: bind_eq_Some_conv chk_sub_def split: if_splits)
  show "Field_read RASR_ENABLE (fv_value (attributes r)) = 1"
    "Field_read RASR_SIZE (fv_value (attributes r)) = take_bit 5 (log_base_two rz - 1)"
    "Field_read RASR_AP (fv_value (attributes r)) = take_bit 3 (fst (region_access p))"
    using r by (cases subs; auto simp: bind_eq_Some_conv bitfields register_fields field_reads ae
        chk_sub_def simp del: upt_Suc split: if_splits)+
  show "case subs of None \<Rightarrow> Field_read RASR_SRD (fv_value (attributes r)) = 0
     | Some (mn, mx) \<Rightarrow> \<exists>m. subregion_mask [unat mn..<Suc (unat mx)] 255 = Some m \<and>
         Field_read RASR_SRD (fv_value (attributes r)) = take_bit 8 (ucast m)"
    using r by (cases subs) (auto simp: bind_eq_Some_conv bitfields register_fields field_reads
        simp del: upt_Suc)
qed


lemma log_base_two_power:
  assumes "unat rz = 2 ^ k"
  shows "unat (log_base_two rz) = k"
proof -
  have "rz \<noteq> 0" using assms by auto
  from log_base_two_bounds [OF this] have le: "(2::nat) ^ unat (log_base_two rz) \<le> 2 ^ k"
    and less: "(2::nat) ^ k < 2 ^ Suc (unat (log_base_two rz))" by (simp_all add: assms)
  have "unat (log_base_two rz) \<le> k" by (rule power_le_imp_le_exp [OF _ le]) simp
  moreover have "k < Suc (unat (log_base_two rz))" by (rule power_less_imp_less_exp [OF _ less]) simp
  ultimately show ?thesis by simp
qed

lemma word_power_bound: "unat (rz :: u32) = 2 ^ k \<Longrightarrow> k < 32"
  using unat_less_2p [of rz] power_less_imp_less_exp [of "2::nat" k 32] by simp

text \<open>The subregions that a range leaves on.\<close>

definition in_subregions :: "(usize \<times> usize) option \<Rightarrow> nat \<Rightarrow> bool" where
  "in_subregions subs j = (case subs of None \<Rightarrow> True | Some (mn, mx) \<Rightarrow> unat mn \<le> j \<and> j \<le> unat mx)"

lemma region_new_srd:
  assumes "CortexMRegion_new ls lz rs rz num subs p = Some r" "j < 8"
  shows "bit (Field_read RASR_SRD (fv_value (attributes r))) j \<longleftrightarrow> \<not> in_subregions subs j"
proof (cases subs)
  case None
  then show ?thesis using region_new_registers(8) [OF assms(1)] by (simp add: in_subregions_def)
next
  case (Some s)
  obtain mn mx where s: "subs = Some (mn, mx)" using Some by (cases s) auto
  obtain m where m: "subregion_mask [unat mn..<Suc (unat mx)] 255 = Some m"
    "Field_read RASR_SRD (fv_value (attributes r)) = take_bit 8 (ucast m)"
    using region_new_registers(8) [OF assms(1)] s by auto
  have "bit m j \<longleftrightarrow> j \<notin> set [unat mn..<Suc (unat mx)]"
    using subregion_mask_bits [OF m(1) distinct_upt assms(2)] bit_255 [OF assms(2)] by auto
  then show ?thesis
    using m(2) assms(2) s by (auto simp: bit_simps in_subregions_def)
qed

lemma region_permits_new:
  assumes new: "CortexMRegion_new ls lz rs rz num subs p = Some r"
    and k: "unat rz = 2 ^ k" "3 \<le> k" and al: "unat rs mod 32 = 0" and p: "p \<noteq> ExecuteOnly"
  shows "region_permits r a \<longleftrightarrow> unat rs \<le> a \<and> a < unat rs + unat rz \<and>
           in_subregions subs ((a - unat rs) div (unat rz div 8))"
proof -
  note regs = region_new_registers [OF new]
  have kb: "k < 32" by (rule word_power_bound [OF k(1)])
  have base: "32 * unat (Field_read RBAR_ADDR (fv_value (base_address r))) = unat rs"
  proof -
    have "take_bit 27 (drop_bit 5 rs) = drop_bit 5 rs"
      by (rule bit_word_eqI) (auto simp: bit_simps dest: bit_imp_le_length)
    then have "unat (Field_read RBAR_ADDR (fv_value (base_address r))) = unat rs div 32"
      using regs(2) by (simp add: drop_bit_eq_div unat_div)
    then show ?thesis using al by auto
  qed
  have ku: "unat (log_base_two rz) = k" by (rule log_base_two_power [OF k(1)])
  then have "unat (log_base_two rz - 1) = k - 1"
    by (simp only: unat_sub [OF regs(7)] unat_1)
  then have "unat (Field_read RASR_SIZE (fv_value (attributes r))) = k - 1"
    using regs(5) kb by (simp only: unsigned_take_bit_eq) (simp add: take_bit_nat_eq_self)
  then have size: "2 ^ (unat (Field_read RASR_SIZE (fv_value (attributes r))) + 1) = unat rz"
    using k by simp
  have ap: "Field_read RASR_AP (fv_value (attributes r)) \<in> {2, 3}"
    using regs(6) p by (cases p) (simp_all add: take_bit_eq_mask mask_eq_exp_minus_1)
  have j: "(a - unat rs) div (unat rz div 8) < 8" if "a < unat rs + unat rz"
  proof -
    obtain m where m: "k = m + 3" using k(2) le_Suc_ex by (metis add.commute)
    then have "unat rz = 8 * 2 ^ m" using k(1) by (simp add: power_add)
    moreover have "a - unat rs < 8 * 2 ^ m"
      using that calculation zero_less_power [of "2::nat" m] by arith
    ultimately show ?thesis by (simp add: div_less_iff_less_mult)
  qed
  show ?thesis
    unfolding region_permits_def reg_permits_def Let_def base size
    using regs(4) ap region_new_srd [OF new j] by blast
qed

lemma region_permits_empty [simp]: "\<not> region_permits (CortexMRegion_empty n) a"
proof -
  have "Field_read RASR_ENABLE (fv_value (attributes (CortexMRegion_empty n))) = 0"
    by (simp add: CortexMRegion_empty_def RASR_ENABLE_def field_reads)
  then show ?thesis by (simp add: region_permits_def reg_permits_def Let_def)
qed

section \<open>The memory of a process\<close>

definition app_geometry :: "usize \<Rightarrow> usize \<Rightarrow> bool" where
  "app_geometry rs rz \<longleftrightarrow> (\<exists>k\<ge>8. unat rz = 2 ^ k) \<and> unat rs mod unat rz = 0"

definition app_permits :: "CortexMConfig \<Rightarrow> nat \<Rightarrow> bool" where
  "app_permits c a \<longleftrightarrow> region_permits (regions c ! 0) a \<or> region_permits (regions c ! 1) a"

lemma app_geometryE:
  assumes "app_geometry rs rz"
  obtains k s where "unat rz = 2 ^ k" "3 \<le> k" "unat rz = 8 * s" "unat rz div 8 = s" "32 \<le> s" "32 dvd s"
    "unat rs mod 32 = 0"
proof -
  obtain k where k: "8 \<le> k" "unat rz = 2 ^ k" "unat rs mod unat rz = 0"
    using assms by (auto simp: app_geometry_def)
  then obtain m where m: "k = m + 8" by (metis add.commute le_Suc_ex)
  then have rz: "unat rz = 8 * (32 * 2 ^ m)" using k(2) by (simp add: power_add)
  have "32 dvd unat rs"
    using k(3) rz by (metis dvd_eq_mod_eq_0 dvd_mult_left dvd_triv_left dvd_trans mult.left_commute)
  then show ?thesis
    using that [of k "32 * 2 ^ m"] k rz by auto
qed

lemma in_subregions_first:
  assumes "chk_sub n 1 = Some l" "0 < s"
  shows "in_subregions (Some (0, l)) (q div s) \<longleftrightarrow> q < unat n * s" and "1 \<le> unat n"
proof -
  have n: "unat n = Suc (unat l)" using assms(1) by (simp add: checked_arith)
  have "in_subregions (Some (0, l)) (q div s) \<longleftrightarrow> q div s < unat n"
    by (auto simp: in_subregions_def n)
  then show "in_subregions (Some (0, l)) (q div s) \<longleftrightarrow> q < unat n * s"
    using assms(2) by (simp add: div_less_iff_less_mult)
  show "1 \<le> unat n" using n by simp
qed

lemma region_new_last_subregion:
  assumes "CortexMRegion_new ls lz rs rz num (Some (0, l)) p = Some r"
  shows "unat l < 8"
proof -
  obtain m where "subregion_mask [0..<Suc (unat l)] 255 = Some m"
    using region_new_registers(8) [OF assms] by (auto simp del: upt_Suc)
  from subregion_mask_bound [OF this] show ?thesis by simp
qed

lemma set_app_regionsE:
  assumes "set_app_regions rs rz n p c = Some c'"
  obtains l0 r0 r1 where "chk_sub (min n 8) 1 = Some l0"
    "CortexMRegion_new rs rz rs rz 0 (Some (0, l0)) p = Some r0"
    "if n \<le> 8 then r1 = CortexMRegion_empty 1
     else \<exists>s1 l1. chk_add rs rz = Some s1 \<and> chk_sub (n - 8) 1 = Some l1 \<and>
            CortexMRegion_new s1 rz s1 rz 1 (Some (0, l1)) p = Some r1"
    "1 < length (regions c)" "c' = c\<lparr>regions := (regions c)[0 := r0, 1 := r1], is_dirty := True\<rparr>"
proof -
  have "saturating_sub n 8 = 0 \<longleftrightarrow> n \<le> 8"
    by (auto simp: saturating_sub_def)
  moreover have "saturating_sub n 8 = n - 8" if "\<not> n \<le> 8"
    using that by (auto simp: saturating_sub_def)
  ultimately show ?thesis
    using assms that unfolding set_app_regions_def Let_def
    by (auto simp: bind_eq_Some_conv slice_access split: if_splits)
qed

lemma set_app_regions_permits:
  assumes set: "set_app_regions rs rz n p c = Some c'" and geo: "app_geometry rs rz"
    and p: "p \<noteq> ExecuteOnly"
  shows "app_permits c' a \<longleftrightarrow> unat rs \<le> a \<and> a < unat rs + unat n * (unat rz div 8)"
proof -
  obtain k s where g: "unat rz = 2 ^ k" "3 \<le> k" "unat rz = 8 * s" "unat rz div 8 = s" "32 \<le> s"
      "32 dvd s" "unat rs mod 32 = 0"
    by (rule app_geometryE [OF geo])
  have s0: "0 < s" using g(5) by simp
  obtain l0 r0 r1 where l0: "chk_sub (min n 8) 1 = Some l0"
    and r0: "CortexMRegion_new rs rz rs rz 0 (Some (0, l0)) p = Some r0"
    and r1: "if n \<le> 8 then r1 = CortexMRegion_empty 1
     else \<exists>s1 l1. chk_add rs rz = Some s1 \<and> chk_sub (n - 8) 1 = Some l1 \<and>
            CortexMRegion_new s1 rz s1 rz 1 (Some (0, l1)) p = Some r1"
    and c': "1 < length (regions c)" "c' = c\<lparr>regions := (regions c)[0 := r0, 1 := r1], is_dirty := True\<rparr>"
    by (rule set_app_regionsE [OF set])
  have un: "unat (min n 8) = min (unat n) 8"
    by (auto simp: min_def word_le_nat_alt)
  have p0: "region_permits r0 a \<longleftrightarrow> unat rs \<le> a \<and> a < unat rs + min (unat n) 8 * s"
  proof -
    define t where "t = min (unat n) 8 * s"
    have "t \<le> 8 * s" by (simp add: t_def)
    then show ?thesis
      unfolding region_permits_new [OF r0 g(1,2,7) p] g(4) in_subregions_first(1) [OF l0 s0] un
        t_def [symmetric]
      using g(3) by auto
  qed
  have p1: "region_permits r1 a \<longleftrightarrow> 8 < unat n \<and> unat rs + 8 * s \<le> a \<and> a < unat rs + unat n * s"
  proof (cases "n \<le> 8")
    case True
    then show ?thesis using r1 by (simp add: word_le_nat_alt)
  next
    case False
    then obtain s1 l1 where s1: "chk_add rs rz = Some s1" and l1: "chk_sub (n - 8) 1 = Some l1"
      and r1': "CortexMRegion_new s1 rz s1 rz 1 (Some (0, l1)) p = Some r1" using r1 by auto
    have n8: "unat (n - 8) = unat n - 8" "8 < unat n"
      using False by (simp_all add: word_le_nat_alt unat_sub)
    have us1: "unat s1 = unat rs + 8 * s" using s1 g(3) by (simp add: checked_arith)
    then have "unat s1 mod 32 = 0" using g(6,7) by auto
    define t where "t = (unat n - 8) * s"
    from region_permits_new [OF r1' g(1,2) \<open>unat s1 mod 32 = 0\<close> p]
    have "region_permits r1 a \<longleftrightarrow> unat s1 \<le> a \<and> a < unat s1 + 8 * s \<and> a - unat s1 < t"
      unfolding g(4) in_subregions_first(1) [OF l1 s0] n8(1) t_def using g(3) by simp
    moreover have "unat n - 8 = Suc (unat l1)"
      using l1 n8(1) by (simp add: checked_arith)
    then have "t \<le> 8 * s"
      unfolding t_def using region_new_last_subregion [OF r1'] by (intro mult_right_mono) auto
    moreover have "unat n * s = 8 * s + t"
      unfolding t_def using n8(2) by (simp add: add_mult_distrib [symmetric])
    ultimately show ?thesis
      using n8(2) us1 by auto
  qed
  have "app_permits c' a \<longleftrightarrow> region_permits r0 a \<or> region_permits r1 a"
    using c' by (cases "regions c") (auto simp: app_permits_def)
  moreover define t where "t = unat n * s"
  then have "8 * s \<le> t" if "8 < unat n"
    using that by simp
  ultimately show ?thesis
    unfolding p0 p1 g(4) by (cases "8 < unat n") (auto simp: min_def t_def [symmetric])
qed

lemma set_app_regions_frame:
  assumes "set_app_regions rs rz n p c = Some c'"
  shows "location (regions c' ! 0) = Some (rs, rz)" "length (regions c') = length (regions c)"
    "2 \<le> i \<Longrightarrow> regions c' ! i = regions c ! i" "is_dirty c'" "config_id c' = config_id c"
proof -
  obtain l0 r0 r1 where r0: "CortexMRegion_new rs rz rs rz 0 (Some (0, l0)) p = Some r0"
    and c': "1 < length (regions c)" "c' = c\<lparr>regions := (regions c)[0 := r0, 1 := r1], is_dirty := True\<rparr>"
    by (rule set_app_regionsE [OF assms])
  show "location (regions c' ! 0) = Some (rs, rz)"
    using c' region_new_registers(1) [OF r0] by (cases "regions c") auto
  show "length (regions c') = length (regions c)" "is_dirty c'" "config_id c' = config_id c"
    using c' by auto
  show "2 \<le> i \<Longrightarrow> regions c' ! i = regions c ! i"
    using c' by auto
qed

lemma region_new_total:
  assumes "unat rz = 2 ^ k" "1 \<le> k" "unat mx < 8"
  shows "\<exists>r. CortexMRegion_new ls lz rs rz num (Some (mn, mx)) p = Some r"
proof -
  obtain m where "subregion_mask [unat mn..<Suc (unat mx)] 255 = Some m"
    using subregion_mask_total [of "[unat mn..<Suc (unat mx)]" 255] assms(3) by fastforce
  moreover have "chk_sub (log_base_two rz) 1 = Some (log_base_two rz - 1)"
    using log_base_two_power [OF assms(1)] assms(2) by (simp add: chk_sub_def word_le_nat_alt)
  ultimately show ?thesis
    by (simp add: CortexMRegion_new_def case_prod_beta Let_def del: upt_Suc)
qed

lemma set_app_regions_total:
  assumes geo: "app_geometry rs rz" and n: "1 \<le> unat n" "unat n \<le> 16" and len: "1 < length (regions c)"
    and fit: "unat rs + unat rz < 2 ^ 32"
  shows "\<exists>c'. set_app_regions rs rz n p c = Some c'"
proof -
  obtain k where k: "unat rz = 2 ^ k" "1 \<le> k" using app_geometryE [OF geo] by (metis le_trans one_le_numeral)
  have "chk_sub (min n 8) 1 = Some (min n 8 - 1)" "unat (min n 8 - 1) < 8"
    using n by (auto simp: chk_sub_def word_le_nat_alt min_def unat_sub)
  moreover obtain r0 where "CortexMRegion_new rs rz rs rz 0 (Some (0, min n 8 - 1)) p = Some r0"
    using region_new_total [OF k calculation(2)] by blast
  moreover have "\<exists>r1. (if saturating_sub n 8 = 0 then Some (CortexMRegion_empty 1)
        else do {
          start1 \<leftarrow> chk_add rs rz;
          last1 \<leftarrow> chk_sub (saturating_sub n 8) 1;
          CortexMRegion_new start1 rz start1 rz 1 (Some (0, last1)) p
        }) = Some r1"
  proof (cases "saturating_sub n 8 = 0")
    case False
    then have n8: "8 < unat n"
      by (simp add: word_unat_eq_iff unat_saturating_sub)
    have un: "unat (saturating_sub n 8) = unat n - 8"
      by (simp add: unat_saturating_sub)
    then have "chk_sub (saturating_sub n 8) 1 = Some (saturating_sub n 8 - 1)"
      and "unat (saturating_sub n 8 - 1) < 8"
      using n8 n(2) by (auto simp: chk_sub_def word_le_nat_alt unat_sub)
    moreover have "chk_add rs rz = Some (rs + rz)" using fit by (simp add: chk_add_def)
    ultimately show ?thesis
      using False region_new_total [OF k] by simp
  qed simp
  then obtain r1 where "(if saturating_sub n 8 = 0 then Some (CortexMRegion_empty 1)
        else do {
          start1 \<leftarrow> chk_add rs rz;
          last1 \<leftarrow> chk_sub (saturating_sub n 8) 1;
          CortexMRegion_new start1 rz start1 rz 1 (Some (0, last1)) p
        }) = Some r1" by blast
  ultimately show ?thesis
    using len by (auto simp: set_app_regions_def slice_set_def)
qed

lemma update_okE:
  assumes "cm_update_app_memory_region ab kb p c = Some (Inr (), c')"
    "location (regions c ! 0) = Some (rs, rz)"
  obtains n where "set_app_regions rs rz n p c = Some c'" "unat rs \<le> unat ab" "ab \<le> kb"
    "unat n = (unat ab - unat rs + unat rz div 8 - 1) div (unat rz div 8)"
    "unat rs + unat rz div 8 * unat n \<le> unat kb"
  using assms unfolding cm_update_app_memory_region_def Let_def
  by (auto simp: bind_eq_Some_conv slice_access checked_arith chk_div_def unat_div word_le_nat_alt not_less
      split: if_splits)

lemma ceil_div: "0 < (s::nat) \<Longrightarrow> q \<le> (q + s - 1) div s * s"
  using div_mult_mod_eq [of "q + s - 1" s] mod_less_divisor [of s "q + s - 1"] by linarith

lemma update_permits:
  assumes up: "cm_update_app_memory_region ab kb p c = Some (Inr (), c')"
    and loc: "location (regions c ! 0) = Some (rs, rz)" and geo: "app_geometry rs rz"
    and p: "p \<noteq> ExecuteOnly"
  shows "app_permits c' a \<Longrightarrow> unat rs \<le> a \<and> a < unat kb"
    and "unat rs \<le> a \<Longrightarrow> a < unat ab \<Longrightarrow> app_permits c' a"
proof -
  obtain n where n: "unat rs \<le> unat ab" "unat n = (unat ab - unat rs + unat rz div 8 - 1) div (unat rz div 8)"
    "unat rs + unat rz div 8 * unat n \<le> unat kb" and set: "set_app_regions rs rz n p c = Some c'"
    by (rule update_okE [OF up loc])
  note permits = set_app_regions_permits [OF set geo p]
  have "0 < unat rz div 8" using app_geometryE [OF geo] by (metis less_le_trans zero_less_numeral)
  then have "unat ab - unat rs \<le> unat n * (unat rz div 8)"
    unfolding n(2) by (rule ceil_div)
  then show "app_permits c' a \<Longrightarrow> unat rs \<le> a \<and> a < unat kb"
    and "unat rs \<le> a \<Longrightarrow> a < unat ab \<Longrightarrow> app_permits c' a"
    unfolding permits using n(1,3) by (auto simp: mult.commute)
qed

lemma update_total:
  assumes loc: "location (regions c ! 0) = Some (rs, rz)" and geo: "app_geometry rs rz"
    and len: "1 < length (regions c)" and fit: "unat rs + 2 * unat rz < 2 ^ 32"
    and ab: "unat rs < unat ab" "unat ab \<le> unat rs + 2 * unat rz"
  shows "\<exists>res c'. cm_update_app_memory_region ab kb p c = Some (res, c')"
proof -
  obtain k s where g: "unat rz = 2 ^ k" "3 \<le> k" "unat rz = 8 * s" "unat rz div 8 = s" "32 \<le> s"
      "32 dvd s" "unat rs mod 32 = 0"
    by (rule app_geometryE [OF geo])
  let ?q = "unat ab - unat rs"
  define n where "n = (?q + s - 1) div s"
  have us: "unat (rz div 8) = s" using g(4) by (simp add: unat_div)
  have q: "0 < ?q" "?q \<le> 16 * s" using ab g(3) by auto
  have n: "1 \<le> n" "n \<le> 16"
    unfolding n_def using q g(5) by (auto simp: Suc_le_eq div_greater_zero_iff div_le_mono
        less_eq_div_iff_mult_less_eq intro!: less_Suc_eq_le [THEN iffD1] simp: div_less_iff_less_mult)
  have "s * n \<le> s * 16" by (rule mult_le_mono2 [OF n(2)])
  then have ns: "unat rs + s * n < 2 ^ 32" using fit g(3) by linarith
  have "(2::nat) ^ k < 2 ^ 31"
    using fit unfolding g(1) by simp
  then have "k < 31"
    by (rule power_less_imp_less_exp [rotated]) simp
  then have "unat rz \<le> 2 ^ 30"
    unfolding g(1) by (intro power_increasing) auto
  then have sb: "s \<le> 2 ^ 27" using g(3) by simp
  note 1 = chk_subI [OF less_imp_le [OF ab(1)]]
  have 2: "chk_add (ab - rs) (rz div 8) = Some (ab - rs + rz div 8)"
      "unat (ab - rs + rz div 8) = ?q + s"
    using chk_addI [of "ab - rs" "rz div 8"] 1(2) q us sb by simp_all
  have "unat (1 :: u32) \<le> unat (ab - rs + rz div 8)"
    using 2(2) q by simp
  note 3 = chk_subI [OF this]
  let ?n = "(ab - rs + rz div 8 - 1) div (rz div 8)"
  have 4: "chk_div (ab - rs + rz div 8 - 1) (rz div 8) = Some ?n" and un: "unat ?n = n"
    using chk_divI [of "rz div 8" "ab - rs + rz div 8 - 1"] us g(5) unfolding n_def 3(2) 2(2)
    by simp_all
  have 5: "chk_mul (rz div 8) ?n = Some (rz div 8 * ?n)" "unat (rz div 8 * ?n) = s * n"
    using chk_mulI [of "rz div 8" ?n] us un ns by simp_all
  have 6: "chk_add rs (rz div 8 * ?n) = Some (rs + rz div 8 * ?n)"
    using chk_addI [of rs "rz div 8 * ?n"] 5(2) ns by simp
  have 7: "\<exists>c'. set_app_regions rs rz ?n p c = Some c'"
    using n un fit by (intro set_app_regions_total [OF geo _ _ len]) auto
  show ?thesis
    using len loc 1(1) 2(1) 3(1) 4 5(1) 6 7
    by (auto simp: cm_update_app_memory_region_def slice_get_def Let_def)
qed

lemma update_at_start_panics:
  assumes "location (regions c ! 0) = Some (rs, rz)" "regions c \<noteq> []" "app_geometry rs rz" "rs \<le> kb"
  shows "cm_update_app_memory_region rs kb p c = None"
proof -
  obtain s where s: "unat (rz div 8) = s" "32 \<le> s"
    by (rule app_geometryE [OF assms(3)]) (simp add: unat_div)
  then have "rz div 8 \<noteq> 0" by auto
  moreover have "(rz div 8 - 1) div (rz div 8) = 0"
    using s by (simp add: word_unat_eq_iff unat_div unat_sub word_le_nat_alt)
  moreover have "1 \<le> rz div 8" "\<not> kb < rs"
    using s assms(4) by (simp_all add: word_le_nat_alt not_less)
  moreover have "unat (rz div 8) < 2 ^ 32" "unat rs < 2 ^ 32"
    using unat_less_2p [of rs] unat_less_2p [of "rz div 8"] by simp_all
  ultimately show ?thesis
    using assms(1,2)
    by (simp add: cm_update_app_memory_region_def slice_get_def Let_def chk_sub_def chk_add_def chk_div_def
        chk_mul_def set_app_regions_def)
qed

section \<open>Placing the memory of a process\<close>

lemma align_up_cases:
  assumes "align_up start al = Some r"
  obtains (aligned) "0 < unat al" "unat start mod unat al = 0" "unat r = unat start"
    | (moved) "0 < unat al" "unat r = unat start + (unat al - unat start mod unat al)"
proof -
  have al: "al \<noteq> 0" using assms by (auto simp: align_up_def chk_mod_def)
  then have "0 < unat al" by (simp add: unat_gt_0)
  show ?thesis
  proof (cases "start mod al = 0")
    case True
    then have "unat start mod unat al = 0" using unat_mod [of start al] by simp
    moreover have "r = start"
      using assms al True by (simp add: align_up_def chk_mod_def)
    ultimately show ?thesis
      using \<open>0 < unat al\<close> by (intro aligned) simp_all
  next
    case False
    then obtain d where "chk_sub al (start mod al) = Some d" "chk_add start d = Some r"
      using assms al by (auto simp: align_up_def chk_mod_def bind_eq_Some_conv)
    then have "unat al = unat start mod unat al + unat d" "unat r = unat start + unat d"
      unfolding chk_sub_eq_Some chk_add_eq_Some unat_mod by simp_all
    then have "unat r = unat start + (unat al - unat start mod unat al)" by arith
    then show ?thesis
      by (rule moved [OF \<open>0 < unat al\<close>])
  qed
qed

lemma align_upE:
  assumes "align_up start al = Some r"
  shows "unat start \<le> unat r" "unat r mod unat al = 0" "unat r < unat start + unat al + 1"
proof -
  have "unat start \<le> unat r \<and> unat r mod unat al = 0 \<and> unat r < unat start + unat al + 1"
    using assms
  proof (cases rule: align_up_cases)
    case moved
    have "unat r = unat start - unat start mod unat al + unat al"
      using moved mod_less_divisor [OF moved(1), of "unat start"]
        mod_less_eq_dividend [of "unat start" "unat al"] by linarith
    then have "unat r mod unat al = 0"
      by (simp add: minus_mod_eq_div_mult)
    moreover have "unat al - unat start mod unat al \<le> unat al" by simp
    ultimately show ?thesis unfolding moved(2) by linarith
  qed simp
  then show "unat start \<le> unat r" "unat r mod unat al = 0" "unat r < unat start + unat al + 1"
    by blast+
qed

lemma subregions_for_app_eq:
  "subregions_for_app ia rz = Some n \<Longrightarrow> unat n = unat ia * 8 div unat rz + 1 \<and> 0 < unat rz"
  by (auto simp: subregions_for_app_def bind_eq_Some_conv checked_arith chk_div_def unat_div unat_gt_0
      split: if_splits)

lemma half_geometry:
  assumes "unat sz = 2 ^ Suc k" "8 \<le> k" "align_up s (sz div 2) = Some r"
  shows "app_geometry r (sz div 2)"
proof -
  have "unat (sz div 2) = 2 ^ k" using assms(1) by (simp add: unat_div)
  then show ?thesis
    using assms(2) align_upE(2) [OF assms(3)] by (auto simp: app_geometry_def)
qed

lemma double_geometry:
  assumes "unat sz = 2 ^ Suc k" "8 \<le> k" "chk_mul (sz div 2) 2 = Some rz" "align_up s rz = Some r"
  shows "app_geometry r rz"
proof -
  have "unat rz = 2 ^ Suc k" using assms(1,3) by (simp add: checked_arith unat_div)
  then show ?thesis
    using assms(2) align_upE(2) [OF assms(4)] by (auto simp: app_geometry_def intro!: exI [of _ "Suc k"])
qed

lemma block_size:
  assumes "closest_power_of_two m = Some po2"
  obtains k where "8 \<le> k" "unat (if log_base_two po2 < 9 then 512 else po2) = 2 ^ Suc k"
    "unat m \<le> unat (if log_base_two po2 < 9 then 512 else po2)"
proof -
  obtain k where k: "unat po2 = 2 ^ k" "unat m \<le> unat po2"
    using assms by (rule closest_power_of_two_SomeE)
  have log: "unat (log_base_two po2) = k" by (rule log_base_two_power [OF k(1)])
  show ?thesis
  proof (cases "log_base_two po2 < 9")
    case True
    then have "k < 9" using log by (simp add: word_less_nat_alt)
    then have "unat po2 \<le> 2 ^ 9" unfolding k(1) by (intro power_increasing) auto
    then show ?thesis using that [of 8] True k(2) by simp
  next
    case False
    then obtain j where "k = Suc j" "8 \<le> j" using log by (cases k) (auto simp: word_less_nat_alt)
    then show ?thesis using that [of j] False k by simp
  qed
qed

lemma place_app_memoryE:
  assumes "place_app_memory s sz ia ik = Some (st, rz, m)" "unat sz = 2 ^ Suc k" "8 \<le> k"
  shows "app_geometry st rz" "unat m = unat ia * 8 div unat rz + 1" "unat s \<le> unat st"
    "unat sz = 2 * unat rz \<or> sz = rz"
proof -
  obtain st0 m0 where st0: "align_up s (sz div 2) = Some st0"
    and m0: "subregions_for_app ia (sz div 2) = Some m0"
    and alt: "st = st0 \<and> rz = sz div 2 \<and> m = m0 \<or>
      chk_mul (sz div 2) 2 = Some rz \<and> align_up st0 rz = Some st \<and> subregions_for_app ia rz = Some m"
    using assms(1) unfolding place_app_memory_def Let_def
    by (auto simp: bind_eq_Some_conv split: if_splits)
  have half: "unat (sz div 2) = 2 ^ k" using assms(2) by (simp add: unat_div)
  show "app_geometry st rz"
    using alt half_geometry [OF assms(2,3) st0] double_geometry [OF assms(2,3)] by blast
  show "unat m = unat ia * 8 div unat rz + 1"
    using alt m0 subregions_for_app_eq by blast
  show "unat s \<le> unat st"
    using alt align_upE(1) [OF st0] align_upE(1) [of st0 rz st] by auto
  show "unat sz = 2 * unat rz \<or> sz = rz"
    using alt half assms(2) by (auto simp: checked_arith word_unat_eq_iff)
qed

lemma allocate_app_okE:
  assumes "cm_allocate_app_memory_region s n min_sz ia ik p c = Some (Some (st, sz), c')"
  obtains rz m where "set_app_regions st rz m p c = Some c'" "app_geometry st rz"
    "unat m = unat ia * 8 div unat rz + 1" "unat s \<le> unat st" "unat st + unat sz \<le> unat s + unat n"
    "unat min_sz \<le> unat sz" "unat ia + unat ik \<le> unat sz" "unat sz = 2 * unat rz \<or> sz = rz"
proof -
  obtain total po2 rz m where t: "chk_add ia ik = Some total"
    and po2: "closest_power_of_two (max min_sz total) = Some po2"
    and sz: "sz = (if log_base_two po2 < 9 then 512 else po2)"
    and place: "place_app_memory s sz ia ik = Some (st, rz, m)"
    and fit: "unat st + unat sz \<le> unat s + unat n" and set: "set_app_regions st rz m p c = Some c'"
  proof -
    show thesis if *: "\<And>total po2 rz m. \<lbrakk>chk_add ia ik = Some total;
        closest_power_of_two (max min_sz total) = Some po2; sz = (if log_base_two po2 < 9 then 512 else po2);
        place_app_memory s sz ia ik = Some (st, rz, m); unat st + unat sz \<le> unat s + unat n;
        set_app_regions st rz m p c = Some c'\<rbrakk> \<Longrightarrow> thesis"
      using assms unfolding cm_allocate_app_memory_region_def Let_def
      by (elim monad_elims; simp)
        (rule *, assumption, assumption, rule sym, assumption, assumption,
          simp add: chk_add_eq_Some word_less_nat_alt, assumption)
  qed
  have ml: "unat min_sz \<le> unat (max min_sz total)" "unat ia + unat ik \<le> unat (max min_sz total)"
    using t by (auto simp: checked_arith max_def word_le_nat_alt)
  obtain k where k: "8 \<le> k" "unat sz = 2 ^ Suc k" "unat (max min_sz total) \<le> unat sz"
    unfolding sz using po2 by (rule block_size)
  show ?thesis
    using that [OF set] place_app_memoryE [OF place k(2,1)] fit ml k(3) by linarith
qed

text \<open>
  The block lies in the memory offered and is large enough, and the enabled subregions cover the
  initial application memory exactly from the start of the block.
\<close>

lemma allocate_app_permits:
  assumes al: "cm_allocate_app_memory_region s n min_sz ia ik p c = Some (Some (st, sz), c')"
    and p: "p \<noteq> ExecuteOnly"
  shows "unat s \<le> unat st" "unat st + unat sz \<le> unat s + unat n" "unat min_sz \<le> unat sz"
    "unat ia + unat ik \<le> unat sz" "unat st \<le> a \<Longrightarrow> a < unat st + unat ia \<Longrightarrow> app_permits c' a"
    "app_permits c' a \<Longrightarrow> unat st \<le> a"
    "\<exists>rz. location (regions c' ! 0) = Some (st, rz) \<and> app_geometry st rz"
proof -
  obtain rz m where set: "set_app_regions st rz m p c = Some c'" and geo: "app_geometry st rz"
    and m: "unat m = unat ia * 8 div unat rz + 1"
    and b: "unat s \<le> unat st" "unat st + unat sz \<le> unat s + unat n"
      "unat min_sz \<le> unat sz" "unat ia + unat ik \<le> unat sz"
    by (rule allocate_app_okE [OF al])
  show "unat s \<le> unat st" "unat st + unat sz \<le> unat s + unat n"
      "unat min_sz \<le> unat sz" "unat ia + unat ik \<le> unat sz" by (fact b)+
  obtain k q where g: "unat rz = 2 ^ k" "3 \<le> k" "unat rz = 8 * q" "unat rz div 8 = q" "32 \<le> q"
    by (rule app_geometryE [OF geo])
  have "unat m = unat ia div q + 1" using m g(3) by simp
  then have "unat ia < unat m * q"
    using dividend_less_times_div [of q "unat ia"] g(5) by (simp add: mult.commute)
  then show "unat st \<le> a \<Longrightarrow> a < unat st + unat ia \<Longrightarrow> app_permits c' a"
    using set_app_regions_permits [OF set geo p] g(4) by simp
  show "app_permits c' a \<Longrightarrow> unat st \<le> a"
    using set_app_regions_permits [OF set geo p] by simp
  show "\<exists>rz. location (regions c' ! 0) = Some (st, rz) \<and> app_geometry st rz"
    using set_app_regions_frame(1) [OF set] geo by blast
qed

section \<open>The contract\<close>

lemma place_region_bounds:
  assumes "place_region st sz = Some (st', sz', rs, rz, subs)"
  shows "unat st \<le> unat st'" "unat sz \<le> unat sz'"
proof -
  have "unat st \<le> unat st' \<and> unat sz \<le> unat sz'"
    using assms unfolding place_region_def Let_def
    by (elim monad_elims; clarsimp simp: checked_arith dest!: align_upE(1))
      (metis align_upE(1) closest_power_of_two_SomeE le_trans)+
  then show "unat st \<le> unat st'" "unat sz \<le> unat sz'" by blast+
qed

lemma allocate_region_cases:
  assumes "cm_allocate_region M s n min_sz p c = Some (res, c')"
  obtains "res = None" "c' = c"
  | num st sz st' sz' rs rz subs r where
    "any_overlaps (regions c) s n = Some False" "unused_region_number c = Some num"
    "align_up s M = Some st" "sz = (if min_sz < M then M else min_sz)"
    "place_region st sz = Some (st', sz', rs, rz, subs)" "unat st' + unat sz' \<le> unat s + unat n"
    "CortexMRegion_new st' sz' rs rz num subs p = Some r" "num < length (regions c)"
    "c' = c\<lparr>regions := (regions c)[num := r], is_dirty := True\<rparr>" "res = Some (Region_new st' sz')"
  using assms unfolding cm_allocate_region_def Let_def
proof (elim monad_elims, goal_cases)
  case 4
  then show ?case
    by clarify
      (rule that(2), simp, assumption, assumption, rule refl, assumption,
        simp add: chk_add_eq_Some word_less_nat_alt, assumption, simp_all add: slice_access)
qed (clarify, rule that(1), simp, simp)+

lemma update_Err_unchanged:
  assumes "cm_update_app_memory_region ab kb p c = Some (Inl (), c')"
  shows "c' = c"
  using assms unfolding cm_update_app_memory_region_def Let_def
  by (elim monad_elims) auto

lemma update_Ok_order:
  assumes "cm_update_app_memory_region ab kb p c = Some (Inr (), c')"
  shows "ab \<le> kb"
  using assms unfolding cm_update_app_memory_region_def Let_def
  by (elim monad_elims) auto

lemma allocate_app_None:
  assumes "cm_allocate_app_memory_region s n min_sz ia ik p c = Some (None, c')"
  shows "c' = c"
  using assms unfolding cm_allocate_app_memory_region_def Let_def
  by (elim monad_elims) auto

lemma remove_Err_unchanged:
  assumes "cm_remove_memory_region r c = Some (Inl (), c')"
  shows "c' = c"
  using assms unfolding cm_remove_memory_region_def
  by (elim monad_elims) auto

lemma allocate_region_bounds:
  assumes "cm_allocate_region M s n min_sz p c = Some (Some r, c')"
  shows "unat s \<le> unat (Region_start r) \<and> unat min_sz \<le> unat (Region_size r) \<and>
         unat (Region_start r) + unat (Region_size r) \<le> unat s + unat n"
  using assms
proof (cases rule: allocate_region_cases)
  case (2 num st sz st' sz' rs rz subs r')
  have "unat min_sz \<le> unat sz" using 2(4) by (auto simp: word_less_nat_alt)
  then show ?thesis
    using 2(6,10) align_upE(1) [OF 2(3)] place_region_bounds [OF 2(5)] by (auto simp: Region_new_def)
qed simp

interpretation cm_contract: mpu_contract "cortexm_mpu NUM_REGIONS MIN_REGION_SIZE"
proof unfold_locales
  fix s n min_sz app_sz ker_sz :: usize and p st sz c c'
  assume "mpu_allocate_app_memory_region (cortexm_mpu NUM_REGIONS MIN_REGION_SIZE) s n min_sz app_sz ker_sz p c =
    Some (Some (st, sz), c')"
  then show "s \<le> st \<and> unat st + unat sz \<le> unat s + unat n \<and> min_sz \<le> sz \<and> unat app_sz + unat ker_sz \<le> unat sz"
    by (auto simp: cortexm_mpu_def word_le_nat_alt elim: allocate_app_okE)
qed (auto simp: cortexm_mpu_def word_le_nat_alt dest: update_Err_unchanged update_Ok_order [unfolded word_le_nat_alt]
    allocate_app_None remove_Err_unchanged allocate_region_bounds elim: allocate_region_cases)

section \<open>Loading a configuration\<close>

definition config_wf :: "CortexMConfig \<Rightarrow> bool" where
  "config_wf c \<longleftrightarrow> length (regions c) \<le> 16 \<and>
     (\<forall>i < length (regions c). Field_read RBAR_REGION (fv_value (base_address (regions c ! i))) = of_nat i)"

definition hw_matches :: "cortexm_hw \<Rightarrow> CortexMConfig \<Rightarrow> bool" where
  "hw_matches hw c \<longleftrightarrow>
     (\<forall>i < length (regions c). rbar_regs hw i = fv_value (base_address (regions c ! i)) \<and>
        rasr_regs hw i = fv_value (attributes (regions c ! i)))"

definition cache_ok :: "cortexm_hw \<Rightarrow> CortexMConfig \<Rightarrow> bool" where
  "cache_ok hw c \<longleftrightarrow>
     (hardware_is_configured_for hw = Some (config_id c) \<and> \<not> is_dirty c \<longrightarrow> hw_matches hw c)"

lemma app_mpu_ctrl:
  "Field_read CTRL_ENABLE (ctrl_reg (cm_enable_app_mpu hw)) = 1" "Field_read CTRL_PRIVDEFENA (ctrl_reg (cm_enable_app_mpu hw)) = 1"
  "Field_read CTRL_ENABLE (ctrl_reg (cm_disable_app_mpu hw)) = 0"
  by (simp add: cm_enable_app_mpu_def cm_disable_app_mpu_def reg_write_def, code_simp)+

lemma app_mpu_regions [simp]:
  "hw_matches (cm_enable_app_mpu hw) c = hw_matches hw c" "hw_matches (cm_disable_app_mpu hw) c = hw_matches hw c"
  "cache_ok (cm_enable_app_mpu hw) c = cache_ok hw c" "cache_ok (cm_disable_app_mpu hw) c = cache_ok hw c"
  by (simp_all add: hw_matches_def cache_ok_def cm_enable_app_mpu_def cm_disable_app_mpu_def)

lemma write_region_other:
  "unat (Field_read RBAR_REGION (fv_value (base_address r))) \<noteq> n \<Longrightarrow>
     rbar_regs (write_region r hw) n = rbar_regs hw n \<and> rasr_regs (write_region r hw) n = rasr_regs hw n"
  by (auto simp: write_region_def Let_def)

lemma fold_write_region:
  assumes "\<forall>i < length rs. unat (Field_read RBAR_REGION (fv_value (base_address (rs ! i)))) = off + i"
  shows "(\<forall>i < length rs. rbar_regs (fold write_region rs hw) (off + i) = fv_value (base_address (rs ! i)) \<and>
            rasr_regs (fold write_region rs hw) (off + i) = fv_value (attributes (rs ! i))) \<and>
         (\<forall>j < off. rbar_regs (fold write_region rs hw) j = rbar_regs hw j \<and>
            rasr_regs (fold write_region rs hw) j = rasr_regs hw j)"
  using assms
proof (induction rs arbitrary: off hw)
  case (Cons r rs)
  have r: "unat (Field_read RBAR_REGION (fv_value (base_address r))) = off"
    using Cons.prems by force
  have "\<forall>i < length rs. unat (Field_read RBAR_REGION (fv_value (base_address (rs ! i)))) = Suc off + i"
    using Cons.prems by force
  note IH = Cons.IH [OF this, of "write_region r hw"]
  have "rbar_regs (write_region r hw) off = fv_value (base_address r) \<and>
        rasr_regs (write_region r hw) off = fv_value (attributes r)"
    using r by (simp add: write_region_def Let_def)
  then have off: "rbar_regs (fold write_region rs (write_region r hw)) off = fv_value (base_address r)"
      "rasr_regs (fold write_region rs (write_region r hw)) off = fv_value (attributes r)"
    using IH by simp_all
  have rest: "rbar_regs (fold write_region rs (write_region r hw)) (off + Suc i) = fv_value (base_address (rs ! i))"
      "rasr_regs (fold write_region rs (write_region r hw)) (off + Suc i) = fv_value (attributes (rs ! i))"
    if "i < length rs" for i
    using IH that by simp_all
  have low: "rbar_regs (fold write_region rs (write_region r hw)) j = rbar_regs hw j"
      "rasr_regs (fold write_region rs (write_region r hw)) j = rasr_regs hw j" if "j < off" for j
    using IH that r write_region_other [of r j hw] by simp_all
  show ?case
  proof (intro conjI allI impI; (simp only: fold_simps)?)
    fix i assume i: "i < length (r # rs)"
    show "rbar_regs (fold write_region rs (write_region r hw)) (off + i) = fv_value (base_address ((r # rs) ! i))"
      using i off rest by (cases i) simp_all
    show "rasr_regs (fold write_region rs (write_region r hw)) (off + i) = fv_value (attributes ((r # rs) ! i))"
      using i off rest by (cases i) simp_all
  qed (use low in simp_all)
qed simp

lemma configure_loads:
  assumes wf: "config_wf c" and ok: "cache_ok hw c" and conf: "cm_configure_mpu hw c = (hw', c')"
  shows "hw_matches hw' c'" "hardware_is_configured_for hw' = Some (config_id c)"
    "regions c' = regions c" "config_id c' = config_id c" "\<not> is_dirty c'"
proof -
  have "unat (of_nat i :: u32) = i" if "i < length (regions c)" for i
    using wf that by (simp add: config_wf_def unat_of_nat)
  then have "\<forall>i < length (regions c).
      unat (Field_read RBAR_REGION (fv_value (base_address (regions c ! i)))) = 0 + i"
    using wf by (simp add: config_wf_def)
  from fold_write_region [OF this, of hw] show "hw_matches hw' c'"
    using conf ok by (auto simp: cm_configure_mpu_def hw_matches_def cache_ok_def split: if_splits)
  show "hardware_is_configured_for hw' = Some (config_id c)"
    "regions c' = regions c" "config_id c' = config_id c" "\<not> is_dirty c'"
    using conf by (auto simp: cm_configure_mpu_def split: if_splits)
qed

lemma region_number_ok: "n < 16 \<Longrightarrow> take_bit 4 (of_nat n :: u32) = of_nat n"
  by (simp add: take_bit_of_nat take_bit_nat_eq_self)

lemma empty_region_number:
  "Field_read RBAR_REGION (fv_value (base_address (CortexMRegion_empty n))) = take_bit 4 (of_nat n)"
  by (simp add: CortexMRegion_empty_def bitfields register_fields field_reads)

lemma config_wf_update:
  assumes "config_wf c" "i < length (regions c)"
    "Field_read RBAR_REGION (fv_value (base_address r)) = take_bit 4 (of_nat i)"
  shows "config_wf (c\<lparr>regions := (regions c)[i := r], is_dirty := d\<rparr>)"
  using assms region_number_ok [of i] by (auto simp: config_wf_def nth_list_update)

lemma config_wf_reset: "length (regions c) \<le> 16 \<Longrightarrow> config_wf (cm_reset_config c)"
  by (auto simp: config_wf_def cm_reset_config_def empty_region_number region_number_ok)

lemma config_wf_set_app_regions:
  assumes "config_wf c" "set_app_regions rs rz n p c = Some c'"
  shows "config_wf c'"
proof -
  obtain l0 r0 r1 where r0: "CortexMRegion_new rs rz rs rz 0 (Some (0, l0)) p = Some r0"
    and r1: "if n \<le> 8 then r1 = CortexMRegion_empty 1
     else \<exists>s1 l1. chk_add rs rz = Some s1 \<and> chk_sub (n - 8) 1 = Some l1 \<and>
            CortexMRegion_new s1 rz s1 rz 1 (Some (0, l1)) p = Some r1"
    and c': "1 < length (regions c)" "c' = c\<lparr>regions := (regions c)[0 := r0, 1 := r1], is_dirty := True\<rparr>"
    by (rule set_app_regionsE [OF assms(2)])
  have "Field_read RBAR_REGION (fv_value (base_address r1)) = take_bit 4 (of_nat 1)"
    using r1 region_new_registers(3) [of _ rz _ rz 1] empty_region_number [of 1]
    by (auto split: if_splits simp del: of_nat_1)
  moreover have "0 < length (regions c)" using c'(1) by linarith
  ultimately show ?thesis
    using config_wf_update [OF config_wf_update [OF assms(1) _ region_new_registers(3) [OF r0], of True], of 1 r1 True]
      c' by simp
qed

lemma config_wf_operations:
  assumes "config_wf c"
  shows "cm_update_app_memory_region ab kb p c = Some (ru, c') \<Longrightarrow> config_wf c'"
    "cm_allocate_app_memory_region s n min_sz ia ik p c = Some (ra, c') \<Longrightarrow> config_wf c'"
    "cm_allocate_region M s n min_sz p c = Some (rg, c') \<Longrightarrow> config_wf c'"
    "cm_remove_memory_region r c = Some (rm, c') \<Longrightarrow> config_wf c'"
proof -
  show "cm_update_app_memory_region ab kb p c = Some (ru, c') \<Longrightarrow> config_wf c'"
    unfolding cm_update_app_memory_region_def Let_def
    using assms by (elim monad_elims) (auto dest: config_wf_set_app_regions)
  show "cm_allocate_app_memory_region s n min_sz ia ik p c = Some (ra, c') \<Longrightarrow> config_wf c'"
    unfolding cm_allocate_app_memory_region_def Let_def
    using assms by (elim monad_elims) (auto dest: config_wf_set_app_regions)
  show "cm_remove_memory_region r c = Some (rm, c') \<Longrightarrow> config_wf c'"
    unfolding cm_remove_memory_region_def using assms config_wf_update [OF assms]
    by (elim monad_elims) (auto simp: slice_access empty_region_number)
  show "config_wf c'" if "cm_allocate_region M s n min_sz p c = Some (rg, c')"
    using that
  proof (cases rule: allocate_region_cases)
    case (2 num st sz st' sz' rs rz subs r)
    then show ?thesis
      using config_wf_update [OF assms] region_new_registers(3) by blast
  qed (simp add: assms)
qed

lemma dirty_operations:
  shows "cm_update_app_memory_region ab kb p c = Some (ru, c') \<Longrightarrow> c' = c \<or> is_dirty c'"
    "cm_allocate_app_memory_region s n min_sz ia ik p c = Some (ra, c') \<Longrightarrow> c' = c \<or> is_dirty c'"
    "cm_allocate_region M s n min_sz p c = Some (rg, c') \<Longrightarrow> c' = c \<or> is_dirty c'"
    "cm_remove_memory_region r c = Some (rm, c') \<Longrightarrow> c' = c \<or> is_dirty c'"
proof -
  show "cm_update_app_memory_region ab kb p c = Some (ru, c') \<Longrightarrow> c' = c \<or> is_dirty c'"
    unfolding cm_update_app_memory_region_def Let_def
    by (elim monad_elims) (auto dest: set_app_regions_frame(4))
  show "cm_allocate_app_memory_region s n min_sz ia ik p c = Some (ra, c') \<Longrightarrow> c' = c \<or> is_dirty c'"
    unfolding cm_allocate_app_memory_region_def Let_def
    by (elim monad_elims) (auto dest: set_app_regions_frame(4))
  show "cm_remove_memory_region r c = Some (rm, c') \<Longrightarrow> c' = c \<or> is_dirty c'"
    unfolding cm_remove_memory_region_def by (elim monad_elims) auto
  show "c' = c \<or> is_dirty c'" if "cm_allocate_region M s n min_sz p c = Some (rg, c')"
    using that by (cases rule: allocate_region_cases) auto
qed

section \<open>What an allocated region exposes\<close>

lemma count_ones_power:
  assumes "count_ones (w :: 'a::len word) \<le> 1" "w \<noteq> 0"
  shows "\<exists>k. unat w = 2 ^ k"
proof -
  have "w = 0" if "\<forall>i. \<not> bit w i"
    using that by (intro bit_word_eqI) simp
  then obtain i where i: "bit w i" using assms(2) by blast
  have iL: "i < LENGTH('a)" by (rule bit_imp_le_length [OF i])
  have "j = i" if "bit w j" for j
  proof (rule ccontr)
    assume "j \<noteq> i"
    have "{i, j} \<subseteq> set (filter (bit w) [0..<LENGTH('a)])"
      using i that iL bit_imp_le_length [OF that] by auto
    from card_mono [OF finite_set this] have "card {i, j} \<le> count_ones w"
      unfolding count_ones_def by (rule le_trans [OF _ card_length])
    then show False using \<open>j \<noteq> i\<close> assms(1) by simp
  qed
  then have "bit w j \<longleftrightarrow> j = i" for j using i by blast
  then have "w = 2 ^ i"
    using iL by (intro bit_word_eqI) (simp add: bit_exp_iff eq_commute)
  then have "unat w = 2 ^ i" using iL by (simp add: unat_2p)
  then show ?thesis by blast
qed

lemma trailing_zeros_dvd:
  assumes "trailing_zeros (w :: 'a::len word) = t"
  shows "2 ^ t dvd unat w"
proof -
  let ?bs = "map (bit w) [0..<LENGTH('a)]"
  have "\<not> bit w j" if "j < t" for j
  proof -
    have j: "j < length (takeWhile Not ?bs)" using that assms by (simp add: trailing_zeros_def)
    also have "\<dots> \<le> LENGTH('a)" using length_takeWhile_le [of Not ?bs] by simp
    finally have "takeWhile Not ?bs ! j = bit w j"
      by (simp add: takeWhile_nth [OF j])
    then show ?thesis using set_takeWhileD [OF nth_mem [OF j]] by simp
  qed
  then have "take_bit t w = 0"
    by (intro bit_word_eqI) (auto simp: bit_simps)
  then have "take_bit t (unat w) = 0"
    by (metis unsigned_take_bit_eq unsigned_0)
  then show ?thesis by (simp add: take_bit_eq_0_iff)
qed

lemma subregion_size_for_power:
  assumes "subregion_size_for st sz = Some ss"
  obtains t where "unat ss = 2 ^ t" "2 ^ t dvd unat st"
proof (cases "trailing_zeros st < 32")
  case True
  then have "ss = 2 ^ trailing_zeros st"
    using assms by (simp add: subregion_size_for_def push_bit_eq_mult)
  then have "unat ss = 2 ^ trailing_zeros st"
    using True by (simp add: unat_2p)
  then show ?thesis using that trailing_zeros_dvd by blast
next
  case False
  obtain ce where ce: "closest_power_of_two sz = Some ce" "ss = (if ce < 256 then 256 else ce) div 8"
    using assms False by (auto simp: subregion_size_for_def bind_eq_Some_conv)
  obtain k where k: "unat ce = 2 ^ k" using ce(1) by (rule closest_power_of_two_SomeE)
  have "2 ^ 32 dvd unat st"
    using False trailing_zeros_dvd [of st] by (meson dvd_trans le_imp_power_dvd not_less)
  then have st: "unat st = 0" using unat_less_2p [of st] nat_dvd_not_less [of "unat st" "2 ^ 32"] by auto
  show ?thesis
  proof (cases "ce < 256")
    case True
    then show ?thesis using that [of 5] ce(2) st by simp
  next
    case False
    then have "\<not> (2::nat) ^ k < 2 ^ 8" using k by (simp add: word_less_nat_alt)
    then have "8 \<le> k" using power_strict_increasing [of k 8 "2::nat"] by (cases "k < 8") auto
    then have "k = (k - 3) + 3" by simp
    then obtain j where "k = j + 3" by blast
    then have "unat ss = 2 ^ j" using ce(2) False k by (simp add: unat_div power_add)
    then show ?thesis using that st by simp
  qed
qed

definition exposes :: "usize \<Rightarrow> usize \<Rightarrow> (usize \<times> usize) option \<Rightarrow> nat \<Rightarrow> bool" where
  "exposes rs rz subs a \<longleftrightarrow> unat rs \<le> a \<and> a < unat rs + unat rz \<and>
     in_subregions subs ((a - unat rs) div (unat rz div 8))"

lemma subregion_window:
  fixes st sz ss rs mn mx a :: nat
  assumes "0 < ss" "ss dvd st" "rs = st - st mod (8 * ss)" "ss dvd sz" "0 < sz" "st + sz \<le> rs + 8 * ss"
    "mn = (st - rs) div ss" "Suc mx = mn + sz div ss"
  shows "rs \<le> a \<and> a < rs + 8 * ss \<and> mn \<le> (a - rs) div ss \<and> (a - rs) div ss \<le> mx \<longleftrightarrow>
         st \<le> a \<and> a < st + sz"
proof -
  have "rs \<le> st" using assms(3) by simp
  have "st - rs = st mod (8 * ss)"
    using assms(3) mod_less_eq_dividend [of st "8 * ss"] by simp
  then have "ss dvd st - rs" using assms(2) by (simp add: dvd_mod)
  then have mn: "mn * ss = st - rs" using assms(7) by simp
  have q: "sz div ss * ss = sz" using assms(4) by simp
  have "(mn + sz div ss) * ss = st - rs + sz"
    using mn q by (simp only: add_mult_distrib)
  moreover have "(a - rs) div ss \<le> mx \<longleftrightarrow> (a - rs) div ss < mn + sz div ss"
    using assms(8) by linarith
  ultimately have "(a - rs) div ss \<le> mx \<longleftrightarrow> a - rs < st - rs + sz"
    using assms(1) by (simp add: div_less_iff_less_mult)
  moreover have "mn \<le> (a - rs) div ss \<longleftrightarrow> st - rs \<le> a - rs"
    using assms(1) mn by (simp add: less_eq_div_iff_mult_less_eq)
  ultimately show ?thesis
    using assms(5,6) \<open>rs \<le> st\<close> by auto
qed

lemma place_region_cases:
  assumes "place_region st sz = Some (st', sz', rs, rz, subs)" "0 < unat sz"
  obtains (exact) k where "unat sz = 2 ^ k" "unat st mod unat sz = 0" "st' = st" "sz' = sz" "rs = st" "rz = sz"
      "subs = None"
  | (window) ss mn mx where "subregion_size_for st sz = Some ss" "unat rz = 8 * unat ss"
      "unat rs = unat st - unat st mod (8 * unat ss)" "align_up sz ss = Some sz'" "st' = st" "32 \<le> unat ss"
      "unat st + unat sz' \<le> unat rs + unat rz" "subs = Some (mn, mx)"
      "unat mn = (unat st - unat rs) div unat ss" "Suc (unat mx) = unat mn + unat sz' div unat ss"
  | (moved) sz1 k where "unat sz \<le> unat sz1" "closest_power_of_two sz1 = Some sz'" "unat sz' = 2 ^ k"
      "unat st' = unat st + (unat sz' - unat st mod unat sz')" "rs = st'" "rz = sz'" "subs = None"
  using assms(1) unfolding place_region_def
proof (elim monad_elims, goal_cases)
  case (1 off ss rz' r rs' sz1 e e' d mn n m mx)
  have rz': "unat rz' = 8 * unat ss" using 1(7) by (simp add: chk_mul_eq_Some)
  have rs': "unat rs' = unat st - unat st mod (8 * unat ss)"
    using 1(8,9) rz' unat_mod [of st rz'] by (simp add: chk_mod_def chk_sub_eq_Some split: if_splits)
  have mn: "unat mn = (unat st - unat rs') div unat ss" and n: "unat n = unat sz1 div unat ss"
    using 1(14,15,16) by (auto simp: chk_div_def chk_sub_eq_Some unat_div split: if_splits)
  have "Suc (unat mx) = unat mn + unat n"
    using 1(17,18) by (simp add: chk_add_eq_Some chk_sub_eq_Some)
  moreover have "unat st + unat sz1 \<le> unat rs' + unat rz'"
    using 1(11,12,13) by (simp add: chk_add_eq_Some word_le_nat_alt)
  moreover have "st' = st" "sz' = sz1" "rs = rs'" "rz = rz'" "subs = Some (mn, mx)"
    using 1(19) by auto
  moreover have "32 \<le> unat ss" using 1(13) by (simp add: word_le_nat_alt)
  ultimately show ?case
    using 1(6,10) rz' rs' mn n by (intro window [of ss mn mx]) simp_all
next
  case (2 off ss v r v2 sz1 e v3 sz2 r2 d st2)
  have "unat sz \<le> unat sz1" using align_upE(1) [OF 2(10)] .
  moreover obtain k where "unat sz2 = 2 ^ k" using 2(14) by (rule closest_power_of_two_SomeE)
  moreover have "unat st2 = unat st + (unat sz2 - unat st mod unat sz2)"
    using 2(15,16,17) unat_mod [of st sz2]
    by (simp add: chk_mod_def chk_sub_eq_Some chk_add_eq_Some split: if_splits)
  moreover have "st' = st2" "sz' = sz2" "rs = st2" "rz = sz2" "subs = None"
    using 2(18) by auto
  ultimately show ?case
    using 2(14) by (intro moved [of sz1 k]) simp_all
next
  case (3 off)
  have "count_ones sz \<le> 1" "unat st mod unat sz = 0" "sz \<noteq> 0"
    using 3(4,5) unat_mod [of st sz] by (simp_all add: chk_mod_def split: if_splits)
  moreover obtain k where "unat sz = 2 ^ k" using count_ones_power calculation by blast
  moreover have "st' = st" "sz' = sz" "rs = st" "rz = sz" "subs = None"
    using 3(6) by auto
  ultimately show ?case by (intro exact [of k]) simp_all
qed


lemma place_region_exposes:
  assumes place: "place_region st sz = Some (st', sz', rs, rz, subs)" and sz: "32 \<le> unat sz"
  shows "\<exists>k\<ge>5. unat rz = 2 ^ k \<and> unat rs mod 2 ^ k = 0"
    and "exposes rs rz subs a \<longleftrightarrow> unat st' \<le> a \<and> a < unat st' + unat sz'"
proof -
  have ge5: "5 \<le> k" if "32 \<le> (2::nat) ^ k" for k
    using that power_strict_increasing [of k 5 "2::nat"] by (cases "k < 5") auto
  have pos: "0 < unat sz" using sz by simp
  have "(\<exists>k\<ge>5. unat rz = 2 ^ k \<and> unat rs mod 2 ^ k = 0) \<and>
      (exposes rs rz subs a \<longleftrightarrow> unat st' \<le> a \<and> a < unat st' + unat sz')"
    using place pos
  proof (cases rule: place_region_cases)
    case (exact k)
    then show ?thesis using sz ge5 [of k] by (auto simp: exposes_def in_subregions_def)
  next
    case (window ss mn mx)
    obtain t where t: "unat ss = 2 ^ t" "2 ^ t dvd unat st"
      using window(1) by (rule subregion_size_for_power)
    have "5 \<le> t" using window(6) t ge5 by simp
    have rz: "unat rz = 2 ^ (t + 3)" using window(2) t by (simp add: power_add)
    moreover have "unat rs mod 2 ^ (t + 3) = 0"
      using window(3) t(1) by (simp add: power_add minus_mod_eq_mult_div mult.commute)
    moreover have "exposes rs rz subs a \<longleftrightarrow> unat st \<le> a \<and> a < unat st + unat sz'"
    proof -
      have al: "unat ss dvd unat sz'" "0 < unat sz'"
        using align_upE(1,2) [OF window(4)] pos by (simp_all add: dvd_eq_mod_eq_0)
      have ss: "0 < unat ss" "unat ss dvd unat st" "unat rz div 8 = unat ss"
        using window(2,6) t by simp_all
      show ?thesis
        using subregion_window [OF ss(1,2) window(3) al window(7) [unfolded window(2)] window(9,10), of a]
        by (simp add: exposes_def in_subregions_def window(2,8) ss(3))
    qed
    ultimately show ?thesis using window(5) \<open>5 \<le> t\<close> by (auto intro!: exI [of _ "t + 3"])
  next
    case (moved sz1 k)
    have "unat sz1 \<le> unat sz'" using moved(2) by (rule closest_power_of_two_SomeE)
    then have "5 \<le> k" using sz moved(1,3) ge5 by simp
    have "unat st' = unat st - unat st mod unat sz' + unat sz'"
      using moved(3,4) mod_less_divisor [of "unat sz'" "unat st"] mod_less_eq_dividend [of "unat st" "unat sz'"]
      by simp
    then have "unat st' mod unat sz' = 0" by (simp add: minus_mod_eq_div_mult)
    then show ?thesis using moved \<open>5 \<le> k\<close> by (auto simp: exposes_def in_subregions_def)
  qed
  then show "\<exists>k\<ge>5. unat rz = 2 ^ k \<and> unat rs mod 2 ^ k = 0"
    and "exposes rs rz subs a \<longleftrightarrow> unat st' \<le> a \<and> a < unat st' + unat sz'" by blast+
qed

lemma unused_region_from_free:
  "unused_region_from off xs = Some m \<Longrightarrow>
     2 \<le> m \<and> off \<le> m \<and> m - off < length xs \<and> location (xs ! (m - off)) = None"
proof (induction off xs rule: unused_region_from.induct)
  case (2 n r rs)
  show ?case
  proof (cases "n \<le> APP_MEMORY_REGION_MAX_NUM \<or> location r \<noteq> None")
    case True
    then have "unused_region_from (Suc n) rs = Some m" using 2(3) by (auto split: if_splits)
    moreover then have "2 \<le> m \<and> Suc n \<le> m \<and> m - Suc n < length rs \<and> location (rs ! (m - Suc n)) = None"
      using 2(1,2) True by (cases "n \<le> APP_MEMORY_REGION_MAX_NUM") auto
    moreover then have "m - n = Suc (m - Suc n)" by linarith
    ultimately show ?thesis by simp
  next
    case False
    then have "location r = None" "1 < n" unfolding APP_MEMORY_REGION_MAX_NUM_def by linarith+
    then show ?thesis using 2(3) by (auto simp: APP_MEMORY_REGION_MAX_NUM_def)
  qed
qed simp

lemma allocate_region_permits:
  assumes al: "cm_allocate_region M s n min_sz p c = Some (Some r, c')"
    and M: "32 \<le> unat M" and p: "p \<noteq> ExecuteOnly"
  shows "\<exists>num < length (regions c). 2 \<le> num \<and> location (regions c ! num) = None \<and>
    (\<forall>a. region_permits (regions c' ! num) a \<longleftrightarrow>
       unat (Region_start r) \<le> a \<and> a < unat (Region_start r) + unat (Region_size r)) \<and>
    (\<forall>i. i \<noteq> num \<longrightarrow> regions c' ! i = regions c ! i)"
  using al
proof (cases rule: allocate_region_cases)
  case (2 num st sz st' sz' rs rz subs r')
  have sz: "32 \<le> unat sz" using 2(4) M by (auto simp: word_less_nat_alt)
  obtain k where k: "5 \<le> k" "unat rz = 2 ^ k" "unat rs mod 2 ^ k = 0"
    using place_region_exposes(1) [OF 2(5) sz] by (elim exE conjE) (rule that)
  have "2 ^ 5 dvd unat rs"
    using le_imp_power_dvd [OF k(1)] k(3) by (rule dvd_trans [OF _ mod_0_imp_dvd])
  then have "unat rs mod 32 = 0" by simp
  then have perm: "region_permits r' a \<longleftrightarrow> unat st' \<le> a \<and> a < unat st' + unat sz'" for a
    using region_permits_new [OF 2(7) k(2) _ _ p, of a] place_region_exposes(2) [OF 2(5) sz, of a] k(1)
    by (simp add: exposes_def)
  have "2 \<le> num \<and> location (regions c ! num) = None"
    using unused_region_from_free [OF 2(2) [unfolded unused_region_number_def]] by simp
  moreover have "r = \<lparr>Region_start = st', Region_size = sz'\<rparr>"
    using 2(10) by (simp add: Region_new_def)
  ultimately show ?thesis
    using 2(8,9) perm by (intro exI [of _ num]) simp
qed simp

end
