(* ===== verification/ProcessInvariant.thy ===== *)
theory ProcessInvariant
  imports Process CortexM_Mpu
begin

text \<open>
  The invariant of a process and that every method keeps it. \<open>layout_ok\<close> is the picture in the
  comment on the struct (the memory is a Rust slice, so it does not start at address 0): accessible memory, then the gap, then the grant region, with the high-water
  mark of shared buffers below the process break. \<open>grants_ok\<close> places every allocated grant above
  the kernel break. \<open>advances\<close> says what a method may do over time: the identifier counter never
  decreases, and either the process keeps its identifier and its high-water mark does not fall, or
  it was restarted under an identifier that was never used before. \<open>proc_step\<close> is the relation of
  all methods; \<open>proc_steps\<close> its closure.
\<close>

section \<open>The invariant\<close>

definition layout_ok :: "('cfg, 'ss) ProcessStandard \<Rightarrow> bool" where
  "layout_ok p \<longleftrightarrow>
     0 < unat (memory_start p) \<and> unat (memory_start p) + unat (memory_len p) < 2 ^ 32 \<and>
     memory_start p \<le> allow_high_water_mark p \<and> allow_high_water_mark p \<le> app_break p \<and>
     app_break p \<le> kernel_memory_break p \<and> kernel_memory_break p \<le> mem_end p"

definition grant_ok :: "('cfg, 'ss) ProcessStandard \<Rightarrow> GrantPointerEntry \<Rightarrow> bool" where
  "grant_ok p e \<longleftrightarrow>
     grant_ptr e = 0 \<or> kernel_memory_break p \<le> grant_ptr e AND NOT 1 \<and> grant_ptr e AND NOT 1 \<le> mem_end p"

definition grants_ok :: "('cfg, 'ss) ProcessStandard \<Rightarrow> bool" where
  "grants_ok p \<longleftrightarrow> (case grant_pointers p of None \<Rightarrow> True | Some gs \<Rightarrow> list_all (grant_ok p) gs)"

definition queue_ok :: "('cfg, 'ss) ProcessStandard \<Rightarrow> bool" where
  "queue_ok p \<longleftrightarrow> (case tasks p of None \<Rightarrow> True | Some q \<Rightarrow> rb_inv q)"

definition grants_clear :: "('cfg, 'ss) ProcessStandard \<Rightarrow> bool" where
  "grants_clear p \<longleftrightarrow> (case grant_pointers p of None \<Rightarrow> True | Some gs \<Rightarrow> list_all (\<lambda>e. grant_ptr e = 0) gs)"

definition proc_ok :: "('cfg, 'ss) ProcessStandard \<Rightarrow> ('hw, 'w) Machine \<Rightarrow> bool" where
  "proc_ok p mc \<longleftrightarrow>
     layout_ok p \<and> grants_ok p \<and> queue_ok p \<and> length (mpu_regions p) = 6 \<and>
     (pstate p = Terminated \<longrightarrow> grants_clear p) \<and> pid_identifier (process_id p) < process_identifier_max mc"

definition advances ::
    "('cfg, 'ss) ProcessStandard \<Rightarrow> ('hw, 'w) Machine \<Rightarrow> ('cfg, 'ss) ProcessStandard \<Rightarrow> ('hw, 'w) Machine \<Rightarrow> bool" where
  "advances p mc p' mc' \<longleftrightarrow>
     process_identifier_max mc \<le> process_identifier_max mc' \<and>
     memory_start p' = memory_start p \<and> memory_len p' = memory_len p \<and>
     flash_ptr p' = flash_ptr p \<and> flash_bytes p' = flash_bytes p \<and> header p' = header p \<and>
     pid_index (process_id p') = pid_index (process_id p) \<and>
     (process_id p' = process_id p \<and> allow_high_water_mark p \<le> allow_high_water_mark p' \<or>
      process_identifier_max mc \<le> pid_identifier (process_id p'))"

lemma advances_refl [simp]: "advances p mc p mc"
  by (simp add: advances_def)

lemma advances_trans:
  "advances p mc p' mc' \<Longrightarrow> advances p' mc' p'' mc'' \<Longrightarrow> advances p mc p'' mc''"
  by (auto simp: advances_def)

text \<open>Methods that touch none of the fields the invariant reads.\<close>

definition same_core ::
    "('cfg, 'ss) ProcessStandard \<Rightarrow> ('cfg, 'ss) ProcessStandard \<Rightarrow> bool" where
  "same_core p p' \<longleftrightarrow>
     memory_start p' = memory_start p \<and> memory_len p' = memory_len p \<and>
     kernel_memory_break p' = kernel_memory_break p \<and> app_break p' = app_break p \<and>
     allow_high_water_mark p' = allow_high_water_mark p \<and> process_id p' = process_id p \<and>
     flash_ptr p' = flash_ptr p \<and> flash_bytes p' = flash_bytes p \<and> header p' = header p"

lemma same_core_refl [simp]: "same_core p p"
  by (simp add: same_core_def)

lemma same_core_trans: "same_core p q \<Longrightarrow> same_core q r \<Longrightarrow> same_core p r"
  by (simp add: same_core_def)

lemma same_core_mem_end: "same_core p p' \<Longrightarrow> mem_end p' = mem_end p"
  by (simp add: same_core_def mem_end_def)

lemma same_core_layout: "same_core p p' \<Longrightarrow> layout_ok p' = layout_ok p"
  by (simp add: same_core_def layout_ok_def mem_end_def)

lemma same_core_grant: "same_core p p' \<Longrightarrow> grant_ok p' = grant_ok p"
  by (rule ext) (simp add: same_core_def grant_ok_def mem_end_def)

lemma same_core_advances:
  "same_core p p' \<Longrightarrow> process_identifier_max mc' = process_identifier_max mc \<Longrightarrow> advances p mc p' mc'"
  by (simp add: same_core_def advances_def)

lemma same_core_ok:
  assumes "same_core p p'" "process_identifier_max mc' = process_identifier_max mc" "proc_ok p mc"
    "grants_ok p'" "queue_ok p'" "length (mpu_regions p') = 6" "pstate p' = Terminated \<longrightarrow> grants_clear p'"
  shows "proc_ok p' mc'"
  using assms same_core_layout [OF assms(1)] by (simp add: proc_ok_def same_core_def)

lemma grants_ok_same: "same_core p p' \<Longrightarrow> grant_pointers p' = grant_pointers p \<Longrightarrow> grants_ok p' = grants_ok p"
  using same_core_grant [of p p'] by (simp add: grants_ok_def split: option.split)

lemma queue_ok_same: "tasks p' = tasks p \<Longrightarrow> queue_ok p' = queue_ok p"
  by (simp add: queue_ok_def)

lemma unat_mem_end: "unat (memory_start p) + unat (memory_len p) < 2 ^ 32 \<Longrightarrow>
    unat (mem_end p) = unat (memory_start p) + unat (memory_len p)"
  using chk_addI [of "memory_start p" "memory_len p"] by (simp add: mem_end_def)

lemma layout_okD:
  assumes "layout_ok p"
  shows "unat (memory_start p) \<le> unat (allow_high_water_mark p)"
    "unat (allow_high_water_mark p) \<le> unat (app_break p)"
    "unat (app_break p) \<le> unat (kernel_memory_break p)"
    "unat (kernel_memory_break p) \<le> unat (memory_start p) + unat (memory_len p)"
    "unat (mem_end p) = unat (memory_start p) + unat (memory_len p)"
  using assms unat_mem_end [of p] by (auto simp: layout_ok_def word_le_nat_alt)

section \<open>What the bounds checks mean\<close>

lemma in_app_owned_iff:
  "in_app_owned_memory a n p \<longleftrightarrow>
     unat (memory_start p) \<le> unat a \<and> unat a + unat n \<le> unat (app_break p)"
proof -
  have "a \<le> a + n \<longleftrightarrow> unat a + unat n < 2 ^ 32"
    using no_olen_add_nat [of a n] by simp
  moreover have "unat (a + n) = unat a + unat n" if "unat a + unat n < 2 ^ 32"
    using that chk_addI [of a n] by simp
  moreover have "unat a + unat n < 2 ^ 32" if "unat a + unat n \<le> unat (app_break p)"
    using that unat_less_2p [of "app_break p"] by simp
  ultimately show ?thesis
    by (auto simp: in_app_owned_memory_def Let_def mem_start_def word_le_nat_alt)
qed

lemma in_app_flash_iff:
  assumes "in_app_flash_memory a n p = Some True" "unat (flash_ptr p) + length (flash_bytes p) < 2 ^ 32"
  shows "unat (flash_ptr p) \<le> unat a" "unat a + unat n \<le> unat (flash_ptr p) + length (flash_bytes p)"
proof -
  obtain s where s: "flash_non_protected_start p = Some s" "a \<le> a + n" "s \<le> a" "a + n \<le> flash_end p"
    using assms(1) by (auto simp: in_app_flash_memory_def Let_def bind_eq_Some_conv split: if_splits)
  have "flash_ptr p \<le> s"
    using s(1) by (auto simp: flash_non_protected_start_def bind_eq_Some_conv checked_arith word_le_nat_alt)
  moreover have "unat (flash_end p) = unat (flash_ptr p) + length (flash_bytes p)"
    using assms(2) unat_add_small [of "flash_ptr p" "length (flash_bytes p)"] by (simp add: flash_end_def)
  moreover have "unat (a + n) = unat a + unat n"
    using s(2) no_olen_add_nat [of a n] chk_addI [of a n] by simp
  ultimately show "unat (flash_ptr p) \<le> unat a"
    "unat a + unat n \<le> unat (flash_ptr p) + length (flash_bytes p)"
    using s(3,4) by (auto simp: word_le_nat_alt)
qed

section \<open>Methods that leave memory alone\<close>

definition quiet :: "('cfg, 'ss) ProcessStandard \<Rightarrow> ('cfg, 'ss) ProcessStandard \<Rightarrow> bool" where
  "quiet p p' \<longleftrightarrow>
     same_core p p' \<and> grant_pointers p' = grant_pointers p \<and> length (mpu_regions p') = length (mpu_regions p) \<and>
     (queue_ok p \<longrightarrow> queue_ok p') \<and> (pstate p' = Terminated \<longrightarrow> pstate p = Terminated)"

lemma quiet_refl [simp]: "quiet p p"
  by (simp add: quiet_def)

lemma quiet_trans: "quiet p q \<Longrightarrow> quiet q r \<Longrightarrow> quiet p r"
  by (auto simp: quiet_def intro: same_core_trans)

lemma quiet_ok:
  assumes "quiet p p'" "process_identifier_max mc' = process_identifier_max mc" "proc_ok p mc"
  shows "proc_ok p' mc'" "advances p mc p' mc'"
  using assms grants_ok_same [of p p'] same_core_ok [of p p' mc' mc] same_core_advances [of p p' mc' mc]
  by (auto simp: quiet_def proc_ok_def grants_clear_def)

lemma quiet_fields [simp]:
  "quiet p (p\<lparr>debug := d\<rparr>)" "quiet p (p\<lparr>stored_state := ss\<rparr>)"
  "quiet p (p\<lparr>mpu_config := c\<rparr>)" "quiet p (p\<lparr>app_id := a\<rparr>)" "quiet p (p\<lparr>credentials := cr\<rparr>)"
  "quiet p (p\<lparr>stored_state := ss, debug := d\<rparr>)"
  "quiet p (p\<lparr>mpu_config := c, mpu_regions := (mpu_regions p)[i := r]\<rparr>)"
  by (auto simp: quiet_def same_core_def queue_ok_def)

lemma quiet_state [simp]:
  "s \<noteq> Terminated \<Longrightarrow> quiet p (p\<lparr>pstate := s\<rparr>)" "s \<noteq> Terminated \<Longrightarrow> quiet p (p\<lparr>pstate := s, app_id := a\<rparr>)"
  "s \<noteq> Terminated \<Longrightarrow> quiet p (p\<lparr>pstate := s, app_id := a, credentials := cr\<rparr>)"
  "s \<noteq> Terminated \<Longrightarrow> quiet p (p\<lparr>stored_state := ss, pstate := s\<rparr>)"
  by (auto simp: quiet_def same_core_def queue_ok_def)

lemma quiet_tasks: "rb_inv q \<Longrightarrow> quiet p (p\<lparr>tasks := Some q\<rparr>)"
  by (auto simp: quiet_def same_core_def queue_ok_def)

lemma queue_ok_Some: "queue_ok p \<Longrightarrow> tasks p = Some q \<Longrightarrow> rb_inv q"
  by (simp add: queue_ok_def)

lemma rb_enqueue_inv: "rb_enqueue q t = Some (ok, q') \<Longrightarrow> rb_inv q \<Longrightarrow> rb_inv q'"
  by (metis option.inject prod.inject rbq.enqueue_spec)

lemma rb_dequeue_inv: "rb_dequeue q = Some (t, q') \<Longrightarrow> rb_inv q \<Longrightarrow> rb_inv q'"
  by (metis option.inject prod.inject rbq.dequeue_spec)

lemma rb_retain_inv: "rb_retain q f = Some q' \<Longrightarrow> rb_inv q \<Longrightarrow> rb_inv q'"
  by (metis option.inject rbq.retain_spec)

lemmas quiet_cases = bind_eq_Some_conv Let_def quiet_tasks queue_ok_Some

lemma quiet_tasks_debug: "rb_inv q \<Longrightarrow> quiet p (p\<lparr>tasks := Some q, debug := d\<rparr>)"
  by (auto simp: quiet_def same_core_def queue_ok_def)

lemma enqueue_task_quiet:
  assumes "enqueue_task t p = Some (r, p')" "queue_ok p"
  shows "quiet p p'"
  using assms
  by (auto simp: enqueue_task_def bind_eq_Some_conv intro!: quiet_tasks quiet_tasks_debug
      split: if_splits option.splits sum.splits dest!: rb_enqueue_inv [OF _ queue_ok_Some])

lemma enqueue_init_task_quiet:
  assumes "enqueue_init_task p = Some (r, p')" "queue_ok p"
  shows "quiet p p'"
  using assms(1) unfolding enqueue_init_task_def Let_def
proof (elim monad_elims, goal_cases)
  case (2 app_off init_off)
  have "queue_ok (p\<lparr>pstate := Yielded\<rparr>)" using assms(2) by (simp add: queue_ok_def)
  from quiet_trans [OF quiet_state(1) enqueue_task_quiet [OF 2(4) this]] show ?case by simp
qed auto

lemma mark_credentials_pass_quiet: "mark_credentials_pass c s p = (r, p') \<Longrightarrow> quiet p p'"
  by (auto simp: mark_credentials_pass_def Let_def split: if_splits option.splits)

lemma state_methods_quiet:
  "quiet p (mark_credentials_fail p)" "quiet p (set_yielded_state p)" "quiet p (stop p)" "quiet p (resume p)"
  "quiet p (update_stack_start_pointer a p)" "quiet p (update_heap_start_pointer a p)"
  by (auto simp: mark_credentials_fail_def set_yielded_state_def stop_def resume_def
      update_stack_start_pointer_def update_heap_start_pointer_def split: State.split)

lemma remove_pending_upcalls_quiet:
  assumes "remove_pending_upcalls u p = Some p'" "queue_ok p"
  shows "quiet p p'"
  using assms
  by (auto simp: remove_pending_upcalls_def bind_eq_Some_conv intro!: quiet_tasks
      split: option.splits dest!: rb_retain_inv [OF _ queue_ok_Some])

lemma dequeue_task_quiet:
  assumes "dequeue_task p = Some (t, p')" "queue_ok p"
  shows "quiet p p'"
  using assms
  by (auto simp: dequeue_task_def bind_eq_Some_conv intro!: quiet_tasks
      split: option.splits dest!: rb_dequeue_inv [OF _ queue_ok_Some])

lemma setup_mpu_quiet: "setup_mpu chip p mc = (p', mc') \<Longrightarrow> quiet p p'"
  by (auto simp: setup_mpu_def split: option.splits prod.splits)

lemma setup_mpu_max: "setup_mpu chip p mc = (p', mc') \<Longrightarrow> process_identifier_max mc' = process_identifier_max mc"
  by (auto simp: setup_mpu_def split: option.splits prod.splits)

lemma add_mpu_region_quiet: "add_mpu_region chip a n m p = Some (r, p') \<Longrightarrow> quiet p p'"
  unfolding add_mpu_region_def Let_def by (elim monad_elims) auto

lemma remove_mpu_region_quiet: "remove_mpu_region chip a p = Some (r, p') \<Longrightarrow> quiet p p'"
  unfolding remove_mpu_region_def Let_def by (elim monad_elims) auto

lemma debug_quiet:
  "debug_timeslice_expired p = Some p' \<Longrightarrow> quiet p p'" "debug_syscall_called s p = Some p' \<Longrightarrow> quiet p p'"
  by (auto simp: debug_timeslice_expired_def debug_syscall_called_def bind_eq_Some_conv split: option.splits)

lemma switch_to_quiet:
  "switch_to chip p mc = Some (r, p', mc') \<Longrightarrow> quiet p p' \<and> process_identifier_max mc' = process_identifier_max mc"
  unfolding switch_to_def Let_def by (elim monad_elims) (auto split: option.splits)

section \<open>The grant allocator\<close>

lemma align_down_unat:
  assumes "k < 32"
  shows "unat ((x :: usize) AND NOT (2 ^ k - 1)) = unat x div 2 ^ k * 2 ^ k"
proof -
  have "x AND NOT (2 ^ k - 1) = push_bit k (drop_bit k x)"
    by (rule bit_word_eqI) (auto simp: bit_simps mask_eq_exp_minus_1 [symmetric])
  moreover have "unat x div 2 ^ k * 2 ^ k < 2 ^ 32"
    by (rule le_less_trans [OF div_times_less_eq_dividend]) (use unat_less_2p [of x] in simp)
  moreover have "unat (x div 2 ^ k) = unat x div 2 ^ k" "unat (2 ^ k :: usize) = 2 ^ k"
    using assms by (simp_all add: unat_div unat_2p)
  ultimately show ?thesis
    using chk_mulI(2) [of "x div 2 ^ k" "2 ^ k"] by (simp add: push_bit_eq_mult drop_bit_eq_div)
qed

lemma max_align:
  assumes "k < 32"
  shows "max (2 ^ k :: usize) 2 = 2 ^ max k 1"
proof (cases "k = 0")
  case False
  then have "(2 :: usize) \<le> 2 ^ k"
    using assms power_increasing [of 1 k "2 :: nat"] by (simp add: word_le_nat_alt unat_2p)
  moreover have "max k 1 = k" using False by simp
  ultimately show ?thesis by (simp only: max.absorb1)
qed (simp add: max_def word_le_nat_alt)

lemma align_down_even: "0 < k \<Longrightarrow> k < 32 \<Longrightarrow> \<not> bit ((x :: usize) AND NOT (2 ^ k - 1)) 0"
  by (simp add: bit_simps mask_eq_exp_minus_1 [symmetric])

text \<open>
  The candidate break never exceeds the room there is, provided the size is not so close to the
  whole address space that rounding it down brings the wrapped difference back.
\<close>

lemma grant_break_bounds:
  fixes kb len :: usize
  assumes "k < 32" "unat len + 2 ^ k \<le> 2 ^ 32" "(kb - len) AND NOT (2 ^ k - 1) \<le> kb"
  shows "unat ((kb - len) AND NOT (2 ^ k - 1)) + unat len \<le> unat kb"
proof -
  define u where "u = unat (kb - len)"
  have down: "unat ((kb - len) AND NOT (2 ^ k - 1)) = u div 2 ^ k * 2 ^ k"
    using align_down_unat [OF assms(1)] by (simp add: u_def)
  have lo: "u < u div 2 ^ k * 2 ^ k + 2 ^ k" "u div 2 ^ k * 2 ^ k \<le> u"
    using div_mult_mod_eq [of u "2 ^ k"] mod_less_divisor [of "2 ^ k" u, OF zero_less_power [OF zero_less_numeral]]
    by linarith+
  show ?thesis
  proof (cases "len \<le> kb")
    case True
    then have "u + unat len = unat kb"
      by (simp add: u_def unat_sub word_le_nat_alt)
    then show ?thesis using down lo by linarith
  next
    case False
    then have "unat kb < unat len" by (simp add: word_less_nat_alt not_le)
    then have "u + unat len = unat kb + 2 ^ 32"
      using unat_less_2p [of len] by (simp add: u_def unat_sub_if')
    then have "unat kb < u div 2 ^ k * 2 ^ k" using lo assms(2) by linarith
    then show ?thesis using assms(3) down by (simp add: word_le_nat_alt)
  qed
qed

lemma allocate_internal_Some:
  assumes "allocate_in_grant_region_internal chip len (2 ^ k) p = Some (Some ptr, p')"
    "k < 32" "unat len + 2 ^ max k 1 \<le> 2 ^ 32"
  shows "unat ptr + unat len \<le> unat (kernel_memory_break p)" "app_break p \<le> ptr" "ptr \<le> kernel_memory_break p"
    "2 ^ max k 1 dvd unat ptr" "\<not> bit ptr 0" "\<exists>c. p' = p\<lparr>mpu_config := c, kernel_memory_break := ptr\<rparr>"
proof -
  let ?b = "(kernel_memory_break p - len) AND NOT (2 ^ max k 1 - 1)"
  have k: "max k 1 < 32" using assms(2) by simp
  have e: "ptr = ?b \<and> app_break p \<le> ptr \<and> ptr \<le> kernel_memory_break p \<and>
      (\<exists>c. p' = p\<lparr>mpu_config := c, kernel_memory_break := ptr\<rparr>)"
    using assms(1) unfolding allocate_in_grant_region_internal_def Let_def max_align [OF assms(2)]
    by (elim monad_elims) auto
  then show "app_break p \<le> ptr" "ptr \<le> kernel_memory_break p"
    "\<exists>c. p' = p\<lparr>mpu_config := c, kernel_memory_break := ptr\<rparr>" by blast+
  show "unat ptr + unat len \<le> unat (kernel_memory_break p)"
    using grant_break_bounds [OF k assms(3)] e by metis
  show "2 ^ max k 1 dvd unat ptr" using e align_down_unat [OF k] by simp
  show "\<not> bit ptr 0" using e align_down_even [OF _ k] by simp
qed

lemma allocate_internal_None:
  assumes "allocate_in_grant_region_internal chip len align p = Some (None, p')"
  shows "quiet p p'"
  using assms unfolding allocate_in_grant_region_internal_def Let_def by (elim monad_elims) auto

section \<open>Methods that move the breaks\<close>

lemma list_all_replicate_clear [simp]: "list_all (\<lambda>e. grant_ptr e = 0) (map (\<lambda>_. \<lparr>gp_driver_num = 0, grant_ptr = 0\<rparr>) gs)"
  by (simp add: list_all_iff)

lemma grants_ok_mono:
  assumes "grants_ok p" "grant_pointers p' = grant_pointers p" "mem_end p' = mem_end p"
    "kernel_memory_break p' \<le> kernel_memory_break p"
  shows "grants_ok p'"
  using assms by (auto simp: grants_ok_def grant_ok_def list_all_iff split: option.splits)

lemma grants_clear_ok: "grants_clear p \<Longrightarrow> grants_ok p"
  by (auto simp: grants_clear_def grants_ok_def grant_ok_def list_all_iff split: option.splits)

lemma terminate_clear:
  "pstate p \<notin> {CredentialsUnchecked, CredentialsFailed} \<Longrightarrow> proc_ok p mc \<Longrightarrow> grants_clear (terminate c p)"
  by (cases "pstate p")
    (auto simp: terminate_def Let_def is_running_def grant_ptrs_reset_def grants_clear_def proc_ok_def split: option.splits)

lemma terminate_core: "same_core p (terminate c p)"
  by (simp add: terminate_def Let_def grant_ptrs_reset_def same_core_def)

lemma terminate_fields [simp]:
  "mpu_regions (terminate c p) = mpu_regions p" "mpu_config (terminate c p) = mpu_config p"
  by (simp_all add: terminate_def Let_def grant_ptrs_reset_def)

lemma terminate_queue: "queue_ok p \<Longrightarrow> queue_ok (terminate c p)"
  using rb_empty_correct by (auto simp: terminate_def Let_def grant_ptrs_reset_def queue_ok_def split: option.splits)

lemma terminate_ok:
  assumes "proc_ok p mc"
  shows "proc_ok (terminate c p) mc" "advances p mc (terminate c p) mc"
proof -
  have "grants_clear (terminate c p) \<or> terminate c p = p"
    by (auto simp: terminate_def Let_def grant_ptrs_reset_def grants_clear_def split: option.splits)
  then have "grants_ok (terminate c p)" "pstate (terminate c p) = Terminated \<longrightarrow> grants_clear (terminate c p)"
    using assms grants_clear_ok by (auto simp: proc_ok_def)
  then show "proc_ok (terminate c p) mc"
    using same_core_ok [OF terminate_core refl assms] assms terminate_queue [of p c] by (simp add: proc_ok_def)
  show "advances p mc (terminate c p) mc" by (rule same_core_advances [OF terminate_core refl])
qed

lemma brk_ok:
  assumes "brk chip a p mc = Some (r, p', mc')" "proc_ok p mc"
  shows "proc_ok p' mc'" "advances p mc p' mc'"
proof -
  have "quiet p p' \<and> mc' = mc \<or>
      (\<exists>c hw. p' = p\<lparr>app_break := a, mpu_config := c\<rparr> \<and> mc' = mc\<lparr>mpu_hw := hw\<rparr> \<and>
        allow_high_water_mark p \<le> a \<and> a \<le> kernel_memory_break p)"
    using assms(1) unfolding brk_def Let_def by (elim monad_elims) auto
  then consider "quiet p p'" "mc' = mc" | c hw where "p' = p\<lparr>app_break := a, mpu_config := c\<rparr>"
      "mc' = mc\<lparr>mpu_hw := hw\<rparr>" "allow_high_water_mark p \<le> a" "a \<le> kernel_memory_break p"
    by blast
  then have "proc_ok p' mc' \<and> advances p mc p' mc'"
  proof cases
    case 1
    then show ?thesis using quiet_ok [OF _ _ assms(2)] by simp
  next
    case 2
    have "grants_ok p'"
      by (rule grants_ok_mono [of p]) (use assms(2) in \<open>simp_all add: 2 mem_end_def proc_ok_def\<close>)
    then show ?thesis
      using assms(2) 2
      by (auto simp: proc_ok_def layout_ok_def mem_end_def queue_ok_def grants_clear_def advances_def)
  qed
  then show "proc_ok p' mc'" "advances p mc p' mc'" by blast+
qed

lemma sbrk_ok:
  "sbrk chip a p mc = Some (r, p', mc') \<Longrightarrow> proc_ok p mc \<Longrightarrow> proc_ok p' mc' \<and> advances p mc p' mc'"
  using brk_ok by (auto simp: sbrk_def split: if_splits)

lemma water_mark_ok:
  assumes "proc_ok p mc" "in_app_owned_memory a n p"
  shows "proc_ok (p\<lparr>allow_high_water_mark := max (allow_high_water_mark p) (a + n)\<rparr>) mc"
    "advances p mc (p\<lparr>allow_high_water_mark := max (allow_high_water_mark p) (a + n)\<rparr>) mc"
proof -
  let ?p = "p\<lparr>allow_high_water_mark := max (allow_high_water_mark p) (a + n)\<rparr>"
  have "a + n \<le> app_break p" using assms(2) by (simp add: in_app_owned_memory_def Let_def)
  moreover have "grants_ok ?p"
    by (rule grants_ok_mono [of p]) (use assms(1) in \<open>simp_all add: mem_end_def proc_ok_def\<close>)
  ultimately show "proc_ok ?p mc" "advances p mc ?p mc"
    using assms(1)
    by (auto simp: proc_ok_def layout_ok_def mem_end_def queue_ok_def grants_clear_def advances_def le_max_iff_disj)
qed

lemma build_readwrite_ok:
  assumes "build_readwrite_process_buffer a n p = (r, p')" "proc_ok p mc"
  shows "proc_ok p' mc \<and> advances p mc p' mc"
  using assms water_mark_ok [OF assms(2), of a n]
  by (auto simp: build_readwrite_process_buffer_def Let_def split: if_splits)

lemma build_readonly_ok:
  assumes "build_readonly_process_buffer a n p = Some (r, p')" "proc_ok p mc"
  shows "proc_ok p' mc \<and> advances p mc p' mc"
  using assms water_mark_ok [OF assms(2), of a n]
  by (auto simp: build_readonly_process_buffer_def Let_def bind_eq_Some_conv split: if_splits)

lemma set_byte_max: "set_byte a v p mc = (b, mc') \<Longrightarrow> process_identifier_max mc' = process_identifier_max mc"
  by (auto simp: set_byte_def split: if_splits)

subsection \<open>Grants\<close>

lemma grant_set_core: "same_core p (grant_set n e p)"
  by (simp add: grant_set_def same_core_def)

lemma grant_set_grants_ok: "grants_ok p \<Longrightarrow> grant_ok p e \<Longrightarrow> grants_ok (grant_set n e p)"
  using same_core_grant [OF grant_set_core [of p n e]]
  by (auto simp: grants_ok_def grant_set_def list_all_iff split: option.splits dest: set_update_subset_insert [THEN subsetD])

lemma grant_set_fields [simp]:
  "tasks (grant_set n e p) = tasks p" "mpu_regions (grant_set n e p) = mpu_regions p"
  "pstate (grant_set n e p) = pstate p"
  by (simp_all add: grant_set_def)

lemma grant_get_ok: "grants_ok p \<Longrightarrow> grant_get n p = Some e \<Longrightarrow> grant_ok p e"
  by (auto simp: grants_ok_def grant_get_def slice_get_def list_all_iff bind_eq_Some_conv split: if_splits)

lemma grant_set_ok:
  assumes "proc_ok p mc" "grant_ok p e" "is_running p"
  shows "proc_ok (grant_set n e p) mc" "advances p mc (grant_set n e p) mc"
proof -
  have "pstate p \<noteq> Terminated" using assms(3) by (auto simp: is_running_def)
  then show "proc_ok (grant_set n e p) mc"
    using same_core_ok [OF grant_set_core refl assms(1), of n e] assms grant_set_grants_ok [of p e n]
    by (simp add: proc_ok_def queue_ok_def)
  show "advances p mc (grant_set n e p) mc" by (rule same_core_advances [OF grant_set_core refl])
qed

lemma clear_flag [simp]: "((x :: usize) OR 1) AND - 2 = x AND - 2" "(x AND - 2) AND - 2 = x AND - 2"
proof -
  have "((x :: usize) OR 1) AND NOT 1 = x AND NOT 1" "(x AND NOT 1) AND NOT 1 = x AND NOT 1"
    by (rule bit_word_eqI; auto simp: bit_simps)+
  then show "((x :: usize) OR 1) AND - 2 = x AND - 2" "(x AND - 2) AND - 2 = x AND - 2" by simp_all
qed

lemma even_clear_flag: "\<not> bit (x :: usize) 0 \<Longrightarrow> x AND NOT 1 = x"
proof (rule bit_word_eqI)
  fix n assume "\<not> bit x 0" "n < LENGTH(32)"
  then show "bit (x AND NOT 1) n = bit x n"
    by (cases n) (auto simp: bit_simps simp del: not_one_eq)
qed

lemma enter_grant_ok:
  assumes "enter_grant n p = (r, p')" "proc_ok p mc" "grant_is_allocated n p = Some True"
  shows "proc_ok p' mc \<and> advances p mc p' mc"
proof (cases "p' = p")
  case False
  then obtain e where e: "grant_get n p = Some e" "is_running p" "p' = grant_set n (e\<lparr>grant_ptr := grant_ptr e OR 1\<rparr>) p"
    using assms(1) by (auto simp: enter_grant_def split: if_splits option.splits)
  then have "grant_ptr e \<noteq> 0" using assms(3) by (simp add: grant_is_allocated_def split: if_splits)
  then have "grant_ok p (e\<lparr>grant_ptr := grant_ptr e OR 1\<rparr>)"
    using grant_get_ok [OF _ e(1)] assms(2) by (simp add: grant_ok_def proc_ok_def)
  then show ?thesis using grant_set_ok [OF assms(2)] e(2,3) by simp
qed (use assms in simp)

lemma leave_grant_ok:
  assumes "proc_ok p mc"
  shows "proc_ok (leave_grant n p) mc \<and> advances p mc (leave_grant n p) mc"
proof (cases "leave_grant n p = p")
  case False
  then obtain e where e: "grant_get n p = Some e" "is_running p"
      "leave_grant n p = grant_set n (e\<lparr>grant_ptr := grant_ptr e AND NOT 1\<rparr>) p"
    by (auto simp: leave_grant_def split: if_splits option.splits)
  then have "grant_ok p (e\<lparr>grant_ptr := grant_ptr e AND NOT 1\<rparr>)"
    using grant_get_ok [OF _ e(1)] assms(1) by (auto simp: grant_ok_def proc_ok_def)
  then show ?thesis using grant_set_ok [OF assms] e(2,3) by simp
qed (use assms in simp)

lemma allocate_internal_ok:
  assumes "allocate_in_grant_region_internal chip len (2 ^ k) p = Some (r, p')" "proc_ok p mc"
    "k < 32" "unat len + 2 ^ max k 1 \<le> 2 ^ 32"
  shows "proc_ok p' mc \<and> advances p mc p' mc"
proof (cases r)
  case None
  then show ?thesis using allocate_internal_None [of chip len "2 ^ k" p p'] quiet_ok [OF _ refl assms(2)] assms(1) by simp
next
  case (Some ptr)
  note a = allocate_internal_Some [OF assms(1) [unfolded Some] assms(3,4)]
  obtain c where p': "p' = p\<lparr>mpu_config := c, kernel_memory_break := ptr\<rparr>" using a(6) by blast
  have "grants_ok p'"
    by (rule grants_ok_mono [of p]) (use assms(2) a(3) in \<open>simp_all add: p' mem_end_def proc_ok_def\<close>)
  then show ?thesis
    using assms(2) a(2,3)
    by (auto simp: p' proc_ok_def layout_ok_def mem_end_def queue_ok_def grants_clear_def advances_def)
qed

lemma allocate_internal_keeps:
  assumes "allocate_in_grant_region_internal chip len align p = Some (r, p')"
  shows "grant_pointers p' = grant_pointers p" "pstate p' = pstate p" "is_running p' = is_running p"
    "mem_end p' = mem_end p" "app_break p' = app_break p"
  using assms unfolding allocate_in_grant_region_internal_def Let_def
  by (elim monad_elims; auto simp: is_running_def mem_end_def)+

lemma allocate_grantE:
  assumes "allocate_grant chip n d len align p mc = Some (b, p', mc')"
  obtains (refused) "\<not> b" "p' = p" "process_identifier_max mc' = process_identifier_max mc"
  | (failed) r where "\<not> b" "allocate_in_grant_region_internal chip len align p = Some (r, p')"
      "process_identifier_max mc' = process_identifier_max mc"
  | (allocated) ptr q e where "b" "is_running p" "n < grant_counter mc" "grant_is_allocated n p \<noteq> Some True"
      "\<not> driver_grant_exists d p" "allocate_in_grant_region_internal chip len align p = Some (Some ptr, q)"
      "grant_get n q = Some e" "p' = grant_set n (e\<lparr>gp_driver_num := d, grant_ptr := ptr\<rparr>) q"
      "process_identifier_max mc' = process_identifier_max mc"
  using assms unfolding allocate_grant_def Let_def get_grant_count_and_finalize_def prod.case
  by (elim monad_elims) auto

lemma allocate_grant_ok:
  assumes "allocate_grant chip n d len (2 ^ k) p mc = Some (b, p', mc')" "proc_ok p mc"
    "k < 32" "unat len + 2 ^ max k 1 \<le> 2 ^ 32"
  shows "proc_ok p' mc' \<and> advances p mc p' mc'"
  using assms(1)
proof (cases rule: allocate_grantE)
  case refused
  then show ?thesis using quiet_ok [OF quiet_refl _ assms(2)] by simp
next
  case (failed r)
  then show ?thesis
    using allocate_internal_ok [OF failed(2) assms(2-4)] by (simp add: proc_ok_def advances_def)
next
  case (allocated ptr q e)
  note a = allocate_internal_Some [OF allocated(6) assms(3,4)]
  note q = allocate_internal_ok [OF allocated(6) assms(2-4)] allocate_internal_keeps [OF allocated(6)]
  have "kernel_memory_break q = ptr" "kernel_memory_break p \<le> mem_end p"
    using a(6) assms(2) by (auto simp: proc_ok_def layout_ok_def)
  then have "grant_ok q (e\<lparr>gp_driver_num := d, grant_ptr := ptr\<rparr>)"
    using even_clear_flag [OF a(5)] a(3) q(5) by (auto simp: grant_ok_def)
  then have "proc_ok p' mc" "advances q mc p' mc"
    using grant_set_ok [of q mc] q(1,4) allocated(2,8) by simp_all
  then show ?thesis
    using advances_trans [of p mc q mc p' mc] q(1) allocated(9) by (simp add: proc_ok_def advances_def)
qed

lemma allocate_custom_grant_ok:
  assumes "allocate_custom_grant chip len (2 ^ k) p = Some (r, p')" "proc_ok p mc"
    "k < 32" "unat len + 2 ^ max k 1 \<le> 2 ^ 32"
  shows "proc_ok p' mc \<and> advances p mc p' mc"
  using assms(1) unfolding allocate_custom_grant_def
  by (elim monad_elims) (use assms(2) allocate_internal_ok [OF _ assms(2-4)] in auto)

section \<open>Restart\<close>

lemma create_process_identifierE:
  assumes "create_process_identifier mc = Some (n, mc')"
  obtains "n = process_identifier_max mc" "mc' = mc\<lparr>process_identifier_max := process_identifier_max mc + 1\<rparr>"
    "unat (process_identifier_max mc + 1) = unat (process_identifier_max mc) + 1"
  using assms chk_addI(2) [of "process_identifier_max mc" 1]
  by (auto simp: create_process_identifier_def bind_eq_Some_conv chk_add_def split: if_splits)

lemma reset_layout:
  fixes s n a k :: usize
  assumes "unat s + unat n < 2 ^ 32" "unat a + unat k \<le> unat n"
  shows "s \<le> s + a" "s + a \<le> s + n - k" "s + n - k \<le> s + n"
proof -
  have u: "unat (s + a) = unat s + unat a" "unat (s + n) = unat s + unat n"
    using assms chk_addI(2) [of s a] chk_addI(2) [of s n] by simp_all
  then have "unat (s + n - k) = unat s + unat n - unat k"
    using assms chk_subI(2) [of k "s + n"] by simp
  then show "s \<le> s + a" "s + a \<le> s + n - k" "s + n - k \<le> s + n"
    using u assms by (auto simp: word_le_nat_alt)
qed

text \<open>What the fields of a process are after a restart attempt.\<close>

definition restarted ::
    "('cfg, 'ss) ProcessStandard \<Rightarrow> ('hw, 'w) Machine \<Rightarrow> ('cfg, 'ss) ProcessStandard \<Rightarrow> ('hw, 'w) Machine \<Rightarrow> bool" where
  "restarted p mc p' mc' \<longleftrightarrow>
     process_id p' = ProcessId_new (process_identifier_max mc) (pid_index (process_id p)) \<and>
     process_identifier_max mc' = process_identifier_max mc + 1 \<and>
     unat (process_identifier_max mc + 1) = unat (process_identifier_max mc) + 1 \<and>
     memory_start p' = memory_start p \<and> memory_len p' = memory_len p \<and>
     flash_ptr p' = flash_ptr p \<and> flash_bytes p' = flash_bytes p \<and> header p' = header p \<and>
     tasks p' = tasks p \<and> grant_pointers p' = grant_pointers p \<and> mpu_regions p' = mpu_regions p"

lemma restarted_advances:
  "restarted p mc p' mc' \<Longrightarrow> advances p mc p' mc'"
  by (auto simp: restarted_def advances_def ProcessId_new_def word_le_nat_alt)

lemma restarted_ok:
  assumes "restarted p mc p' mc'" "proc_ok p mc" "grants_clear p" "layout_ok p'"
  shows "proc_ok p' mc'" "grants_clear p'"
proof -
  show g: "grants_clear p'" using assms(1,3) by (simp add: restarted_def grants_clear_def)
  show "proc_ok p' mc'"
    using assms(1,2,4) g grants_clear_ok [OF g]
    by (auto simp: restarted_def proc_ok_def queue_ok_def ProcessId_new_def word_less_nat_alt)
qed

context mpu_contract
begin

lemma whole_region:
  assumes "mpu_allocate_app_memory_region M s n n app_sz ker_sz p c = Some (Some (st, sz), c')"
  shows "st = s" "sz = n" "unat app_sz + unat ker_sz \<le> unat n"
  using app_region_bounds [OF assms] by (auto simp: word_unat_eq_iff)

lemma region_layout:
  assumes "mpu_allocate_app_memory_region M (memory_start p) (memory_len p) (memory_len p) a k pm c =
      Some (Some (st, sz), c')" "layout_ok p"
  shows "st = memory_start p \<and> sz = memory_len p \<and> memory_start p \<le> memory_start p + a \<and>
    memory_start p + a \<le> memory_start p + memory_len p - k \<and>
    memory_start p + memory_len p - k \<le> memory_start p + memory_len p"
  using whole_region [OF assms(1)] reset_layout [of "memory_start p" "memory_len p" a k] assms(2)
  by (simp add: layout_ok_def)

lemma reset_effect:
  assumes "reset chip p mc = Some (r, p', mc')" "mpu chip = M" "layout_ok p"
  shows "restarted p mc p' mc' \<and> layout_ok p' \<and>
    (r = Inr () \<longrightarrow> pstate p' = CredentialsApproved) \<and> (r \<noteq> Inr () \<longrightarrow> pstate p' = pstate p)"
proof -
  obtain n mc1 where c: "create_process_identifier mc = Some (n, mc1)"
    using assms(1) by (cases "create_process_identifier mc") (auto simp: reset_def)
  then have id: "n = process_identifier_max mc" "mc1 = mc\<lparr>process_identifier_max := process_identifier_max mc + 1\<rparr>"
    "unat (process_identifier_max mc + 1) = unat (process_identifier_max mc) + 1"
    by (auto elim: create_process_identifierE)
  note core = restarted_def layout_ok_def mem_end_def id
  show ?thesis
    using assms(1)
    unfolding reset_def c Option.bind.simps prod.case Let_def get_grant_count_and_finalize_def
    by (elim monad_elims)
      (use assms(3) in \<open>auto simp: core assms(2) mem_start_def dest!: region_layout [OF _ assms(3)]\<close>)
qed

lemma try_restart_ok:
  assumes "try_restart chip c p mc = Some (p', mc')" "mpu chip = M" "proc_ok p mc"
  shows "proc_ok p' mc' \<and> advances p mc p' mc'"
proof (cases "pstate p = CredentialsFailed \<or> pstate p = CredentialsUnchecked")
  case True
  then show ?thesis using assms by (auto simp: try_restart_def)
next
  case False
  then obtain r q where q: "reset chip (terminate c p) mc = Some (r, q, mc')"
      "p' = (case r of Inr _ \<Rightarrow> q\<lparr>pstate := CredentialsApproved\<rparr> | Inl _ \<Rightarrow> q)"
    using assms(1) False unfolding try_restart_def Let_def by (elim monad_elims) auto
  note t = terminate_ok [OF assms(3), of c]
  have clear: "grants_clear (terminate c p)" using terminate_clear [OF _ assms(3)] False by simp
  have e: "restarted (terminate c p) mc q mc'" "layout_ok q"
    using reset_effect [OF q(1) assms(2)] t(1) by (simp_all add: proc_ok_def)
  have "proc_ok q mc'" by (rule restarted_ok [OF e(1) t(1) clear e(2)])
  moreover have "advances p mc q mc'" by (rule advances_trans [OF t(2) restarted_advances [OF e(1)]])
  moreover have "quiet q p'" by (simp add: q(2) split: sum.split)
  ultimately show ?thesis
    using quiet_ok [of q p' mc' mc'] advances_trans [of p mc q mc' p' mc'] by simp
qed

lemma set_fault_state_ok:
  assumes "set_fault_state chip p mc = Some (p', mc')" "mpu chip = M" "proc_ok p mc"
  shows "proc_ok p' mc' \<and> advances p mc p' mc'"
proof -
  have "p' = p \<and> mc' = mc \<or> try_restart chip None p mc = Some (p', mc') \<or>
      p' = (terminate None p)\<lparr>pstate := Faulted\<rparr> \<and> mc' = mc"
    using assms(1) by (auto simp: set_fault_state_def Let_def split: if_splits FaultAction.splits)
  then show ?thesis
    using assms try_restart_ok [of chip None p mc p' mc'] terminate_ok [OF assms(3), of None]
      quiet_ok [of "terminate None p" "(terminate None p)\<lparr>pstate := Faulted\<rparr>" mc mc]
      advances_trans [of p mc "terminate None p" mc p' mc'] by auto
qed

lemma set_fault_state_after_quiet:
  assumes "set_fault_state chip q mc1 = Some (p', mc')" "mpu chip = M" "proc_ok p mc" "quiet p q"
    "process_identifier_max mc1 = process_identifier_max mc"
  shows "proc_ok p' mc' \<and> advances p mc p' mc'"
  using set_fault_state_ok [OF assms(1,2)] quiet_ok [OF assms(4,5,3)]
    advances_trans [of p mc q mc1 p' mc'] by simp

lemma proc_set_syscall_return_value_ok:
  assumes "proc_set_syscall_return_value chip v p mc = Some (p', mc')" "mpu chip = M" "proc_ok p mc"
  shows "proc_ok p' mc' \<and> advances p mc p' mc'"
  using assms(1) unfolding proc_set_syscall_return_value_def Let_def
  by (elim monad_elims)
    (use assms(2,3) set_fault_state_after_quiet [OF _ assms(2,3)] quiet_ok [OF _ _ assms(3)] in auto)

lemma proc_set_process_function_ok:
  assumes "proc_set_process_function chip c p mc = Some (p', mc')" "mpu chip = M" "proc_ok p mc"
  shows "proc_ok p' mc' \<and> advances p mc p' mc'"
  using assms(1) unfolding proc_set_process_function_def Let_def
  by (elim monad_elims)
    (use assms(2,3) set_fault_state_after_quiet [OF _ assms(2,3)] quiet_ok [OF _ _ assms(3)] in auto)

end

section \<open>All methods together\<close>

inductive proc_step ::
    "('hw, 'cfg, 'w, 'ss) Chip \<Rightarrow> ('cfg, 'ss) ProcessStandard \<times> ('hw, 'w) Machine \<Rightarrow>
      ('cfg, 'ss) ProcessStandard \<times> ('hw, 'w) Machine \<Rightarrow> bool" for chip where
  step_enqueue_task: "enqueue_task t p = Some (r, p') \<Longrightarrow> proc_step chip (p, mc) (p', mc)"
| step_mark_pass: "mark_credentials_pass c s p = (r, p') \<Longrightarrow> proc_step chip (p, mc) (p', mc)"
| step_mark_fail: "proc_step chip (p, mc) (mark_credentials_fail p, mc)"
| step_init: "enqueue_init_task p = Some (r, p') \<Longrightarrow> proc_step chip (p, mc) (p', mc)"
| step_remove_upcalls: "remove_pending_upcalls u p = Some p' \<Longrightarrow> proc_step chip (p, mc) (p', mc)"
| step_yield: "proc_step chip (p, mc) (set_yielded_state p, mc)"
| step_stop: "proc_step chip (p, mc) (stop p, mc)"
| step_resume: "proc_step chip (p, mc) (resume p, mc)"
| step_fault: "set_fault_state chip p mc = Some (p', mc') \<Longrightarrow> proc_step chip (p, mc) (p', mc')"
| step_restart: "try_restart chip code p mc = Some (p', mc') \<Longrightarrow> proc_step chip (p, mc) (p', mc')"
| step_terminate: "proc_step chip (p, mc) (terminate code p, mc)"
| step_dequeue: "dequeue_task p = Some (t', p') \<Longrightarrow> proc_step chip (p, mc) (p', mc)"
| step_stack: "proc_step chip (p, mc) (update_stack_start_pointer a p, mc)"
| step_heap: "proc_step chip (p, mc) (update_heap_start_pointer a p, mc)"
| step_setup_mpu: "setup_mpu chip p mc = (p', mc') \<Longrightarrow> proc_step chip (p, mc) (p', mc')"
| step_add_region: "add_mpu_region chip a n m p = Some (g, p') \<Longrightarrow> proc_step chip (p, mc) (p', mc)"
| step_remove_region: "remove_mpu_region chip g' p = Some (r, p') \<Longrightarrow> proc_step chip (p, mc) (p', mc)"
| step_sbrk: "sbrk chip a p mc = Some (b, p', mc') \<Longrightarrow> proc_step chip (p, mc) (p', mc')"
| step_brk: "brk chip a p mc = Some (b, p', mc') \<Longrightarrow> proc_step chip (p, mc) (p', mc')"
| step_allow_rw: "build_readwrite_process_buffer a n p = (rb, p') \<Longrightarrow> proc_step chip (p, mc) (p', mc)"
| step_allow_ro: "build_readonly_process_buffer a n p = Some (rb, p') \<Longrightarrow> proc_step chip (p, mc) (p', mc)"
| step_set_byte: "set_byte a v p mc = (ok, mc') \<Longrightarrow> proc_step chip (p, mc) (p, mc')"
| step_allocate_grant:
    "allocate_grant chip num d len (2 ^ k) p mc = Some (ok, p', mc') \<Longrightarrow> k < 32 \<Longrightarrow>
      unat len + 2 ^ max k 1 \<le> 2 ^ 32 \<Longrightarrow> proc_step chip (p, mc) (p', mc')"
| step_allocate_custom_grant:
    "allocate_custom_grant chip len (2 ^ k) p = Some (rc, p') \<Longrightarrow> k < 32 \<Longrightarrow>
      unat len + 2 ^ max k 1 \<le> 2 ^ 32 \<Longrightarrow> proc_step chip (p, mc) (p', mc)"
| step_enter_grant:
    "grant_is_allocated num p = Some True \<Longrightarrow> enter_grant num p = (re, p') \<Longrightarrow> proc_step chip (p, mc) (p', mc)"
| step_leave_grant: "proc_step chip (p, mc) (leave_grant num p, mc)"
| step_set_return: "proc_set_syscall_return_value chip ret p mc = Some (p', mc') \<Longrightarrow> proc_step chip (p, mc) (p', mc')"
| step_set_function: "proc_set_process_function chip call p mc = Some (p', mc') \<Longrightarrow> proc_step chip (p, mc) (p', mc')"
| step_switch: "switch_to chip p mc = Some (reason, p', mc') \<Longrightarrow> proc_step chip (p, mc) (p', mc')"
| step_timeslice: "debug_timeslice_expired p = Some p' \<Longrightarrow> proc_step chip (p, mc) (p', mc)"
| step_syscall: "debug_syscall_called sc p = Some p' \<Longrightarrow> proc_step chip (p, mc) (p', mc)"

abbreviation proc_steps where
  "proc_steps chip \<equiv> (proc_step chip)\<^sup>*\<^sup>*"

context mpu_contract
begin

lemma proc_step_ok:
  assumes "proc_step chip (p, mc) (p', mc')" "mpu chip = M" "proc_ok p mc"
  shows "proc_ok p' mc' \<and> advances p mc p' mc'"
proof -
  have q: "queue_ok p" using assms(3) by (simp add: proc_ok_def)
  note quiet = quiet_ok [OF _ _ assms(3)]
  show ?thesis
    using assms(1)
  proof cases
    case (step_enqueue_task t r) then show ?thesis using quiet [OF enqueue_task_quiet [OF _ q]] by blast
  next
    case (step_mark_pass c s r) then show ?thesis using quiet [OF mark_credentials_pass_quiet] by blast
  next
    case (step_init r) then show ?thesis using quiet [OF enqueue_init_task_quiet [OF _ q]] by blast
  next
    case (step_remove_upcalls u) then show ?thesis using quiet [OF remove_pending_upcalls_quiet [OF _ q]] by blast
  next
    case step_fault then show ?thesis using set_fault_state_ok assms by blast
  next
    case (step_restart code) then show ?thesis using try_restart_ok assms by blast
  next
    case (step_terminate code) then show ?thesis using terminate_ok [OF assms(3)] by simp
  next
    case (step_dequeue t') then show ?thesis using quiet [OF dequeue_task_quiet [OF _ q]] by blast
  next
    case step_setup_mpu then show ?thesis using quiet [OF setup_mpu_quiet setup_mpu_max] by blast
  next
    case (step_add_region a n m g) then show ?thesis using quiet [OF add_mpu_region_quiet] by blast
  next
    case (step_remove_region g' r) then show ?thesis using quiet [OF remove_mpu_region_quiet] by blast
  next
    case (step_sbrk a b) then show ?thesis using sbrk_ok assms(3) by blast
  next
    case (step_brk a b) then show ?thesis using brk_ok assms(3) by blast
  next
    case (step_allow_rw a n rb) then show ?thesis using build_readwrite_ok assms(3) by blast
  next
    case (step_allow_ro a n rb) then show ?thesis using build_readonly_ok assms(3) by blast
  next
    case (step_set_byte a v ok) then show ?thesis using quiet [OF quiet_refl set_byte_max] by blast
  next
    case (step_allocate_grant num d len k ok) then show ?thesis using allocate_grant_ok assms(3) by blast
  next
    case (step_allocate_custom_grant len k rc) then show ?thesis using allocate_custom_grant_ok assms(3) by blast
  next
    case (step_enter_grant num re) then show ?thesis using enter_grant_ok assms(3) by blast
  next
    case (step_leave_grant num) then show ?thesis using leave_grant_ok assms(3) by blast
  next
    case (step_set_return ret) then show ?thesis using proc_set_syscall_return_value_ok assms by blast
  next
    case (step_set_function call) then show ?thesis using proc_set_process_function_ok assms by blast
  next
    case (step_switch reason) then show ?thesis using quiet switch_to_quiet by blast
  next
    case step_timeslice then show ?thesis using quiet [OF debug_quiet(1)] by blast
  next
    case (step_syscall sc) then show ?thesis using quiet [OF debug_quiet(2)] by blast
  qed (use quiet [OF state_methods_quiet(1)] quiet [OF state_methods_quiet(2)] quiet [OF state_methods_quiet(3)]
      quiet [OF state_methods_quiet(4)] quiet [OF state_methods_quiet(5)] quiet [OF state_methods_quiet(6)] in auto)
qed

lemma proc_steps_ok:
  assumes "proc_steps chip (p, mc) (p', mc')" "mpu chip = M" "proc_ok p mc"
  shows "proc_ok p' mc' \<and> advances p mc p' mc'"
  using assms(1)
proof (induction rule: rtranclp_induct2)
  case refl
  then show ?case using assms(3) by simp
next
  case (step q mc1 p' mc')
  then show ?case
    using proc_step_ok [OF step(2) assms(2)] advances_trans [of p mc q mc1 p' mc'] by blast
qed

text \<open>
  A buffer shared while the process had this identifier is still inside its accessible memory for
  as long as the identifier is the same.
\<close>

lemma shared_buffer_stays:
  assumes "build_readwrite_process_buffer a n p0 = (Inr b, p)" "proc_ok p mc"
    "proc_steps chip (p, mc) (p', mc')" "mpu chip = M" "process_id p' = process_id p"
  shows "buf_len b = 0 \<or> in_app_owned_memory (buf_ptr b) (buf_len b) p'"
proof -
  have b: "buf_len b = 0 \<or> buf_ptr b = a \<and> buf_len b = n \<and> in_app_owned_memory a n p0 \<and>
      a + n \<le> allow_high_water_mark p \<and> memory_start p0 = memory_start p"
    using assms(1) by (auto simp: build_readwrite_process_buffer_def ProcessBuffer_new_def Let_def split: if_splits)
  have ok: "proc_ok p' mc'" "advances p mc p' mc'" using proc_steps_ok assms by blast+
  have "\<not> process_identifier_max mc \<le> pid_identifier (process_id p')"
    using assms(2,5) by (simp add: proc_ok_def not_le)
  then have w: "allow_high_water_mark p \<le> allow_high_water_mark p'" "memory_start p' = memory_start p"
    using ok(2) by (auto simp: advances_def)
  have "allow_high_water_mark p' \<le> app_break p'" using ok(1) by (simp add: proc_ok_def layout_ok_def)
  then have "a + n \<le> app_break p'" if "a + n \<le> allow_high_water_mark p" using that w(1) by simp
  then show ?thesis using b w(2) by (auto simp: in_app_owned_memory_def Let_def mem_start_def)
qed

end

end
