(* ===== verification/Upcall.thy ===== *)
theory Upcall
  imports ProcessInvariant
begin

text \<open>
  Upcalls, \<open>kernel/src/upcall.rs\<close>: the value a driver's subscription stands for, its scheduling on
  the task queue of the process, and the system call results built from it. A pointer that may be
  null is an option; \<open>null_or\<close> and \<open>NonNull_new\<close> go between it and the machine word.
\<close>

section \<open>Model\<close>

definition NonNull_new :: "usize \<Rightarrow> usize option" where
  "NonNull_new ptr = (if ptr = 0 then None else Some ptr)"

definition null_or :: "usize option \<Rightarrow> usize" where
  "null_or fp = (case fp of None \<Rightarrow> 0 | Some p \<Rightarrow> p)"

datatype UpcallError = InvalidSubscribeNum | QueueFull | UpcallKernelError

record Upcall =
  upcall_process_id :: ProcessId
  upcall_id :: UpcallId
  upcall_appdata :: usize
  upcall_fn_ptr :: "usize option"

definition Upcall_new :: "ProcessId \<Rightarrow> UpcallId \<Rightarrow> usize \<Rightarrow> usize option \<Rightarrow> Upcall" where
  "Upcall_new pid uid data fp =
     \<lparr>upcall_process_id = pid, upcall_id = uid, upcall_appdata = data, upcall_fn_ptr = fp\<rparr>"

definition schedule ::
    "Upcall \<Rightarrow> usize \<Rightarrow> usize \<Rightarrow> usize \<Rightarrow> ('cfg, 'ss) ProcessStandard \<Rightarrow>
      ((UpcallError + unit) \<times> ('cfg, 'ss) ProcessStandard) option" where
  "schedule upcall r0 r1 r2 p =
     (case upcall_fn_ptr upcall of
        None \<Rightarrow> Some (Inr (), p)
      | Some fp \<Rightarrow> do {
          (enqueue_res, p) \<leftarrow> enqueue_task (FunctionCall
            \<lparr>source = DriverSource (upcall_id upcall), argument0 = r0, argument1 = r1, argument2 = r2,
             argument3 = upcall_appdata upcall, pc = fp\<rparr>) p;
          (case enqueue_res of
             Inr _ \<Rightarrow> Some (Inr (), p)
           | Inl e \<Rightarrow>
               if e = NODEVICE then Some (Inl UpcallKernelError, p)
               else if e = NOMEM then Some (Inl QueueFull, p)
               else Some (Inl UpcallKernelError, p))
        })"

definition into_subscribe_success :: "Upcall \<Rightarrow> SyscallReturn" where
  "into_subscribe_success upcall =
     (case upcall_fn_ptr upcall of
        Some fp \<Rightarrow> SubscribeSuccess fp (upcall_appdata upcall)
      | None \<Rightarrow> SubscribeSuccess 0 (upcall_appdata upcall))"

definition into_subscribe_failure :: "Upcall \<Rightarrow> ErrorCode \<Rightarrow> SyscallReturn" where
  "into_subscribe_failure upcall err =
     (case upcall_fn_ptr upcall of
        Some fp \<Rightarrow> SubscribeFailure err fp (upcall_appdata upcall)
      | None \<Rightarrow> SubscribeFailure err 0 (upcall_appdata upcall))"

section \<open>Lemmas\<close>

lemma null_or_NonNull [simp]: "null_or (NonNull_new a) = a"
  by (simp add: null_or_def NonNull_new_def)

lemma NonNull_null_or [simp]: "fp \<noteq> Some 0 \<Longrightarrow> NonNull_new (null_or fp) = fp"
  by (cases fp) (auto simp: null_or_def NonNull_new_def)

lemma into_subscribe_eq:
  "into_subscribe_success u = SubscribeSuccess (null_or (upcall_fn_ptr u)) (upcall_appdata u)"
  "into_subscribe_failure u e = SubscribeFailure e (null_or (upcall_fn_ptr u)) (upcall_appdata u)"
  by (simp_all add: into_subscribe_success_def into_subscribe_failure_def null_or_def split: option.split)

lemma into_subscribe_is_success [simp]:
  "is_success (into_subscribe_success u)" "\<not> is_success (into_subscribe_failure u e)"
  by (simp_all add: into_subscribe_eq)

lemma schedule_null [simp]: "upcall_fn_ptr u = None \<Longrightarrow> schedule u a b c p = Some (Inr (), p)"
  by (simp add: schedule_def)

text \<open>The tasks waiting for a process, oldest first, and the call a scheduled upcall stands for.\<close>

definition queued :: "('cfg, 'ss) ProcessStandard \<Rightarrow> Task list" where
  "queued p = (case tasks p of None \<Rightarrow> [] | Some q \<Rightarrow> rb_list q)"

definition upcall_task :: "Upcall \<Rightarrow> usize \<Rightarrow> usize \<Rightarrow> usize \<Rightarrow> Task" where
  "upcall_task u r0 r1 r2 = FunctionCall
     \<lparr>source = DriverSource (upcall_id u), argument0 = r0, argument1 = r1, argument2 = r2,
      argument3 = upcall_appdata u, pc = null_or (upcall_fn_ptr u)\<rparr>"

lemma enqueue_task_room:
  assumes "is_running p" "tasks p = Some q" "rb_inv q" "length (rb_list q) < rb_capacity q"
  shows "\<exists>q'. enqueue_task t p = Some (Inr (), p\<lparr>tasks := Some q'\<rparr>) \<and> rb_inv q' \<and>
    rb_list q' = rb_list q @ [t] \<and> rb_capacity q' = rb_capacity q"
  using rbq.enqueue_room [OF assms(3,4), of t] assms(1,2) by (auto simp: enqueue_task_def)

lemma enqueue_task_full:
  assumes "is_running p" "tasks p = Some q" "rb_inv q" "length (rb_list q) = rb_capacity q"
    "enqueue_task t p = Some (r, p')"
  shows "r = Inl NOMEM \<and> tasks p' = tasks p"
  using rbq.enqueue_full [OF assms(3,4), of t] assms(1,2,5)
  by (auto simp: enqueue_task_def bind_eq_Some_conv)

lemma schedule_room:
  assumes "is_running p" "tasks p = Some q" "rb_inv q" "length (rb_list q) < rb_capacity q"
    "upcall_fn_ptr u = Some fp"
  shows "\<exists>p'. schedule u r0 r1 r2 p = Some (Inr (), p') \<and> queued p' = queued p @ [upcall_task u r0 r1 r2] \<and>
    quiet p p'"
proof -
  obtain q' where q': "enqueue_task (upcall_task u r0 r1 r2) p = Some (Inr (), p\<lparr>tasks := Some q'\<rparr>)"
      "rb_inv q'" "rb_list q' = rb_list q @ [upcall_task u r0 r1 r2]"
    using enqueue_task_room [OF assms(1-4)] by blast
  then have "schedule u r0 r1 r2 p = Some (Inr (), p\<lparr>tasks := Some q'\<rparr>)"
    using assms(5) by (simp add: schedule_def upcall_task_def null_or_def)
  then show ?thesis using q' assms(2) quiet_tasks [OF q'(2), of p] by (simp add: queued_def)
qed

lemma schedule_full:
  assumes "is_running p" "tasks p = Some q" "rb_inv q" "length (rb_list q) = rb_capacity q"
    "upcall_fn_ptr u = Some fp" "schedule u r0 r1 r2 p = Some (r, p')"
  shows "r = Inl QueueFull \<and> queued p' = queued p"
  using assms(6) unfolding schedule_def
  by (elim monad_elims) (use assms(5) in \<open>auto simp: queued_def dest!: enqueue_task_full [OF assms(1-4)]\<close>)

lemma schedule_quiet:
  assumes "schedule u a b c p = Some (r, p')" "queue_ok p"
  shows "quiet p p'"
  using assms enqueue_task_quiet [OF _ assms(2)] unfolding schedule_def
  by (elim monad_elims) auto

text \<open>Removing the pending upcalls of an identifier keeps every other task, in order.\<close>

lemma remove_pending_upcalls_queued:
  assumes "remove_pending_upcalls u p = Some p'" "queue_ok p"
  shows "queued p' = filter (keep_task u) (queued p)"
proof (cases "tasks p")
  case (Some q)
  then have "rb_inv q" using assms(2) by (simp add: queue_ok_def)
  from rbq.retain [OF this, of "keep_task u"] assms(1) Some show ?thesis
    by (auto simp: remove_pending_upcalls_def queued_def)
qed (use assms in \<open>simp add: remove_pending_upcalls_def queued_def\<close>)

lemma remove_pending_upcalls_total:
  assumes "queue_ok p"
  shows "\<exists>p'. remove_pending_upcalls u p = Some p'"
proof (cases "tasks p")
  case (Some q)
  then have "rb_inv q" using assms by (simp add: queue_ok_def)
  from rbq.retain [OF this, of "keep_task u"] Some show ?thesis by (auto simp: remove_pending_upcalls_def)
qed (simp add: remove_pending_upcalls_def)

end
