(* ===== verification/KernelState.thy ===== *)
theory KernelState
  imports Upcall
begin

text \<open>
  The state the kernel works on: the table of processes of the \<open>Kernel\<close> struct of
  \<open>kernel/src/kernel.rs\<close> together with the \<open>Machine\<close>, and the methods that find a process in it. A
  reference to a process is its slot in the table; \<open>on_proc\<close> runs a method of the process in a slot.

  The invariant \<open>sys_ok\<close> says that every process satisfies \<open>proc_ok\<close> and sits in the slot its
  identifier names, and that no two processes share memory or an identifier. \<open>sys_step\<close> is any
  method of any process, or a change of memory contents and of the world outside; it is what code
  the kernel calls out to may do.
\<close>

section \<open>Model\<close>

record ('hw, 'cfg, 'w, 'ss) System =
  procs :: "('cfg, 'ss) ProcessStandard option list"
  machine :: "('hw, 'w) Machine"

definition Kernel_new ::
    "('cfg, 'ss) ProcessStandard option list \<Rightarrow> 'hw \<Rightarrow> ram \<Rightarrow> 'w \<Rightarrow> ('hw, 'cfg, 'w, 'ss) System" where
  "Kernel_new processes hw m w =
     \<lparr>procs = processes,
      machine = \<lparr>mpu_hw = hw, memory = m, world = w, process_identifier_max = 0, grant_counter = 0,
                 grants_finalized = False\<rparr>\<rparr>"

definition slot :: "nat \<Rightarrow> ('hw, 'cfg, 'w, 'ss) System \<Rightarrow> ('cfg, 'ss) ProcessStandard option" where
  "slot i sys = Option.bind (slice_get (procs sys) i) (\<lambda>x. x)"

definition get_process :: "ProcessId \<Rightarrow> ('hw, 'cfg, 'w, 'ss) System \<Rightarrow> nat option" where
  "get_process processid sys =
     (case slot (unat (pid_index processid)) sys of
        Some p \<Rightarrow> if ProcessId_eq (process_id p) processid then Some (unat (pid_index processid)) else None
      | None \<Rightarrow> None)"

definition put_proc ::
    "nat \<Rightarrow> ('cfg, 'ss) ProcessStandard \<Rightarrow> ('hw, 'cfg, 'w, 'ss) System \<Rightarrow> ('hw, 'cfg, 'w, 'ss) System" where
  "put_proc i p sys = sys\<lparr>procs := (procs sys)[i := Some p]\<rparr>"

definition on_proc ::
    "nat \<Rightarrow> (('cfg, 'ss) ProcessStandard \<Rightarrow> ('hw, 'w) Machine \<Rightarrow>
       ('r \<times> ('cfg, 'ss) ProcessStandard \<times> ('hw, 'w) Machine) option) \<Rightarrow>
      ('hw, 'cfg, 'w, 'ss) System \<Rightarrow> ('r \<times> ('hw, 'cfg, 'w, 'ss) System) option" where
  "on_proc i f sys =
     (case slot i sys of
        None \<Rightarrow> None
      | Some p \<Rightarrow> do {
          (r, p', mc') \<leftarrow> f p (machine sys);
          Some (r, (put_proc i p' sys)\<lparr>machine := mc'\<rparr>)
        })"

definition process_map_or ::
    "'r \<Rightarrow> ProcessId \<Rightarrow> (nat \<Rightarrow> ('hw, 'cfg, 'w, 'ss) System \<Rightarrow> ('r \<times> ('hw, 'cfg, 'w, 'ss) System) option) \<Rightarrow>
      ('hw, 'cfg, 'w, 'ss) System \<Rightarrow> ('r \<times> ('hw, 'cfg, 'w, 'ss) System) option" where
  "process_map_or dflt processid closure sys =
     (case get_process processid sys of
        Some i \<Rightarrow> closure i sys
      | None \<Rightarrow> Some (dflt, sys))"

fun each_from ::
    "nat list \<Rightarrow> (nat \<Rightarrow> ('hw, 'cfg, 'w, 'ss) System \<Rightarrow> ('hw, 'cfg, 'w, 'ss) System option) \<Rightarrow>
      ('hw, 'cfg, 'w, 'ss) System \<Rightarrow> ('hw, 'cfg, 'w, 'ss) System option" where
  "each_from [] closure sys = Some sys"
| "each_from (i # is) closure sys =
     (case slot i sys of
        Some p \<Rightarrow> do { sys \<leftarrow> closure i sys; each_from is closure sys }
      | None \<Rightarrow> each_from is closure sys)"

definition process_each ::
    "(nat \<Rightarrow> ('hw, 'cfg, 'w, 'ss) System \<Rightarrow> ('hw, 'cfg, 'w, 'ss) System option) \<Rightarrow>
      ('hw, 'cfg, 'w, 'ss) System \<Rightarrow> ('hw, 'cfg, 'w, 'ss) System option" where
  "process_each closure sys = each_from [0..<length (procs sys)] closure sys"

definition get_process_iter :: "('hw, 'cfg, 'w, 'ss) System \<Rightarrow> nat list" where
  "get_process_iter sys = filter (\<lambda>i. slot i sys \<noteq> None) [0..<length (procs sys)]"

fun process_until :: "(('cfg, 'ss) ProcessStandard \<Rightarrow> 'a option) \<Rightarrow> ('cfg, 'ss) ProcessStandard option list \<Rightarrow> 'a option" where
  "process_until closure [] = None"
| "process_until closure (Some p # ps) =
     (case closure p of Some ret \<Rightarrow> Some ret | None \<Rightarrow> process_until closure ps)"
| "process_until closure (None # ps) = process_until closure ps"

definition processid_is_valid :: "ProcessId \<Rightarrow> ('hw, 'cfg, 'w, 'ss) System \<Rightarrow> bool" where
  "processid_is_valid processid sys =
     (case slot (unat (pid_index processid)) sys of
        None \<Rightarrow> False
      | Some p \<Rightarrow> pid_identifier (process_id p) = pid_identifier processid)"

definition hardfault_all_apps ::
    "('hw, 'cfg, 'w, 'ss) Chip \<Rightarrow> ('hw, 'cfg, 'w, 'ss) System \<Rightarrow> ('hw, 'cfg, 'w, 'ss) System option" where
  "hardfault_all_apps chip sys =
     process_each (\<lambda>i sys. do {
       (_, sys) \<leftarrow> on_proc i (\<lambda>p mc. do { (p, mc) \<leftarrow> set_fault_state chip p mc; Some ((), p, mc) }) sys;
       Some sys
     }) sys"

section \<open>The invariant\<close>

definition mem_disjoint :: "('cfg, 'ss) ProcessStandard \<Rightarrow> ('cfg, 'ss) ProcessStandard \<Rightarrow> bool" where
  "mem_disjoint p q \<longleftrightarrow>
     unat (memory_start p) + unat (memory_len p) \<le> unat (memory_start q) \<or>
     unat (memory_start q) + unat (memory_len q) \<le> unat (memory_start p)"

definition sys_ok :: "('hw, 'cfg, 'w, 'ss) System \<Rightarrow> bool" where
  "sys_ok sys \<longleftrightarrow>
     (\<forall>i p. slot i sys = Some p \<longrightarrow> proc_ok p (machine sys) \<and> unat (pid_index (process_id p)) = i) \<and>
     (\<forall>i j p q. slot i sys = Some p \<longrightarrow> slot j sys = Some q \<longrightarrow> i \<noteq> j \<longrightarrow>
        mem_disjoint p q \<and> pid_identifier (process_id p) \<noteq> pid_identifier (process_id q))"

text \<open>
  What a change of the whole system may do to each process: a slot never appears or disappears, and
  each process advances in the sense of \<open>advances\<close>.
\<close>

definition sys_advances ::
    "('hw, 'cfg, 'w, 'ss) System \<Rightarrow> ('hw, 'cfg, 'w, 'ss) System \<Rightarrow> bool" where
  "sys_advances sys sys' \<longleftrightarrow>
     length (procs sys') = length (procs sys) \<and>
     (\<forall>i. case slot i sys of
            None \<Rightarrow> slot i sys' = None
          | Some p \<Rightarrow> \<exists>p'. slot i sys' = Some p' \<and> advances p (machine sys) p' (machine sys'))"

inductive sys_step ::
    "('hw, 'cfg, 'w, 'ss) Chip \<Rightarrow> ('hw, 'cfg, 'w, 'ss) System \<Rightarrow> ('hw, 'cfg, 'w, 'ss) System \<Rightarrow> bool" for chip where
  sys_proc: "slot i sys = Some p \<Longrightarrow> proc_step chip (p, machine sys) (p', mc') \<Longrightarrow>
      sys_step chip sys ((put_proc i p' sys)\<lparr>machine := mc'\<rparr>)"
| sys_outside: "sys_step chip sys (sys\<lparr>machine := (machine sys)\<lparr>mpu_hw := hw, memory := m, world := w\<rparr>\<rparr>)"

abbreviation sys_steps where
  "sys_steps chip \<equiv> (sys_step chip)\<^sup>*\<^sup>*"

section \<open>Lemmas\<close>

lemma slot_put [simp]: "slot j (put_proc i p sys) = (if i = j \<and> i < length (procs sys) then Some p else slot j sys)"
  by (auto simp: slot_def put_proc_def slice_get_def)

lemma slot_machine [simp]: "slot j (sys\<lparr>machine := mc\<rparr>) = slot j sys"
  by (simp add: slot_def)

lemma put_proc_fields [simp]:
  "machine (put_proc i p sys) = machine sys" "length (procs (put_proc i p sys)) = length (procs sys)"
  by (simp_all add: put_proc_def)

lemma slot_less: "slot i sys = Some p \<Longrightarrow> i < length (procs sys)"
  by (auto simp: slot_def slice_get_def split: if_splits)

lemma on_procE:
  assumes "on_proc i f sys = Some (r, sys')"
  obtains p p' mc' where "slot i sys = Some p" "f p (machine sys) = Some (r, p', mc')"
    "sys' = (put_proc i p' sys)\<lparr>machine := mc'\<rparr>"
  using assms unfolding on_proc_def by (elim monad_elims) auto

lemma on_proc_slot:
  "on_proc i f sys = Some (r, sys') \<Longrightarrow> \<exists>p'. slot i sys' = Some p'"
  by (auto elim!: on_procE dest: slot_less)

lemma sys_okD:
  assumes "sys_ok sys" "slot i sys = Some p"
  shows "proc_ok p (machine sys)" "unat (pid_index (process_id p)) = i"
  using assms by (auto simp: sys_ok_def)

lemma proc_ok_max: "proc_ok p mc \<Longrightarrow> process_identifier_max mc \<le> process_identifier_max mc' \<Longrightarrow> proc_ok p mc'"
  by (auto simp: proc_ok_def)

lemma advances_max: "advances p mc p' mc' \<Longrightarrow> process_identifier_max mc \<le> process_identifier_max mc'"
  by (simp add: advances_def)

text \<open>One process changes, the others stay.\<close>

lemma sys_put_ok:
  assumes "sys_ok sys" "slot i sys = Some p" "proc_ok p' mc'" "advances p (machine sys) p' mc'"
  shows "sys_ok ((put_proc i p' sys)\<lparr>machine := mc'\<rparr>)" "sys_advances sys ((put_proc i p' sys)\<lparr>machine := mc'\<rparr>)"
proof -
  note max = advances_max [OF assms(4)] and ok = sys_okD [OF assms(1)]
  have id: "pid_identifier (process_id p') \<noteq> pid_identifier (process_id q)"
    if "slot j sys = Some q" "i \<noteq> j" for j q
  proof (cases "process_id p' = process_id p")
    case True
    then show ?thesis using assms(1,2) that by (auto simp: sys_ok_def)
  next
    case False
    then have "process_identifier_max (machine sys) \<le> pid_identifier (process_id p')"
      using assms(4) by (auto simp: advances_def)
    moreover have "pid_identifier (process_id q) < process_identifier_max (machine sys)"
      using ok(1) [OF that(1)] by (simp add: proc_ok_def)
    ultimately show ?thesis by auto
  qed
  have disj: "mem_disjoint p' q = mem_disjoint p q" "mem_disjoint q p' = mem_disjoint q p" for q
    using assms(4) by (auto simp: mem_disjoint_def advances_def)
  have idx: "pid_index (process_id p') = pid_index (process_id p)"
    using assms(4) by (simp add: advances_def)
  show "sys_ok ((put_proc i p' sys)\<lparr>machine := mc'\<rparr>)"
    unfolding sys_ok_def
  proof (intro conjI allI impI, goal_cases)
    case (1 j q) then show ?case using assms(3) proc_ok_max [OF ok(1) max] by (auto split: if_splits)
  next
    case (2 j q) then show ?case using idx ok(2) assms(2) by (auto split: if_splits)
  next
    case (3 j k q r)
    then show ?case using assms(1,2) disj by (auto simp: sys_ok_def split: if_splits)
  next
    case (4 j k q r)
    then show ?case using assms(1,2) id by (fastforce simp: sys_ok_def split: if_splits)
  qed
  have "advances q (machine sys) q mc'" for q :: "('b, 'd) ProcessStandard"
    using max by (simp add: advances_def)
  then show "sys_advances sys ((put_proc i p' sys)\<lparr>machine := mc'\<rparr>)"
    using assms(2,4) slot_less [OF assms(2)] by (auto simp: sys_advances_def split: option.split)
qed

lemma sys_advances_refl [simp]: "sys_advances sys sys"
  by (auto simp: sys_advances_def split: option.split)

lemma sys_advances_trans:
  assumes "sys_advances a b" "sys_advances b c"
  shows "sys_advances a c"
  unfolding sys_advances_def
proof (intro conjI allI)
  show "length (procs c) = length (procs a)" using assms by (simp add: sys_advances_def)
  fix i
  have "case slot i a of None \<Rightarrow> slot i b = None
      | Some p \<Rightarrow> \<exists>p'. slot i b = Some p' \<and> advances p (machine a) p' (machine b)"
    "case slot i b of None \<Rightarrow> slot i c = None
      | Some p \<Rightarrow> \<exists>p'. slot i c = Some p' \<and> advances p (machine b) p' (machine c)"
    using assms by (simp_all add: sys_advances_def)
  then show "case slot i a of None \<Rightarrow> slot i c = None
      | Some p \<Rightarrow> \<exists>p'. slot i c = Some p' \<and> advances p (machine a) p' (machine c)"
    by (cases "slot i a") (auto, rule advances_trans, assumption+)
qed

lemma sys_outside_ok:
  assumes "sys_ok sys"
  shows "sys_ok (sys\<lparr>machine := (machine sys)\<lparr>mpu_hw := hw, memory := m, world := w\<rparr>\<rparr>)"
    "sys_advances sys (sys\<lparr>machine := (machine sys)\<lparr>mpu_hw := hw, memory := m, world := w\<rparr>\<rparr>)"
  using assms by (auto simp: sys_ok_def proc_ok_def sys_advances_def advances_def split: option.split)

lemma get_process_own: "sys_ok sys \<Longrightarrow> slot i sys = Some p \<Longrightarrow> get_process (process_id p) sys = Some i"
  using sys_okD(2) by (fastforce simp: get_process_def ProcessId_eq_def)

lemma get_process_Some:
  "get_process pid sys = Some i \<longleftrightarrow>
     i = unat (pid_index pid) \<and> (\<exists>p. slot i sys = Some p \<and> pid_identifier (process_id p) = pid_identifier pid)"
  by (auto simp: get_process_def ProcessId_eq_def split: option.splits if_splits)

lemma processid_is_valid_iff: "processid_is_valid pid sys \<longleftrightarrow> get_process pid sys \<noteq> None"
  by (auto simp: processid_is_valid_def get_process_def ProcessId_eq_def split: option.splits)

context mpu_contract
begin

lemma sys_step_ok:
  assumes "sys_step chip sys sys'" "mpu chip = M" "sys_ok sys"
  shows "sys_ok sys' \<and> sys_advances sys sys'"
  using assms(1)
proof cases
  case (sys_proc i p p' mc')
  then show ?thesis
    using sys_put_ok [OF assms(3) sys_proc(2)] proc_step_ok [OF sys_proc(3) assms(2) sys_okD(1) [OF assms(3) sys_proc(2)]]
    by simp
next
  case (sys_outside hw m w)
  then show ?thesis using sys_outside_ok [OF assms(3)] by simp
qed

lemma sys_steps_ok:
  assumes "sys_steps chip sys sys'" "mpu chip = M" "sys_ok sys"
  shows "sys_ok sys' \<and> sys_advances sys sys'"
  using assms(1)
proof (induction rule: rtranclp_induct)
  case base
  then show ?case using assms(3) by simp
next
  case (step a b)
  then show ?case using sys_step_ok [OF step(2) assms(2)] sys_advances_trans by blast
qed

end

text \<open>
  A process that was restarted is not found under its old identifier: its identifier is new, and
  every identifier in use is below the counter.
\<close>

lemma stale_identifier:
  assumes "sys_ok sys" "sys_advances sys sys'" "slot i sys = Some p" "slot i sys' = Some p'"
    "process_id p' \<noteq> process_id p"
  shows "get_process (process_id p) sys' = None"
proof -
  have "unat (pid_index (process_id p)) = i" "pid_identifier (process_id p) < process_identifier_max (machine sys)"
    using sys_okD [OF assms(1,3)] by (auto simp: proc_ok_def)
  moreover have "process_identifier_max (machine sys) \<le> pid_identifier (process_id p')"
    using assms(2-5) by (auto simp: sys_advances_def advances_def split: option.splits dest: spec [of _ i])
  ultimately show ?thesis using assms(4) by (auto simp: get_process_def ProcessId_eq_def)
qed

end
