(* ===== verification/Memop.thy ===== *)
theory Memop
  imports KernelState
begin

text \<open>
  The memory operations of a process, \<open>kernel/src/memop.rs\<close>, and the system call filter that reads the
  permissions of the process's header, \<open>kernel/src/platform/platform.rs\<close>.
\<close>

section \<open>Model\<close>

definition memop ::
    "('hw, 'cfg, 'w, 'ss) Chip \<Rightarrow> usize \<Rightarrow> usize \<Rightarrow> ('cfg, 'ss) ProcessStandard \<Rightarrow> ('hw, 'w) Machine \<Rightarrow>
      (SyscallReturn \<times> ('cfg, 'ss) ProcessStandard \<times> ('hw, 'w) Machine) option" where
  "memop chip op_type r1 p mc =
     (if op_type = 0 then do {
        (r, p, mc) \<leftarrow> brk chip r1 p mc;
        Some (case r of Inr _ \<Rightarrow> Success | Inl _ \<Rightarrow> Failure NOMEM, p, mc)
      }
      else if op_type = 1 then do {
        (r, p, mc) \<leftarrow> sbrk chip r1 p mc;
        Some (case r of Inr addr \<Rightarrow> SuccessU32 addr | Inl _ \<Rightarrow> Failure NOMEM, p, mc)
      }
      else if op_type = 2 then do { a \<leftarrow> get_addresses p; Some (SuccessU32 (pa_sram_start a), p, mc) }
      else if op_type = 3 then do { a \<leftarrow> get_addresses p; Some (SuccessU32 (pa_sram_end a), p, mc) }
      else if op_type = 4 then do { a \<leftarrow> get_addresses p; Some (SuccessU32 (pa_flash_start a), p, mc) }
      else if op_type = 5 then do { a \<leftarrow> get_addresses p; Some (SuccessU32 (pa_flash_end a), p, mc) }
      else if op_type = 6 then do { a \<leftarrow> get_addresses p; Some (SuccessU32 (pa_sram_grant_start a), p, mc) }
      else if op_type = 7 then Some (SuccessU32 (of_nat (number_writeable_flash_regions (header p))), p, mc)
      else if op_type = 8 then do {
        a \<leftarrow> get_addresses p;
        let (offset, sz) = get_writeable_flash_region (header p) (unat r1);
        (if sz = 0 then Some (Failure FAIL, p, mc)
         else do { s \<leftarrow> chk_add (pa_flash_start a) offset; Some (SuccessU32 s, p, mc) })
      }
      else if op_type = 9 then do {
        a \<leftarrow> get_addresses p;
        let (offset, sz) = get_writeable_flash_region (header p) (unat r1);
        (if sz = 0 then Some (Failure FAIL, p, mc)
         else do { s \<leftarrow> chk_add (pa_flash_start a) offset; s \<leftarrow> chk_add s sz; Some (SuccessU32 s, p, mc) })
      }
      else if op_type = 10 then Some (Success, update_stack_start_pointer r1 p, mc)
      else if op_type = 11 then Some (Success, update_heap_start_pointer r1 p, mc)
      else Some (Failure NOSUPPORT, p, mc))"

subsection \<open>Filtering by the header\<close>

definition any_permission :: "CommandPermissions \<Rightarrow> ErrorCode + unit" where
  "any_permission cp =
     (case cp of NoPermsAtAll \<Rightarrow> Inr () | NoPermsThisDriver \<Rightarrow> Inl NODEVICE | Mask _ \<Rightarrow> Inr ())"

fun filter_syscall_default_allow :: "('cfg, 'ss) ProcessStandard \<Rightarrow> Syscall \<Rightarrow> ErrorCode + unit" where
  "filter_syscall_default_allow p (Subscribe d s u a) = any_permission (get_command_permissions (header p) d 0)"
| "filter_syscall_default_allow p (Command d s a b) =
     (case get_command_permissions (header p) d (s div 64) of
        NoPermsAtAll \<Rightarrow> Inr ()
      | NoPermsThisDriver \<Rightarrow> Inl NODEVICE
      | Mask allowed \<Rightarrow>
          if push_bit (unat (s mod 64)) 1 AND allowed > 0 then Inr () else Inl NODEVICE)"
| "filter_syscall_default_allow p (ReadWriteAllow d s a n) = any_permission (get_command_permissions (header p) d 0)"
| "filter_syscall_default_allow p (UserspaceReadableAllow d s a n) = any_permission (get_command_permissions (header p) d 0)"
| "filter_syscall_default_allow p (ReadOnlyAllow d s a n) = any_permission (get_command_permissions (header p) d 0)"
| "filter_syscall_default_allow p (Yield w a) = Inr ()"
| "filter_syscall_default_allow p (Memop q a) = Inr ()"
| "filter_syscall_default_allow p (Exit w c) = Inr ()"

section \<open>Lemmas\<close>

text \<open>A memory operation is one of the methods of the process, so it is a sequence of its steps.\<close>

lemma memop_steps:
  assumes "memop chip t a p mc = Some (r, p', mc')"
  shows "proc_steps chip (p, mc) (p', mc')"
proof -
  have "(\<exists>x. brk chip a p mc = Some (x, p', mc')) \<or> (\<exists>x. sbrk chip a p mc = Some (x, p', mc')) \<or>
      p' = update_stack_start_pointer a p \<and> mc' = mc \<or> p' = update_heap_start_pointer a p \<and> mc' = mc \<or>
      p' = p \<and> mc' = mc"
    using assms unfolding memop_def Let_def by (elim monad_elims) auto
  then show ?thesis
    using step_brk [of chip a p mc _ p' mc'] step_sbrk [of chip a p mc _ p' mc'] step_stack [of chip p mc a]
      step_heap [of chip p mc a] by auto
qed

lemma memop_unknown: "12 \<le> unat t \<Longrightarrow> memop chip t a p mc = Some (Failure NOSUPPORT, p, mc)"
  by (auto simp: memop_def)

text \<open>Command number \<open>s\<close> passes exactly when bit \<open>s mod 64\<close> of the mask for its block of 64 is set.\<close>

lemma filter_command_iff:
  assumes "get_command_permissions (header p) d (s div 64) = Mask allowed"
  shows "filter_syscall_default_allow p (Command d s a b) = Inr () \<longleftrightarrow> bit allowed (unat (s mod 64))"
proof -
  have "push_bit n (1 :: u64) AND allowed \<noteq> 0 \<longleftrightarrow> bit allowed n" if "n < 64" for n
  proof
    assume "push_bit n 1 AND allowed \<noteq> 0"
    then obtain k where "bit (push_bit n 1 AND allowed) k" by (auto simp: bit_eq_iff)
    then show "bit allowed n" by (auto simp: bit_simps)
  next
    assume "bit allowed n"
    then have "bit (push_bit n 1 AND allowed) n" using that by (simp add: bit_simps)
    then show "push_bit n 1 AND allowed \<noteq> 0" by auto
  qed
  moreover have "unat (s mod 64) < 64" by (simp add: unat_mod)
  ultimately show ?thesis using assms by (simp add: word_gt_0)
qed

lemma filter_command_listed:
  assumes "header p = TbfHeaderV2 h" "hd_permissions h = Some ps"
  shows "filter_syscall_default_allow p (Command d s a b) = Inr () \<longleftrightarrow>
    (\<exists>e. find (\<lambda>q. perm_driver_number q = d \<and> perm_offset q = s div 64) (perms ps) = Some e \<and>
       bit (allowed_commands e) (unat (s mod 64)))"
proof -
  let ?f = "find (\<lambda>q. perm_driver_number q = d \<and> perm_offset q = s div 64) (perms ps)"
  have perms: "get_command_permissions (header p) d (s div 64) =
      (case ?f of Some e \<Rightarrow> Mask (allowed_commands e)
       | None \<Rightarrow> if d \<in> perm_driver_number ` set (perms ps) then Mask 0 else NoPermsThisDriver)"
    using assms by (simp add: get_command_permissions_def command_permissions_loop_eq)
  show ?thesis
  proof (cases ?f)
    case None
    then show ?thesis using perms filter_command_iff [of p d s 0 a b] by (auto split: if_splits)
  next
    case (Some e)
    then show ?thesis using perms filter_command_iff [of p d s "allowed_commands e" a b] by simp
  qed
qed

lemma filter_no_permissions:
  "get_command_permissions (header p) d = (\<lambda>_. NoPermsAtAll) \<Longrightarrow>
     filter_syscall_default_allow p (Command d s a b) = Inr () \<and>
     filter_syscall_default_allow p (Subscribe d s a b) = Inr ()"
  by (simp add: any_permission_def)

end
