(* ===== verification/ProcessLoading.thy ===== *)
theory ProcessLoading
  imports ProcessInvariant
begin

text \<open>
  Creating processes: \<open>ProcessStandard::create\<close> of \<open>kernel/src/process_standard.rs\<close> and the loader
  of \<open>kernel/src/process_loading.rs\<close> that walks the applications in flash. The slice of flash is its
  address and its bytes; the slice of unused memory its address and its length, since the loader
  never reads it. Each stage of \<open>create\<close> is a definition of its own.
\<close>

section \<open>Model\<close>

datatype ProcessLoadError =
    TbfHeaderNotFound
  | TbfHeaderParseFailure TbfParseError
  | LoadNotEnoughFlash
  | NotEnoughMemory
  | MpuInvalidFlashLength
  | MpuConfigurationError
  | MemoryAddressMismatch u32 u32
  | IncorrectFlashAddress u32 u32
  | IncompatibleKernelVersion "(u16 \<times> u16) option"
  | CredentialsNoAccept
  | CredentialsReject u32
  | LoadInternalError

type_synonym flash_slice = "usize \<times> u8 list"
type_synonym mem_slice = "usize \<times> usize"

definition KERNEL_MAJOR_VERSION :: u16 where
  "KERNEL_MAJOR_VERSION = 2"

definition KERNEL_MINOR_VERSION :: u16 where
  "KERNEL_MINOR_VERSION = 1"

definition check_kernel_version :: "TbfHeader \<Rightarrow> bool \<Rightarrow> ProcessLoadError + unit" where
  "check_kernel_version tbf_header require_kernel_version =
     (case get_kernel_version tbf_header of
        Some (major, minor) \<Rightarrow>
          if KERNEL_MAJOR_VERSION \<noteq> major \<or> KERNEL_MINOR_VERSION < minor
          then Inl (IncompatibleKernelVersion (Some (major, minor))) else Inr ()
      | None \<Rightarrow> if require_kernel_version then Inl (IncompatibleKernelVersion None) else Inr ())"

definition check_fixed_flash :: "usize \<Rightarrow> TbfHeader \<Rightarrow> (ProcessLoadError + unit) option" where
  "check_fixed_flash flash_addr tbf_header =
     (case get_fixed_address_flash tbf_header of
        None \<Rightarrow> Some (Inr ())
      | Some expected_address \<Rightarrow> do {
          n \<leftarrow> get_protected_size tbf_header;
          actual_address \<leftarrow> chk_add flash_addr n;
          Some (if actual_address \<noteq> expected_address
                then Inl (IncorrectFlashAddress actual_address expected_address) else Inr ())
        })"

definition kernel_memory_size ::
    "('hw, 'cfg, 'w, 'ss) Chip \<Rightarrow> usize \<Rightarrow> (usize \<times> usize) option" where
  "kernel_memory_size chip grant_ptrs_num = do {
     grant_ptrs_offset \<leftarrow> chk_mul grant_ptrs_num 8;
     callbacks_offset \<leftarrow> CALLBACKS_OFFSET chip;
     n \<leftarrow> chk_add grant_ptrs_offset callbacks_offset;
     n \<leftarrow> chk_add n (size_of_ProcessStandard chip);
     initial_kernel_memory_size \<leftarrow> chk_add n 4;
     Some (grant_ptrs_offset, initial_kernel_memory_size)
   }"

definition adjust_fixed_ram ::
    "TbfHeader \<Rightarrow> mem_slice \<Rightarrow> ((ProcessLoadError \<times> mem_slice) + mem_slice) option" where
  "adjust_fixed_ram tbf_header remaining_memory =
     (let (ptr, len) = remaining_memory in
      case get_fixed_address_ram tbf_header of
        None \<Rightarrow> Some (Inr (ptr, len))
      | Some fixed_memory_start \<Rightarrow>
          if fixed_memory_start = ptr then Some (Inr (ptr, len))
          else if fixed_memory_start > ptr then
            (let diff = fixed_memory_start - ptr in
             if diff > len then do {
               a \<leftarrow> chk_add ptr len;
               actual_address \<leftarrow> chk_sub a 1;
               Some (Inl (MemoryAddressMismatch actual_address fixed_memory_start, (ptr, len)))
             }
             else Some (Inr (ptr + diff, len - diff)))
          else Some (Inl (MemoryAddressMismatch ptr fixed_memory_start, (ptr, len))))"

definition check_fixed_ram :: "TbfHeader \<Rightarrow> usize \<Rightarrow> usize \<Rightarrow> (ProcessLoadError + unit) option" where
  "check_fixed_ram tbf_header ptr app_memory_start_offset =
     (case get_fixed_address_ram tbf_header of
        None \<Rightarrow> Some (Inr ())
      | Some expected_address \<Rightarrow> do {
          actual_address \<leftarrow> chk_add ptr app_memory_start_offset;
          Some (if actual_address \<noteq> expected_address
                then Inl (MemoryAddressMismatch actual_address expected_address) else Inr ())
        })"

text \<open>
  \<open>split_at_mut\<close> panics when the position is past the end of the slice.
\<close>

definition split_at_mut :: "mem_slice \<Rightarrow> usize \<Rightarrow> (mem_slice \<times> mem_slice) option" where
  "split_at_mut s n = (let (ptr, len) = s in if n \<le> len then Some ((ptr, n), (ptr + n, len - n)) else None)"

definition initial_kernel_break ::
    "('hw, 'cfg, 'w, 'ss) Chip \<Rightarrow> usize \<Rightarrow> usize \<Rightarrow> usize option" where
  "initial_kernel_break chip region_end grant_ptrs_offset = do {
     callbacks_offset \<leftarrow> CALLBACKS_OFFSET chip;
     let kernel_memory_break = region_end - region_end mod 4;
     let kernel_memory_break = kernel_memory_break - grant_ptrs_offset;
     let kernel_memory_break = kernel_memory_break - callbacks_offset;
     Some (kernel_memory_break - size_of_ProcessStandard chip)
   }"

definition new_process ::
    "('hw, 'cfg, 'w, 'ss) Chip \<Rightarrow> flash_slice \<Rightarrow> u8 list \<Rightarrow> TbfHeader \<Rightarrow> ProcessFaultPolicy \<Rightarrow> ProcessId \<Rightarrow>
      usize \<Rightarrow> usize \<Rightarrow> usize \<Rightarrow> usize \<Rightarrow> usize \<Rightarrow> 'cfg \<Rightarrow> ('cfg, 'ss) ProcessStandard" where
  "new_process chip app_flash footer_region tbf_header policy pid mem_addr mem_len app_brk kernel_brk grant_ptrs_num config =
     \<lparr>process_id = pid, app_id = LocallyUnique, memory_start = mem_addr, memory_len = mem_len,
      grant_pointers = Some (replicate (unat grant_ptrs_num) \<lparr>gp_driver_num = 0, grant_ptr = 0\<rparr>),
      kernel_memory_break = kernel_brk, app_break = app_brk, allow_high_water_mark = mem_addr,
      flash_ptr = fst app_flash, flash_bytes = snd app_flash, footers = footer_region, header = tbf_header,
      credentials = None, stored_state = Some (ukb_default (ukb chip)), pstate = CredentialsUnchecked,
      fault_policy = policy, mpu_config = Some config, mpu_regions = replicate 6 None,
      tasks = Some (rb_new (replicate (unat CALLBACK_LEN)
        (FunctionCall \<lparr>source = KernelSource, argument0 = 0, argument1 = 0, argument2 = 0, argument3 = 0, pc = 0\<rparr>))),
      restart_count = 0, exit_code = None,
      process_name = (case get_package_name tbf_header of Some n \<Rightarrow> n | None \<Rightarrow> []),
      debug = Some \<lparr>fixed_address_flash = get_fixed_address_flash tbf_header,
        fixed_address_ram = get_fixed_address_ram tbf_header,
        app_heap_start_pointer = None, app_stack_start_pointer = None, app_stack_min_pointer = None,
        syscall_count = 0, last_syscall = None, dropped_upcall_count = 0, timeslice_expiration_count = 0\<rparr>\<rparr>"

text \<open>
  The last stage, from the allocation the protection unit returned: the slice is divided into the
  accessible part and the kernel's part, and the process struct is filled in. The ring of pending
  tasks starts out empty; the slots of its array are whatever the memory held, a fixed task here.
\<close>

definition create_in ::
    "('hw, 'cfg, 'w, 'ss) Chip \<Rightarrow> flash_slice \<Rightarrow> u8 list \<Rightarrow> TbfHeader \<Rightarrow> ProcessFaultPolicy \<Rightarrow> usize \<Rightarrow>
      mem_slice \<Rightarrow> usize \<Rightarrow> usize \<Rightarrow> usize \<Rightarrow> usize \<Rightarrow> usize \<Rightarrow> 'cfg \<Rightarrow> ('hw, 'w) Machine \<Rightarrow>
      (((ProcessLoadError \<times> mem_slice) + (('cfg, 'ss) ProcessStandard option \<times> mem_slice)) \<times> ('hw, 'w) Machine) option" where
  "create_in chip app_flash footer_region tbf_header policy index remaining_memory app_memory_start_offset
       allocation_size min_process_memory_size grant_ptrs_num grant_ptrs_offset config mc = do {
     n \<leftarrow> chk_add app_memory_start_offset allocation_size;
     (allocated_padded_memory, unused_memory) \<leftarrow> split_at_mut remaining_memory n;
     (_, allocated_memory) \<leftarrow> split_at_mut allocated_padded_memory app_memory_start_offset;
     (app_accessible_memory, allocated_kernel_memory) \<leftarrow> split_at_mut allocated_memory min_process_memory_size;
     let initial_app_brk = fst app_accessible_memory + snd app_accessible_memory;
     kernel_brk \<leftarrow> initial_kernel_break chip (fst allocated_kernel_memory + snd allocated_kernel_memory) grant_ptrs_offset;
     (unique_identifier, mc) \<leftarrow> create_process_identifier mc;
     let p = new_process chip app_flash footer_region tbf_header policy (ProcessId_new unique_identifier index)
               (fst allocated_memory) (snd allocated_memory) initial_app_brk kernel_brk grant_ptrs_num config;
     (r, ss, m) \<leftarrow> ukb_initialize_process (ukb chip) (fst app_accessible_memory) initial_app_brk
                     (ukb_default (ukb chip)) (memory mc);
     let mc = mc\<lparr>memory := m\<rparr>;
     (case r of
        Inl _ \<Rightarrow> Some (Inl (LoadInternalError, unused_memory), mc)
      | Inr _ \<Rightarrow> Some (Inr (Some (p\<lparr>stored_state := Some ss\<rparr>), unused_memory), mc))
   }"

text \<open>The middle stage: the protection unit is asked for the flash region and for the memory.\<close>

definition create_allocate ::
    "('hw, 'cfg, 'w, 'ss) Chip \<Rightarrow> flash_slice \<Rightarrow> u8 list \<Rightarrow> TbfHeader \<Rightarrow> ProcessFaultPolicy \<Rightarrow> usize \<Rightarrow>
      mem_slice \<Rightarrow> ('hw, 'w) Machine \<Rightarrow>
      (((ProcessLoadError \<times> mem_slice) + (('cfg, 'ss) ProcessStandard option \<times> mem_slice)) \<times> ('hw, 'w) Machine) option" where
  "create_allocate chip app_flash footer_region tbf_header policy index remaining_memory mc = do {
     let process_ram_requested_size = get_minimum_app_ram_size tbf_header;
     let (config, hw) = mpu_new_config (mpu chip) (mpu_hw mc);
     let mc = mc\<lparr>mpu_hw := hw\<rparr>;
     (case config of
        None \<Rightarrow> Some (Inl (MpuConfigurationError, remaining_memory), mc)
      | Some config \<Rightarrow> do {
          let flash_len = of_nat (length (snd app_flash));
          (flash_region, config) \<leftarrow>
            mpu_allocate_region (mpu chip) (fst app_flash) flash_len flash_len ReadExecuteOnly config;
          if flash_region = None then Some (Inl (MpuInvalidFlashLength, remaining_memory), mc)
          else do {
            let (grant_ptrs_num, mc) = get_grant_count_and_finalize mc;
            (grant_ptrs_offset, initial_kernel_memory_size) \<leftarrow> kernel_memory_size chip grant_ptrs_num;
            let min_process_memory_size = ukb_initial_process_app_brk_size (ukb chip);
            let min_process_ram_size = max process_ram_requested_size min_process_memory_size;
            min_total_memory_size \<leftarrow> chk_add min_process_ram_size initial_kernel_memory_size;
            adjusted \<leftarrow> adjust_fixed_ram tbf_header remaining_memory;
            (case adjusted of
               Inl err \<Rightarrow> Some (Inl err, mc)
             | Inr remaining_memory \<Rightarrow> do {
                 (allocation, config) \<leftarrow>
                   mpu_allocate_app_memory_region (mpu chip) (fst remaining_memory) (snd remaining_memory)
                     min_total_memory_size min_process_memory_size initial_kernel_memory_size ReadWriteOnly config;
                 (case allocation of
                    None \<Rightarrow> Some (Inl (NotEnoughMemory, remaining_memory), mc)
                  | Some (allocation_start, allocation_size) \<Rightarrow> do {
                      app_memory_start_offset \<leftarrow> chk_sub allocation_start (fst remaining_memory);
                      fixed \<leftarrow> check_fixed_ram tbf_header (fst remaining_memory) app_memory_start_offset;
                      (case fixed of
                         Inl err \<Rightarrow> Some (Inl (err, remaining_memory), mc)
                       | Inr _ \<Rightarrow>
                           create_in chip app_flash footer_region tbf_header policy index remaining_memory
                             app_memory_start_offset allocation_size min_process_memory_size grant_ptrs_num
                             grant_ptrs_offset config mc)
                    })
               })
          }
        })
   }"

definition create ::
    "('hw, 'cfg, 'w, 'ss) Chip \<Rightarrow> flash_slice \<Rightarrow> nat \<Rightarrow> u16 \<Rightarrow> mem_slice \<Rightarrow> ProcessFaultPolicy \<Rightarrow> bool \<Rightarrow>
      usize \<Rightarrow> ('hw, 'w) Machine \<Rightarrow>
      (((ProcessLoadError \<times> mem_slice) + (('cfg, 'ss) ProcessStandard option \<times> mem_slice)) \<times> ('hw, 'w) Machine) option" where
  "create chip app_flash header_length app_version remaining_memory policy require_kernel_version index mc =
     (case slice_range (snd app_flash) 0 header_length of
        None \<Rightarrow> Some (Inl (LoadNotEnoughFlash, remaining_memory), mc)
      | Some header_flash \<Rightarrow>
          (case parse_tbf_header header_flash app_version of
             Inl err \<Rightarrow> Some (Inl (TbfHeaderParseFailure err, remaining_memory), mc)
           | Inr tbf_header \<Rightarrow>
               if \<not> is_app tbf_header \<or> \<not> tbf_enabled tbf_header then Some (Inr (None, remaining_memory), mc)
               else
                 (case check_kernel_version tbf_header require_kernel_version of
                    Inl err \<Rightarrow> Some (Inl (err, remaining_memory), mc)
                  | Inr _ \<Rightarrow>
                      (case slice_range (snd app_flash) (unat (get_binary_end tbf_header)) (length (snd app_flash)) of
                         None \<Rightarrow> Some (Inl (LoadNotEnoughFlash, remaining_memory), mc)
                       | Some footer_region \<Rightarrow> do {
                           fixed \<leftarrow> check_fixed_flash (fst app_flash) tbf_header;
                           (case fixed of
                              Inl err \<Rightarrow> Some (Inl (err, remaining_memory), mc)
                            | Inr _ \<Rightarrow>
                                create_allocate chip app_flash footer_region tbf_header policy index remaining_memory mc)
                         }))))"

subsection \<open>The loader\<close>

definition entry_lengths :: "u8 list \<Rightarrow> (u16 \<times> u16 \<times> u32) option" where
  "entry_lengths hdr =
     (case parse_tbf_header_lengths hdr of
        Inr (v, hl, el) \<Rightarrow> Some (v, hl, el)
      | Inl (InvalidHeader entry_length) \<Rightarrow> Some (0, 0, entry_length)
      | Inl UnableToParse \<Rightarrow> None)"

definition load_process ::
    "('hw, 'cfg, 'w, 'ss) Chip \<Rightarrow> flash_slice \<Rightarrow> mem_slice \<Rightarrow> usize \<Rightarrow> ProcessFaultPolicy \<Rightarrow> ('hw, 'w) Machine \<Rightarrow>
      (((flash_slice \<times> mem_slice \<times> ProcessLoadError) + (flash_slice \<times> mem_slice \<times> ('cfg, 'ss) ProcessStandard option)) \<times>
        ('hw, 'w) Machine) option" where
  "load_process chip app_flash app_memory index policy mc =
     (case slice_range (snd app_flash) 0 8 of
        None \<Rightarrow> Some (Inl (app_flash, app_memory, LoadNotEnoughFlash), mc)
      | Some test_header_slice \<Rightarrow>
          (case entry_lengths test_header_slice of
             None \<Rightarrow> Some (Inl (app_flash, app_memory, TbfHeaderNotFound), mc)
           | Some (version, header_length, entry_length) \<Rightarrow>
               (case slice_range (snd app_flash) 0 (unat entry_length) of
                  None \<Rightarrow> Some (Inl (app_flash, app_memory, LoadNotEnoughFlash), mc)
                | Some entry_flash \<Rightarrow>
                    (case slice_from (snd app_flash) (length entry_flash) of
                       None \<Rightarrow> Some (Inl (app_flash, app_memory, LoadNotEnoughFlash), mc)
                     | Some rest \<Rightarrow>
                         let remaining_flash = (fst app_flash + of_nat (length entry_flash), rest) in
                         if header_length > 0 then do {
                           (r, mc) \<leftarrow> create chip (fst app_flash, entry_flash) (unat header_length) version app_memory
                                       policy True index mc;
                           (case r of
                              Inl (err, mem) \<Rightarrow> Some (Inl (remaining_flash, mem, err), mc)
                            | Inr (process_option, unused_memory) \<Rightarrow>
                                Some (Inr (remaining_flash, unused_memory, process_option), mc))
                         }
                         else Some (Inr (remaining_flash, app_memory, None), mc)))))"

text \<open>
  The loop of \<open>load_processes_from_flash\<close>. It may not return, so it is a partial function:
  \<open>None\<close> is a panic of \<open>create\<close> or a loop without end. The result is the process table.
\<close>

partial_function (option) load_loop ::
    "('hw, 'cfg, 'w, 'ss) Chip \<Rightarrow> ProcessFaultPolicy \<Rightarrow> flash_slice \<Rightarrow> mem_slice \<Rightarrow> nat \<Rightarrow>
      ('cfg, 'ss) ProcessStandard option list \<Rightarrow> ('hw, 'w) Machine \<Rightarrow>
      (('cfg, 'ss) ProcessStandard option list \<times> ('hw, 'w) Machine) option" where
  "load_loop chip policy remaining_flash remaining_memory index procs mc =
     (if index < length procs then do {
        (r, mc) \<leftarrow> load_process chip remaining_flash remaining_memory (of_nat index) policy mc;
        (case r of
           Inl _ \<Rightarrow> Some (procs, mc)
         | Inr (new_flash, new_mem, proc) \<Rightarrow>
             (case proc of
                Some _ \<Rightarrow> load_loop chip policy new_flash new_mem (index + 1) (procs[index := proc]) mc
              | None \<Rightarrow> load_loop chip policy new_flash new_mem index procs mc))
      }
      else Some (procs, mc))"

definition load_processes_from_flash ::
    "('hw, 'cfg, 'w, 'ss) Chip \<Rightarrow> flash_slice \<Rightarrow> mem_slice \<Rightarrow> ('cfg, 'ss) ProcessStandard option list \<Rightarrow>
      ProcessFaultPolicy \<Rightarrow> ('hw, 'w) Machine \<Rightarrow>
      ((ProcessLoadError + unit) \<times> ('cfg, 'ss) ProcessStandard option list \<times> ('hw, 'w) Machine) option" where
  "load_processes_from_flash chip app_flash app_memory procs policy mc = do {
     (procs, mc) \<leftarrow> load_loop chip policy app_flash app_memory 0 procs mc;
     Some (Inr (), procs, mc)
   }"

fun approve_all ::
    "('cfg, 'ss) ProcessStandard option list \<Rightarrow>
      (ProcessLoadError + unit) \<times> ('cfg, 'ss) ProcessStandard option list" where
  "approve_all [] = (Inr (), [])"
| "approve_all (None # ps) = (let (r, ps') = approve_all ps in (r, None # ps'))"
| "approve_all (Some p # ps) =
     (let (r, p') = mark_credentials_pass None LocallyUnique p in
      case r of
        Inl _ \<Rightarrow> (Inl LoadInternalError, Some p' # ps)
      | Inr _ \<Rightarrow> (let (r, ps') = approve_all ps in (r, Some p' # ps')))"

definition load_processes ::
    "('hw, 'cfg, 'w, 'ss) Chip \<Rightarrow> flash_slice \<Rightarrow> mem_slice \<Rightarrow> ('cfg, 'ss) ProcessStandard option list \<Rightarrow>
      ProcessFaultPolicy \<Rightarrow> ('hw, 'w) Machine \<Rightarrow>
      ((ProcessLoadError + unit) \<times> ('cfg, 'ss) ProcessStandard option list \<times> ('hw, 'w) Machine) option" where
  "load_processes chip app_flash app_memory procs policy mc = do {
     (_, procs, mc) \<leftarrow> load_processes_from_flash chip app_flash app_memory procs policy mc;
     let (r, procs) = approve_all procs;
     Some (r, procs, mc)
   }"

section \<open>Memory of a new process\<close>

definition slice_ok :: "mem_slice \<Rightarrow> bool" where
  "slice_ok s \<longleftrightarrow> 0 < unat (fst s) \<and> unat (fst s) + unat (snd s) < 2 ^ 32"

definition slice_end :: "mem_slice \<Rightarrow> nat" where
  "slice_end s = unat (fst s) + unat (snd s)"

lemma split_at_mutD:
  assumes "split_at_mut s n = Some (a, b)" "slice_ok s"
  shows "a = (fst s, n)" "unat n \<le> unat (snd s)" "unat (fst b) = unat (fst s) + unat n"
    "slice_end b = slice_end s" "slice_ok a" "slice_ok b"
proof -
  have n: "unat n \<le> unat (snd s)" and ab: "a = (fst s, n)" "b = (fst s + n, snd s - n)"
    using assms(1) by (auto simp: split_at_mut_def word_le_nat_alt split: prod.splits if_splits)
  have "unat (fst s + n) = unat (fst s) + unat n" "unat (snd s - n) = unat (snd s) - unat n"
    using n assms(2) chk_addI(2) [of "fst s" n] chk_subI(2) [of n "snd s"] by (simp_all add: slice_ok_def)
  then show "a = (fst s, n)" "unat n \<le> unat (snd s)" "unat (fst b) = unat (fst s) + unat n"
    "slice_end b = slice_end s" "slice_ok a" "slice_ok b"
    using n ab assms(2) by (simp_all add: slice_ok_def slice_end_def)
qed

lemma initial_kernel_break_eq:
  assumes "initial_kernel_break chip e g = Some kb" "CALLBACKS_OFFSET chip = Some cb"
    "unat g + unat cb + unat (size_of_ProcessStandard chip) + 4 \<le> unat e"
  shows "unat e \<le> unat kb + (unat g + unat cb + unat (size_of_ProcessStandard chip)) + 3" "unat kb \<le> unat e"
    "kb = e - e mod 4 - g - cb - size_of_ProcessStandard chip"
proof -
  have kb: "kb = e - e mod 4 - g - cb - size_of_ProcessStandard chip"
    using assms(1,2) by (simp add: initial_kernel_break_def Let_def)
  have m: "unat (e mod 4) = unat e mod 4" by (simp add: unat_mod)
  then have m3: "unat (e mod 4) \<le> 3" "unat (e mod 4) \<le> unat e" by simp_all
  have "unat (e - e mod 4) = unat e - unat (e mod 4)" using chk_subI(2) [of "e mod 4" e] m3 by simp
  moreover from this have "unat (e - e mod 4 - g) = unat e - unat (e mod 4) - unat g"
    using chk_subI(2) [of g "e - e mod 4"] assms(3) m3 by simp
  moreover from this have "unat (e - e mod 4 - g - cb) = unat e - unat (e mod 4) - unat g - unat cb"
    using chk_subI(2) [of cb "e - e mod 4 - g"] assms(3) m3 by simp
  moreover from this have "unat kb = unat e - unat (e mod 4) - unat g - unat cb - unat (size_of_ProcessStandard chip)"
    using chk_subI(2) [of "size_of_ProcessStandard chip" "e - e mod 4 - g - cb"] assms(3) m3 by (simp add: kb)
  ultimately show "unat e \<le> unat kb + (unat g + unat cb + unat (size_of_ProcessStandard chip)) + 3" "unat kb \<le> unat e"
    using m3 assms(3) by linarith+
  show "kb = e - e mod 4 - g - cb - size_of_ProcessStandard chip" by (rule kb)
qed

lemma kernel_memory_sizeE:
  assumes "kernel_memory_size chip n = Some (g, k)"
  obtains cb where "CALLBACKS_OFFSET chip = Some cb" "unat g = unat n * 8"
    "unat k = unat g + unat cb + unat (size_of_ProcessStandard chip) + 4"
  using assms by (auto simp: kernel_memory_size_def bind_eq_Some_conv checked_arith)

text \<open>What \<open>create\<close> promises about the process and the memory that is left.\<close>

definition carved ::
    "mem_slice \<Rightarrow> ('hw, 'w) Machine \<Rightarrow> ('cfg, 'ss) ProcessStandard \<Rightarrow> mem_slice \<Rightarrow> ('hw, 'w) Machine \<Rightarrow> bool" where
  "carved mem mc p mem' mc' \<longleftrightarrow>
     proc_ok p mc' \<and> pstate p = CredentialsUnchecked \<and>
     unat (fst mem) \<le> unat (memory_start p) \<and> unat (mem_end p) = unat (fst mem') \<and>
     slice_end mem' = slice_end mem \<and>
     pid_identifier (process_id p) = process_identifier_max mc \<and>
     unat (process_identifier_max mc') = unat (process_identifier_max mc) + 1"

lemma new_process_ok:
  assumes "pid_identifier pid < process_identifier_max mc" "layout_ok p"
    "p = (new_process chip fl ft h pol pid a n ab kb g c)\<lparr>stored_state := ss\<rparr>"
  shows "proc_ok p mc"
  using assms(1,2) unfolding assms(3) proc_ok_def
  by (simp add: new_process_def grants_ok_def grant_ok_def queue_ok_def list_all_iff rb_new_inv CALLBACK_LEN_def)

lemma create_in_carved:
  assumes "create_in chip fl ft h pol i mem off sz app g go c mc = Some (Inr (Some p, mem'), mc')"
    "slice_ok mem" "CALLBACKS_OFFSET chip = Some cb"
    "unat app + (unat go + unat cb + unat (size_of_ProcessStandard chip) + 4) \<le> unat sz"
  shows "carved mem mc p mem' mc'"
proof -
  obtain n pad x al acc ker kb uid mc1 ss m where f:
      "chk_add off sz = Some n" "split_at_mut mem n = Some (pad, mem')" "split_at_mut pad off = Some (x, al)"
      "split_at_mut al app = Some (acc, ker)" "initial_kernel_break chip (fst ker + snd ker) go = Some kb"
      "create_process_identifier mc = Some (uid, mc1)" "mc' = mc1\<lparr>memory := m\<rparr>"
      "p = (new_process chip fl ft h pol (ProcessId_new uid i) (fst al) (snd al) (fst acc + snd acc) kb g c)
             \<lparr>stored_state := Some ss\<rparr>"
    using assms(1) unfolding create_in_def Let_def
  proof (elim monad_elims, goal_cases)
    case 1
    then show ?case by simp
  next
    case 2
    from 2(2-) show ?case
      by (clarsimp simp only: option.inject prod.inject sum.inject) (rule 2(1); (assumption | rule refl))
  qed
  from f(6) have id: "uid = process_identifier_max mc" "unat (process_identifier_max mc') = unat (process_identifier_max mc) + 1"
    by (auto elim!: create_process_identifierE simp: f(7))
  have n: "unat n = unat off + unat sz" using f(1) by (simp add: checked_arith)
  have pad: "pad = (fst mem, n)" "unat n \<le> unat (snd mem)" "unat (fst mem') = unat (fst mem) + unat n"
    "slice_end mem' = slice_end mem" "slice_ok pad"
    using split_at_mutD [OF f(2) assms(2)] by simp_all
  have al: "unat (fst al) = unat (fst mem) + unat off" "slice_end al = unat (fst mem) + unat n" "slice_ok al"
    using split_at_mutD [OF f(3) pad(5)] pad(1) by (simp_all add: slice_end_def)
  then have sz: "unat (snd al) = unat sz" using n by (simp add: slice_end_def)
  have acc: "acc = (fst al, app)" "unat (fst ker) = unat (fst al) + unat app" "slice_end ker = slice_end al" "slice_ok ker"
    "unat app \<le> unat (snd al)"
    using split_at_mutD [OF f(4) al(3)] by simp_all
  have e: "unat (fst ker + snd ker) = unat (fst al) + unat sz"
    using acc(3,4) al sz chk_addI(2) [of "fst ker" "snd ker"] by (simp add: slice_end_def slice_ok_def)
  have kb: "unat (fst al) + unat sz \<le> unat kb + (unat go + unat cb + unat (size_of_ProcessStandard chip)) + 3"
    "unat kb \<le> unat (fst al) + unat sz"
    using initial_kernel_break_eq [OF f(5) assms(3)] e assms(4) by simp_all
  have brk: "unat (fst al + app) = unat (fst al) + unat app"
    using acc(5) al(3) chk_addI(2) [of "fst al" app] by (simp add: slice_ok_def)
  have me: "unat (fst al + snd al) = unat (fst al) + unat (snd al)"
    using al(3) chk_addI(2) [of "fst al" "snd al"] by (simp add: slice_ok_def)
  have lay: "layout_ok p"
    using al sz kb brk me assms(4)
    by (auto simp: f(8) new_process_def layout_ok_def mem_end_def acc(1) word_le_nat_alt slice_ok_def)
  have pid: "pid_identifier (ProcessId_new uid i) < process_identifier_max mc'"
    using id by (simp add: ProcessId_new_def word_less_nat_alt)
  have "proc_ok p mc'" by (rule new_process_ok [OF pid lay f(8)])
  moreover have "unat (mem_end p) = unat (fst mem')"
    using me al sz pad n by (simp add: f(8) new_process_def mem_end_def slice_end_def)
  ultimately show ?thesis
    using al(1) pad id by (simp add: carved_def f(8) new_process_def ProcessId_new_def)
qed

lemma adjust_fixed_ram_ok:
  assumes "adjust_fixed_ram h mem = Some (Inr mem')" "slice_ok mem"
  shows "slice_ok mem'" "slice_end mem' = slice_end mem" "unat (fst mem) \<le> unat (fst mem')"
proof -
  obtain ptr len where mem: "mem = (ptr, len)" by (cases mem)
  have "mem' = mem \<or> (\<exists>f. ptr < f \<and> f - ptr \<le> len \<and> mem' = (f, len - (f - ptr)))"
    using assms(1) by (auto simp: mem adjust_fixed_ram_def Let_def bind_eq_Some_conv split: option.splits if_splits)
  moreover have "slice_ok (f, len - (f - ptr)) \<and> slice_end (f, len - (f - ptr)) = slice_end mem \<and> unat ptr \<le> unat f"
    if "ptr < f" "f - ptr \<le> len" for f
    using that assms(2) chk_subI(2) [of ptr f] chk_subI(2) [of "f - ptr" len]
    by (simp add: mem slice_ok_def slice_end_def word_less_nat_alt word_le_nat_alt)
  ultimately show "slice_ok mem'" "slice_end mem' = slice_end mem" "unat (fst mem) \<le> unat (fst mem')"
    using assms(2) by (auto simp: mem)
qed

lemma carved_weaken:
  assumes "carved mem1 mc1 p mem' mc'" "slice_end mem1 = slice_end mem" "unat (fst mem) \<le> unat (fst mem1)"
    "process_identifier_max mc1 = process_identifier_max mc"
  shows "carved mem mc p mem' mc'"
  using assms by (simp add: carved_def)

context mpu_contract
begin

lemma create_allocate_carved:
  assumes "create_allocate chip fl ft h pol i mem mc = Some (Inr (Some p, mem'), mc')" "slice_ok mem" "mpu chip = M"
  shows "carved mem mc p mem' mc'"
  using assms(1) unfolding create_allocate_def Let_def get_grant_count_and_finalize_def prod.case
proof (elim monad_elims, goal_cases)
  case 6
  note adj = adjust_fixed_ram_ok [OF 6(9) [unfolded 6(10)] assms(2)]
  note reg = app_region_bounds [OF 6(11) [unfolded 6(12-14) assms(3)]]
  show ?case
  proof (rule kernel_memory_sizeE [OF 6(6) [unfolded 6(7)]], goal_cases)
    case (1 cb)
    show ?case
      by (rule carved_weaken [OF create_in_carved [OF 6(18) adj(1) 1(1)]]) (use adj 1(3) reg in simp_all)
  qed
qed auto

lemma create_carved:
  assumes "create chip fl hl v mem pol req i mc = Some (Inr (Some p, mem'), mc')" "slice_ok mem" "mpu chip = M"
  shows "carved mem mc p mem' mc'"
  using assms(1) unfolding create_def
  by (elim monad_elims) (auto intro: create_allocate_carved [OF _ assms(2,3)])

end

lemma create_skip:
  assumes "create chip fl hl v mem pol req i mc = Some (Inr (None, mem'), mc')"
  shows "mem' = mem" "mc' = mc"
proof -
  have "create_allocate chip fl ft h pol i mem mc \<noteq> Some (Inr (None, mem'), mc')" for ft h
    unfolding create_allocate_def Let_def create_in_def get_grant_count_and_finalize_def prod.case
    by (intro notI) (elim monad_elims; simp)
  then show "mem' = mem" "mc' = mc"
    using assms unfolding create_def by (elim monad_elims; simp)+
qed

section \<open>The loader\<close>

lemma load_process_eq:
  assumes "8 \<le> length (snd fl)" "entry_lengths (take 8 (snd fl)) = Some (v, hl, el)" "unat el \<le> length (snd fl)"
  shows "load_process chip fl mem i pol mc =
    (let fl' = (fst fl + el, drop (unat el) (snd fl)) in
     if hl > 0 then do {
       (r, mc) \<leftarrow> create chip (fst fl, take (unat el) (snd fl)) (unat hl) v mem pol True i mc;
       (case r of
          Inl (err, mem) \<Rightarrow> Some (Inl (fl', mem, err), mc)
        | Inr (po, mem) \<Rightarrow> Some (Inr (fl', mem, po), mc))
     } else Some (Inr (fl', mem, None), mc))"
  using assms by (simp add: load_process_def slice_range_def slice_from_def min.absorb2)

lemma load_process_stops:
  assumes "\<not> (\<exists>v hl el. 8 \<le> length (snd fl) \<and> entry_lengths (take 8 (snd fl)) = Some (v, hl, el) \<and> unat el \<le> length (snd fl))"
  shows "\<exists>e. load_process chip fl mem i pol mc = Some (Inl e, mc)"
  using assms by (auto simp: load_process_def slice_range_def split: option.splits)

lemma load_process_Ok:
  assumes "load_process chip fl mem i pol mc = Some (Inr (fl', mem', po), mc')"
  obtains v hl el where "8 \<le> length (snd fl)" "entry_lengths (take 8 (snd fl)) = Some (v, hl, el)"
    "unat el \<le> length (snd fl)" "fl' = (fst fl + el, drop (unat el) (snd fl))"
    "po = None \<and> mem' = mem \<and> mc' = mc \<or>
     (\<exists>p. po = Some p \<and> create chip (fst fl, take (unat el) (snd fl)) (unat hl) v mem pol True i mc =
        Some (Inr (Some p, mem'), mc'))"
proof -
  obtain v hl el where e: "8 \<le> length (snd fl)" "entry_lengths (take 8 (snd fl)) = Some (v, hl, el)"
      "unat el \<le> length (snd fl)"
    using assms load_process_stops [of fl chip mem i pol mc] by fastforce
  have "fl' = (fst fl + el, drop (unat el) (snd fl)) \<and>
      (po = None \<and> mem' = mem \<and> mc' = mc \<or>
       create chip (fst fl, take (unat el) (snd fl)) (unat hl) v mem pol True i mc = Some (Inr (po, mem'), mc'))"
    using assms unfolding load_process_eq [OF e] Let_def by (elim monad_elims; force)
  then show ?thesis
    using that [OF e] create_skip [of chip "(fst fl, take (unat el) (snd fl))" "unat hl" v mem pol True i mc mem' mc']
    by (cases po) auto
qed

lemma create_in_max:
  "create_in chip fl ft h pol i mem off sz app g go c mc = Some (r, mc') \<Longrightarrow>
     process_identifier_max mc \<le> process_identifier_max mc'"
  unfolding create_in_def Let_def
  by (elim monad_elims) (auto elim!: create_process_identifierE simp: word_le_nat_alt)

lemma create_allocate_max:
  "create_allocate chip fl ft h pol i mem mc = Some (r, mc') \<Longrightarrow>
     process_identifier_max mc \<le> process_identifier_max mc'"
  unfolding create_allocate_def Let_def get_grant_count_and_finalize_def prod.case
  by (elim monad_elims) (auto dest: create_in_max)

lemma create_max:
  "create chip fl hl v mem pol req i mc = Some (r, mc') \<Longrightarrow> process_identifier_max mc \<le> process_identifier_max mc'"
  unfolding create_def by (elim monad_elims) (auto dest: create_allocate_max)

lemma load_process_max:
  "load_process chip fl mem i pol mc = Some (r, mc') \<Longrightarrow> process_identifier_max mc \<le> process_identifier_max mc'"
  unfolding load_process_def Let_def by (elim monad_elims) (auto dest: create_max)

subsection \<open>Every process gets memory of its own\<close>

definition before :: "('cfg, 'ss) ProcessStandard \<Rightarrow> ('cfg, 'ss) ProcessStandard \<Rightarrow> bool" where
  "before p q \<longleftrightarrow>
     unat (mem_end p) \<le> unat (memory_start q) \<and> pid_identifier (process_id p) < pid_identifier (process_id q)"

definition loaded_ok ::
    "nat \<Rightarrow> nat \<Rightarrow> ('cfg, 'ss) ProcessStandard list \<Rightarrow> ('hw, 'w) Machine \<Rightarrow> bool" where
  "loaded_ok lo hi ps mc \<longleftrightarrow>
     (\<forall>p\<in>set ps. proc_ok p mc \<and> pstate p = CredentialsUnchecked \<and> lo \<le> unat (memory_start p) \<and> unat (mem_end p) \<le> hi) \<and>
     sorted_wrt before ps"

lemma loaded_ok_Nil [simp]: "loaded_ok lo hi [] mc"
  by (simp add: loaded_ok_def)

lemma loaded_ok_append:
  assumes "loaded_ok lo hi ps mc" "carved mem mc p mem' mc'" "hi = unat (fst mem)" "lo \<le> hi"
  shows "loaded_ok lo (unat (fst mem')) (ps @ [p]) mc'"
proof -
  have c: "proc_ok p mc'" "hi \<le> unat (memory_start p)" "unat (mem_end p) = unat (fst mem')"
    "pid_identifier (process_id p) = process_identifier_max mc" "process_identifier_max mc \<le> process_identifier_max mc'"
    "pstate p = CredentialsUnchecked"
    using assms(2,3) by (auto simp: carved_def word_le_nat_alt)
  have "memory_start p \<le> mem_end p"
    using c(1) by (auto simp: proc_ok_def layout_ok_def)
  then have "hi \<le> unat (fst mem')" using c(2,3) by (simp add: word_le_nat_alt)
  moreover have "proc_ok q mc'" if "proc_ok q mc" for q :: "('a, 'b) ProcessStandard"
    using that c(5) by (auto simp: proc_ok_def)
  moreover have "before q p" if "q \<in> set ps" for q
    using assms(1) that c(2,4) by (auto simp: loaded_ok_def before_def proc_ok_def)
  ultimately show ?thesis
    using assms(1,4) c by (auto simp: loaded_ok_def sorted_wrt_append)
qed

lemma replicate_update:
  "0 < k \<Longrightarrow> (map Some ps @ replicate k None)[length ps := Some p] = map Some (ps @ [p]) @ replicate (k - 1) None"
  by (cases k) (simp_all add: list_update_append)

definition table_ok ::
    "nat \<Rightarrow> nat \<Rightarrow> nat \<Rightarrow> ('cfg, 'ss) ProcessStandard option list \<Rightarrow> ('hw, 'w) Machine \<Rightarrow> bool" where
  "table_ok lo hi n procs mc \<longleftrightarrow>
     (\<exists>ps k. procs = map Some ps @ replicate k None \<and> length procs = n \<and> loaded_ok lo hi ps mc)"

lemma loaded_ok_mono:
  assumes "loaded_ok lo hi ps mc" "hi \<le> hi'" "process_identifier_max mc \<le> process_identifier_max mc'"
  shows "loaded_ok lo hi' ps mc'"
proof -
  have "proc_ok p mc'" if "proc_ok p mc" for p :: "('a, 'b) ProcessStandard"
    using that assms(3) by (auto simp: proc_ok_def)
  then show ?thesis using assms by (force simp: loaded_ok_def)
qed

context mpu_contract
begin

lemma load_process_step:
  assumes "load_process chip fl mem i pol mc = Some (Inr (fl', mem', po), mc')" "mpu chip = M" "slice_ok mem"
  shows "case po of None \<Rightarrow> mem' = mem \<and> mc' = mc | Some p \<Rightarrow> carved mem mc p mem' mc'"
  using assms(1) by (rule load_process_Ok) (auto dest: create_carved [OF _ assms(3,2)])

lemma load_loop_ok:
  assumes "load_loop chip pol fl mem i procs mc = Some r"
  shows "mpu chip = M \<longrightarrow> slice_ok mem \<longrightarrow> lo \<le> unat (fst mem) \<longrightarrow>
    (\<forall>ps k. procs = map Some ps @ replicate k None \<longrightarrow> i = length ps \<longrightarrow> loaded_ok lo (unat (fst mem)) ps mc \<longrightarrow>
       table_ok lo (slice_end mem) (length procs) (fst r) (snd r))"
proof (rule load_loop.raw_induct [OF _ assms], intro impI allI, goal_cases)
  case (1 ll chip pol fl mem i procs mc r ps k)
  note IH = 1(1) and inv = 1(3-8)
  have fin: "table_ok lo (slice_end mem) (length procs) procs mc'" if "process_identifier_max mc \<le> process_identifier_max mc'" for mc'
    using 1 loaded_ok_mono [of lo "unat (fst mem)" ps mc "slice_end mem" mc'] that
    by (auto simp: table_ok_def slice_end_def)
  show ?case
    using 1(2)
  proof (elim monad_elims, goal_cases)
    case 1
    then show ?case by (auto intro!: fin dest: load_process_max)
  next
    case (2 v a mc' w nf x nm po)
    then have "nm = mem" "mc' = mc" using load_process_step [of chip fl mem _ pol mc nf nm None mc'] inv by auto
    then show ?case using IH [OF 2(8)] inv by simp
  next
    case (3 v a mc' w nf x nm po p)
    then have c: "carved mem mc p nm mc'" using load_process_step [of chip fl mem _ pol mc nf nm "Some p" mc'] inv by auto
    then have "memory_start p \<le> mem_end p" by (auto simp: carved_def proc_ok_def layout_ok_def)
    then have nm: "slice_end nm = slice_end mem" "slice_ok nm" "lo \<le> unat (fst nm)"
      using c inv(2,3) by (auto simp: carved_def slice_ok_def slice_end_def word_le_nat_alt)
    have "0 < k" using 3(1) inv(4,5) by (cases k) auto
    moreover have "loaded_ok lo (unat (fst nm)) (ps @ [p]) mc'"
      by (rule loaded_ok_append [OF inv(6) c refl inv(3)])
    ultimately show ?case
      using IH [OF 3(8), rule_format, of "ps @ [p]" "k - 1"] inv(1,4,5) nm 3(7) replicate_update [of k ps p] by simp
  next
    case 4
    then show ?case by (auto intro!: fin)
  qed
qed

end

subsection \<open>When the loader returns\<close>

text \<open>
  The entries of a flash image, as the loader finds them. An entry of length zero is the one image
  on which it makes no progress.
\<close>

function no_empty_entry :: "u8 list \<Rightarrow> bool" where
  "no_empty_entry bs =
     (if length bs < 8 then True
      else
        (case entry_lengths (take 8 bs) of
           None \<Rightarrow> True
         | Some (v, hl, el) \<Rightarrow>
             if unat el = 0 then False
             else if unat el \<le> length bs then no_empty_entry (drop (unat el) bs)
             else True))"
  by pat_completeness auto
termination
  by (relation "measure length") auto

declare no_empty_entry.simps [simp del]

inductive load_step ::
    "('hw, 'cfg, 'w, 'ss) Chip \<Rightarrow> ProcessFaultPolicy \<Rightarrow> flash_slice \<times> mem_slice \<times> nat \<times> ('hw, 'w) Machine \<Rightarrow>
      flash_slice \<times> mem_slice \<times> nat \<times> ('hw, 'w) Machine \<Rightarrow> bool" for chip pol where
  "load_process chip fl mem (of_nat i) pol mc = Some (Inr (fl', mem', po), mc') \<Longrightarrow>
     load_step chip pol (fl, mem, i, mc) (fl', mem', if po = None then i else i + 1, mc')"

definition load_panics ::
    "('hw, 'cfg, 'w, 'ss) Chip \<Rightarrow> ProcessFaultPolicy \<Rightarrow> flash_slice \<times> mem_slice \<times> nat \<times> ('hw, 'w) Machine \<Rightarrow> bool" where
  "load_panics chip pol st \<longleftrightarrow>
     (\<exists>fl mem i mc. (load_step chip pol)\<^sup>*\<^sup>* st (fl, mem, i, mc) \<and> load_process chip fl mem (of_nat i) pol mc = None)"

lemma no_empty_entry_progress:
  assumes "no_empty_entry (snd fl)" "load_process chip fl mem i pol mc = Some (Inr (fl', mem', po), mc')"
  shows "no_empty_entry (snd fl')" "length (snd fl') < length (snd fl)"
proof -
  from assms(2) obtain v hl el where "8 \<le> length (snd fl)" "entry_lengths (take 8 (snd fl)) = Some (v, hl, el)"
      "unat el \<le> length (snd fl)" "fl' = (fst fl + el, drop (unat el) (snd fl))"
    by (rule load_process_Ok)
  then show "no_empty_entry (snd fl')" "length (snd fl') < length (snd fl)"
    using assms(1) by (subst (asm) no_empty_entry.simps, simp split: if_splits)+
qed

lemma load_loop_returns:
  assumes "no_empty_entry (snd fl)" "\<not> load_panics chip pol (fl, mem, i, mc)"
  shows "\<exists>r. load_loop chip pol fl mem i procs mc = Some r"
  using assms
proof (induction "length (snd fl)" arbitrary: fl mem i procs mc rule: less_induct)
  case less
  show ?case
  proof (cases "i < length procs")
    case True
    have "load_process chip fl mem (of_nat i) pol mc \<noteq> None"
      using less.prems(2) unfolding load_panics_def by (meson rtranclp.rtrancl_refl)
    then obtain r mc' where r: "load_process chip fl mem (of_nat i) pol mc = Some (r, mc')" by auto
    show ?thesis
    proof (cases r)
      case (Inl e)
      then show ?thesis using True r by (subst load_loop.simps) (auto split: prod.splits)
    next
      case (Inr x)
      obtain fl' mem' po where x: "x = (fl', mem', po)" by (cases x)
      note p = no_empty_entry_progress [OF less.prems(1) r [unfolded Inr x]]
      have "load_step chip pol (fl, mem, i, mc) (fl', mem', if po = None then i else i + 1, mc')"
        by (rule load_step.intros [OF r [unfolded Inr x]])
      then have "\<not> load_panics chip pol (fl', mem', if po = None then i else i + 1, mc')"
        using less.prems(2) unfolding load_panics_def by (meson converse_rtranclp_into_rtranclp)
      then have "\<exists>r. load_loop chip pol fl' mem' (if po = None then i else i + 1) procs' mc' = Some r" for procs'
        using less.hyps [OF p(2,1)] by blast
      then show ?thesis
        using True r Inr x by (subst load_loop.simps) (auto split: option.split)
    qed
  next
    case False
    then show ?thesis by (subst load_loop.simps) simp
  qed
qed

lemma load_loop_hangs:
  assumes "8 \<le> length (snd fl)" "entry_lengths (take 8 (snd fl)) = Some (v, 0, 0)" "i < length procs"
  shows "load_loop chip pol fl mem i procs mc = None"
proof (rule ccontr)
  assume "load_loop chip pol fl mem i procs mc \<noteq> None"
  then obtain r where r: "load_loop chip pol fl mem i procs mc = Some r" by auto
  have "\<not> (8 \<le> length (snd fl) \<and> entry_lengths (take 8 (snd fl)) = Some (v, 0, 0) \<and> i < length procs)"
  proof (rule load_loop.raw_induct [OF _ r], intro notI, goal_cases)
    case (1 ll chip pol fl mem i procs mc r)
    then have "load_process chip fl mem (of_nat i) pol mc = Some (Inr (fl, mem, None), mc)"
      using load_process_eq [of fl v 0 0 chip mem "of_nat i" pol mc] by simp
    then have "ll chip pol fl mem i procs mc = Some r" using 1(2,3) by simp
    from 1(1) [OF this] show ?case using 1(3) by simp
  qed
  then show False using assms by simp
qed

end
