(* ===== verification/Grant.thy ===== *)
theory Grant
  imports KernelState
begin

text \<open>
  Grants, \<open>kernel/src/grant.rs\<close>. A grant is a piece of kernel memory inside a process's own block.
  It starts with a word of counters, then the saved upcalls, the saved read-only and the saved
  read-write buffers of the driver, eight bytes each, and ends with the driver's own data. The model
  keeps this layout byte for byte in the memory of the \<open>Machine\<close>, so that the counters and the
  arrays are read back from there the way the source reads them through raw pointers.

  The value dropped at the end of each of these functions leaves the grant; the model calls
  \<open>leave_grant\<close> at that point. The driver's data is the list of bytes of its default value; a closure
  passed to \<open>enter\<close> is a function on the whole system that also receives the address of that data and
  the kernel's view of the grant.
\<close>

section \<open>Model\<close>

subsection \<open>The layout\<close>

record SavedUpcall =
  saved_appdata :: usize
  saved_fn_ptr :: "usize option"

record SavedAllowRo =
  saved_ro_ptr :: usize
  saved_ro_len :: usize

record SavedAllowRw =
  saved_rw_ptr :: usize
  saved_rw_len :: usize

record KernelManagedLayout =
  layout_grant_num :: usize
  counters_ptr :: usize
  upcalls_array :: usize
  allow_ro_array :: usize
  allow_rw_array :: usize

text \<open>A pair of words, which every saved entry is, and the \<open>n\<close>-th entry of an array of them.\<close>

definition read_pair :: "ram \<Rightarrow> usize \<Rightarrow> usize \<times> usize" where
  "read_pair m a = (read_word m a, read_word m (a + 4))"

definition write_pair :: "usize \<Rightarrow> usize \<times> usize \<Rightarrow> ram \<Rightarrow> ram" where
  "write_pair a w m = write_word (a + 4) (snd w) (write_word a (fst w) m)"

definition entry :: "usize \<Rightarrow> nat \<Rightarrow> usize" where
  "entry base n = base + of_nat (8 * n)"

definition read_from_base :: "usize \<Rightarrow> usize \<Rightarrow> ram \<Rightarrow> KernelManagedLayout" where
  "read_from_base base_ptr grant_num m =
     (let counters_val = read_word m base_ptr;
          bytes = to_be_bytes counters_val;
          allow_ro_num = bytes ! 2;
          upcalls_num = bytes ! 3;
          upcalls_arr = base_ptr + 4;
          ro_arr = entry upcalls_arr (unat upcalls_num);
          rw_arr = entry ro_arr (unat allow_ro_num) in
      \<lparr>layout_grant_num = grant_num, counters_ptr = base_ptr, upcalls_array = upcalls_arr,
       allow_ro_array = ro_arr, allow_rw_array = rw_arr\<rparr>)"

fun write_default_array :: "usize \<Rightarrow> nat \<Rightarrow> ram \<Rightarrow> ram" where
  "write_default_array base 0 m = m"
| "write_default_array base (Suc n) m = write_pair (entry base n) (0, 0) (write_default_array base n m)"

definition initialize_from_counts ::
    "usize \<Rightarrow> u8 \<Rightarrow> u8 \<Rightarrow> u8 \<Rightarrow> usize \<Rightarrow> ram \<Rightarrow> KernelManagedLayout \<times> ram" where
  "initialize_from_counts base_ptr upcalls_num allow_ro_num allow_rw_num grant_num m =
     (let counter = from_be_bytes [0, allow_rw_num, allow_ro_num, upcalls_num];
          upcalls_arr = base_ptr + 4;
          ro_arr = entry upcalls_arr (unat upcalls_num);
          rw_arr = entry ro_arr (unat allow_ro_num);
          m = write_word base_ptr counter m;
          m = write_default_array upcalls_arr (unat upcalls_num) m;
          m = write_default_array ro_arr (unat allow_ro_num) m;
          m = write_default_array rw_arr (unat allow_rw_num) m in
      (\<lparr>layout_grant_num = grant_num, counters_ptr = base_ptr, upcalls_array = upcalls_arr,
        allow_ro_array = ro_arr, allow_rw_array = rw_arr\<rparr>, m))"

definition grant_size :: "u8 \<Rightarrow> u8 \<Rightarrow> u8 \<Rightarrow> usize \<Rightarrow> usize \<Rightarrow> usize option" where
  "grant_size upcalls_num allow_ro_num allow_rw_num t_size t_align = do {
     a \<leftarrow> chk_mul (ucast upcalls_num) 8;
     b \<leftarrow> chk_mul (ucast allow_ro_num) 8;
     c \<leftarrow> chk_mul (ucast allow_rw_num) 8;
     s \<leftarrow> chk_add 4 a;
     s \<leftarrow> chk_add s b;
     kernel_managed_size \<leftarrow> chk_add s c;
     grant_t_align_mask \<leftarrow> chk_sub t_align 1;
     d \<leftarrow> chk_sub t_align (kernel_managed_size AND grant_t_align_mask);
     let padding = d AND grant_t_align_mask;
     s \<leftarrow> chk_add kernel_managed_size padding;
     chk_add s t_size
   }"

definition grant_align :: "usize \<Rightarrow> usize" where
  "grant_align t_align = max 4 t_align"

definition offset_of_grant_data_t :: "usize \<Rightarrow> usize \<Rightarrow> usize \<Rightarrow> usize option" where
  "offset_of_grant_data_t base_ptr alloc_sz grant_t_sz = do {
     n \<leftarrow> chk_sub alloc_sz grant_t_sz;
     Some (base_ptr + n)
   }"

definition get_counter_offset :: "KernelManagedLayout \<Rightarrow> nat \<Rightarrow> ram \<Rightarrow> usize" where
  "get_counter_offset layout offset_bits m = drop_bit offset_bits (read_word m (counters_ptr layout)) AND 0xFF"

definition get_upcalls_number :: "KernelManagedLayout \<Rightarrow> ram \<Rightarrow> usize" where
  "get_upcalls_number layout m = get_counter_offset layout 0 m"

definition get_allow_ro_number :: "KernelManagedLayout \<Rightarrow> ram \<Rightarrow> usize" where
  "get_allow_ro_number layout m = get_counter_offset layout 8 m"

definition get_allow_rw_number :: "KernelManagedLayout \<Rightarrow> ram \<Rightarrow> usize" where
  "get_allow_rw_number layout m = get_counter_offset layout 16 m"

definition pairs :: "usize \<Rightarrow> nat \<Rightarrow> ram \<Rightarrow> (usize \<times> usize) list" where
  "pairs base n m = map (\<lambda>i. read_pair m (entry base i)) [0..<n]"

definition get_upcalls_slice :: "KernelManagedLayout \<Rightarrow> ram \<Rightarrow> SavedUpcall list" where
  "get_upcalls_slice layout m =
     map (\<lambda>(d, f). \<lparr>saved_appdata = d, saved_fn_ptr = NonNull_new f\<rparr>)
       (pairs (upcalls_array layout) (unat (get_upcalls_number layout m)) m)"

definition get_allow_ro_slice :: "KernelManagedLayout \<Rightarrow> ram \<Rightarrow> SavedAllowRo list" where
  "get_allow_ro_slice layout m =
     map (\<lambda>(p, n). \<lparr>saved_ro_ptr = p, saved_ro_len = n\<rparr>)
       (pairs (allow_ro_array layout) (unat (get_allow_ro_number layout m)) m)"

definition get_allow_rw_slice :: "KernelManagedLayout \<Rightarrow> ram \<Rightarrow> SavedAllowRw list" where
  "get_allow_rw_slice layout m =
     map (\<lambda>(p, n). \<lparr>saved_rw_ptr = p, saved_rw_len = n\<rparr>)
       (pairs (allow_rw_array layout) (unat (get_allow_rw_number layout m)) m)"

subsection \<open>The kernel's own entries\<close>

definition enter_grant_kernel_managed ::
    "usize \<Rightarrow> ('cfg, 'ss) ProcessStandard \<Rightarrow> ram \<Rightarrow>
      (ErrorCode + KernelManagedLayout) \<times> ('cfg, 'ss) ProcessStandard" where
  "enter_grant_kernel_managed driver_num p m =
     (case lookup_grant_from_driver_num driver_num p of
        Inl e \<Rightarrow> (Inl (ErrorCode_from_process_error e), p)
      | Inr n \<Rightarrow>
          let grant_num = of_nat n in
          (case grant_is_allocated grant_num p of
             None \<Rightarrow> (Inl FAIL, p)
           | Some False \<Rightarrow> (Inl NOMEM, p)
           | Some True \<Rightarrow>
               (case enter_grant grant_num p of
                  (Inl _, p) \<Rightarrow> (Inl NOMEM, p)
                | (Inr grant_base_ptr, p) \<Rightarrow> (Inr (read_from_base grant_base_ptr grant_num m), p))))"

definition grant_subscribe ::
    "Upcall \<Rightarrow> ('cfg, 'ss) ProcessStandard \<Rightarrow> ram \<Rightarrow>
      ((Upcall \<times> ErrorCode) + Upcall) \<times> ('cfg, 'ss) ProcessStandard \<times> ram" where
  "grant_subscribe upcall p m =
     (case enter_grant_kernel_managed (upcall_driver_num (upcall_id upcall)) p m of
        (Inl e, p) \<Rightarrow> (Inl (upcall, e), p, m)
      | (Inr layout, p) \<Rightarrow>
          let n = unat (subscribe_num (upcall_id upcall)) in
          (case slice_get (get_upcalls_slice layout m) n of
             Some saved_upcall \<Rightarrow>
               let old_upcall = Upcall_new (process_id p) (upcall_id upcall)
                                  (saved_appdata saved_upcall) (saved_fn_ptr saved_upcall);
                   m = write_pair (entry (upcalls_array layout) n)
                         (upcall_appdata upcall, null_or (upcall_fn_ptr upcall)) m in
               (Inr old_upcall, leave_grant (layout_grant_num layout) p, m)
           | None \<Rightarrow> (Inl (upcall, NOSUPPORT), leave_grant (layout_grant_num layout) p, m)))"

definition grant_allow_ro ::
    "usize \<Rightarrow> usize \<Rightarrow> ProcessBuffer \<Rightarrow> ('cfg, 'ss) ProcessStandard \<Rightarrow> ram \<Rightarrow>
      ((ProcessBuffer \<times> ErrorCode) + ProcessBuffer) \<times> ('cfg, 'ss) ProcessStandard \<times> ram" where
  "grant_allow_ro driver_num allow_num buffer p m =
     (case enter_grant_kernel_managed driver_num p m of
        (Inl e, p) \<Rightarrow> (Inl (buffer, e), p, m)
      | (Inr layout, p) \<Rightarrow>
          (case slice_get (get_allow_ro_slice layout m) (unat allow_num) of
             Some saved \<Rightarrow>
               let old_allow = ProcessBuffer_new (saved_ro_ptr saved) (saved_ro_len saved) (process_id p);
                   m = write_pair (entry (allow_ro_array layout) (unat allow_num)) (buf_ptr buffer, buf_len buffer) m in
               (Inr old_allow, leave_grant (layout_grant_num layout) p, m)
           | None \<Rightarrow> (Inl (buffer, NOSUPPORT), leave_grant (layout_grant_num layout) p, m)))"

definition grant_allow_rw ::
    "usize \<Rightarrow> usize \<Rightarrow> ProcessBuffer \<Rightarrow> ('cfg, 'ss) ProcessStandard \<Rightarrow> ram \<Rightarrow>
      ((ProcessBuffer \<times> ErrorCode) + ProcessBuffer) \<times> ('cfg, 'ss) ProcessStandard \<times> ram" where
  "grant_allow_rw driver_num allow_num buffer p m =
     (case enter_grant_kernel_managed driver_num p m of
        (Inl e, p) \<Rightarrow> (Inl (buffer, e), p, m)
      | (Inr layout, p) \<Rightarrow>
          (case slice_get (get_allow_rw_slice layout m) (unat allow_num) of
             Some saved \<Rightarrow>
               let old_allow = ProcessBuffer_new (saved_rw_ptr saved) (saved_rw_len saved) (process_id p);
                   m = write_pair (entry (allow_rw_array layout) (unat allow_num)) (buf_ptr buffer, buf_len buffer) m in
               (Inr old_allow, leave_grant (layout_grant_num layout) p, m)
           | None \<Rightarrow> (Inl (buffer, NOSUPPORT), leave_grant (layout_grant_num layout) p, m)))"

subsection \<open>The driver's side\<close>

record Grant =
  grant_driver_num :: usize
  grant_grant_num :: usize
  grant_t_default :: "u8 list"
  grant_t_align :: usize
  grant_upcalls :: u8
  grant_allow_ros :: u8
  grant_allow_rws :: u8

definition grant_t_size :: "Grant \<Rightarrow> usize" where
  "grant_t_size g = of_nat (length (grant_t_default g))"

record GrantKernelData =
  gkd_upcalls :: "SavedUpcall list"
  gkd_allow_ro :: "SavedAllowRo list"
  gkd_allow_rw :: "SavedAllowRw list"
  gkd_driver_num :: usize
  gkd_process :: nat

fun write_bytes :: "usize \<Rightarrow> u8 list \<Rightarrow> ram \<Rightarrow> ram" where
  "write_bytes a [] m = m"
| "write_bytes a (b # bs) m = write_bytes (a + 1) bs (m(a := b))"

definition alloc_size :: "Grant \<Rightarrow> usize option" where
  "alloc_size g = grant_size (grant_upcalls g) (grant_allow_ros g) (grant_allow_rws g) (grant_t_size g) (grant_t_align g)"

text \<open>\<open>ProcessGrant::new\<close> on the process it found.\<close>

definition new_inner ::
    "('hw, 'cfg, 'w, 'ss) Chip \<Rightarrow> Grant \<Rightarrow> ('cfg, 'ss) ProcessStandard \<Rightarrow> ('hw, 'w) Machine \<Rightarrow>
      ((process_error + usize option) \<times> ('cfg, 'ss) ProcessStandard \<times> ('hw, 'w) Machine) option" where
  "new_inner chip g p mc =
     (case grant_is_allocated (grant_grant_num g) p of
        None \<Rightarrow> Some (Inl InactiveApp, p, mc)
      | Some is_allocated \<Rightarrow>
          if is_allocated then Some (Inr None, p, mc)
          else do {
            sz \<leftarrow> alloc_size g;
            (ok, p, mc) \<leftarrow> allocate_grant chip (grant_grant_num g) (grant_driver_num g) sz
                              (grant_align (grant_t_align g)) p mc;
            if \<not> ok then Some (Inl OutOfMemory, p, mc)
            else (case enter_grant (grant_grant_num g) p of
                (Inl e, p) \<Rightarrow> Some (Inl e, p, mc)
              | (Inr ptr, p) \<Rightarrow>
                  let (layout, m) = initialize_from_counts ptr (grant_upcalls g) (grant_allow_ros g)
                                      (grant_allow_rws g) (grant_grant_num g) (memory mc) in do {
                  let p = leave_grant (layout_grant_num layout) p;
                  data \<leftarrow> offset_of_grant_data_t ptr sz (grant_t_size g);
                  Some (Inr (Some data), p, mc\<lparr>memory := m\<rparr>)
                })
          })"

definition ProcessGrant_new ::
    "('hw, 'cfg, 'w, 'ss) Chip \<Rightarrow> Grant \<Rightarrow> ProcessId \<Rightarrow> ('hw, 'cfg, 'w, 'ss) System \<Rightarrow>
      ((process_error + nat) \<times> ('hw, 'cfg, 'w, 'ss) System) option" where
  "ProcessGrant_new chip g processid sys =
     (case get_process processid sys of
        None \<Rightarrow> Some (Inl NoSuchApp, sys)
      | Some i \<Rightarrow> do {
          (r, sys) \<leftarrow> on_proc i (new_inner chip g) sys;
          (case r of
             Inl e \<Rightarrow> Some (Inl e, sys)
           | Inr None \<Rightarrow> Some (Inr i, sys)
           | Inr (Some ptr) \<Rightarrow>
               Some (Inr i, sys\<lparr>machine := (machine sys)\<lparr>memory := write_bytes ptr (grant_t_default g) (memory (machine sys))\<rparr>\<rparr>))
        })"

definition new_if_allocated :: "Grant \<Rightarrow> ('cfg, 'ss) ProcessStandard \<Rightarrow> bool" where
  "new_if_allocated g p =
     (case grant_is_allocated (grant_grant_num g) p of Some is_allocated \<Rightarrow> is_allocated | None \<Rightarrow> False)"

definition get_resource_slices :: "Grant \<Rightarrow> nat \<Rightarrow> KernelManagedLayout \<Rightarrow> ram \<Rightarrow> GrantKernelData" where
  "get_resource_slices g i layout m =
     \<lparr>gkd_upcalls = get_upcalls_slice layout m, gkd_allow_ro = get_allow_ro_slice layout m,
      gkd_allow_rw = get_allow_rw_slice layout m, gkd_driver_num = grant_driver_num g, gkd_process = i\<rparr>"

type_synonym ('hw, 'cfg, 'w, 'ss, 'r) grant_closure =
  "usize \<Rightarrow> GrantKernelData \<Rightarrow> ('hw, 'cfg, 'w, 'ss) System \<Rightarrow> ('r \<times> ('hw, 'cfg, 'w, 'ss) System) option"

definition access_grant_with_allocator ::
    "Grant \<Rightarrow> nat \<Rightarrow> ('hw, 'cfg, 'w, 'ss, 'r) grant_closure \<Rightarrow> bool \<Rightarrow>
      ('hw, 'cfg, 'w, 'ss) System \<Rightarrow> ('r option \<times> ('hw, 'cfg, 'w, 'ss) System) option" where
  "access_grant_with_allocator g i closure panic_on_reenter sys = do {
     (r, sys) \<leftarrow> on_proc i (\<lambda>p mc. let (r, p) = enter_grant (grant_grant_num g) p in Some (r, p, mc)) sys;
     (case r of
        Inl _ \<Rightarrow> if panic_on_reenter then None else Some (None, sys)
      | Inr ptr \<Rightarrow> do {
          sz \<leftarrow> alloc_size g;
          let m = memory (machine sys);
          let layout = read_from_base ptr (grant_grant_num g) m;
          data \<leftarrow> offset_of_grant_data_t ptr sz (grant_t_size g);
          (x, sys) \<leftarrow> closure data (get_resource_slices g i layout m) sys;
          (_, sys) \<leftarrow> on_proc i (\<lambda>p mc. Some ((), leave_grant (layout_grant_num layout) p, mc)) sys;
          Some (Some x, sys)
        })
   }"

definition Grant_enter ::
    "('hw, 'cfg, 'w, 'ss) Chip \<Rightarrow> Grant \<Rightarrow> ProcessId \<Rightarrow> ('hw, 'cfg, 'w, 'ss, 'r) grant_closure \<Rightarrow>
      ('hw, 'cfg, 'w, 'ss) System \<Rightarrow> ((process_error + 'r) \<times> ('hw, 'cfg, 'w, 'ss) System) option" where
  "Grant_enter chip g processid closure sys = do {
     (pg, sys) \<leftarrow> ProcessGrant_new chip g processid sys;
     (case pg of
        Inl e \<Rightarrow> Some (Inl e, sys)
      | Inr i \<Rightarrow> do {
          (x, sys) \<leftarrow> access_grant_with_allocator g i closure True sys;
          x \<leftarrow> x;
          Some (Inr x, sys)
        })
   }"

definition ProcessGrant_try_enter ::
    "Grant \<Rightarrow> nat \<Rightarrow> ('hw, 'cfg, 'w, 'ss, 'r) grant_closure \<Rightarrow>
      ('hw, 'cfg, 'w, 'ss) System \<Rightarrow> ('r option \<times> ('hw, 'cfg, 'w, 'ss) System) option" where
  "ProcessGrant_try_enter g i closure sys = access_grant_with_allocator g i closure False sys"

text \<open>The function passed to \<open>each\<close> may keep state of its own; it is threaded through the calls.\<close>

fun grant_each_from ::
    "Grant \<Rightarrow> nat list \<Rightarrow> (ProcessId \<Rightarrow> 'a \<Rightarrow> ('hw, 'cfg, 'w, 'ss, 'a) grant_closure) \<Rightarrow> 'a \<Rightarrow>
      ('hw, 'cfg, 'w, 'ss) System \<Rightarrow> ('a \<times> ('hw, 'cfg, 'w, 'ss) System) option" where
  "grant_each_from g [] fn acc sys = Some (acc, sys)"
| "grant_each_from g (i # is) fn acc sys =
     (case slot i sys of
        None \<Rightarrow> grant_each_from g is fn acc sys
      | Some p \<Rightarrow>
          if new_if_allocated g p then do {
            (x, sys) \<leftarrow> access_grant_with_allocator g i (fn (process_id p) acc) True sys;
            acc \<leftarrow> x;
            grant_each_from g is fn acc sys
          } else grant_each_from g is fn acc sys)"

definition Grant_each ::
    "Grant \<Rightarrow> (ProcessId \<Rightarrow> 'a \<Rightarrow> ('hw, 'cfg, 'w, 'ss, 'a) grant_closure) \<Rightarrow> 'a \<Rightarrow>
      ('hw, 'cfg, 'w, 'ss) System \<Rightarrow> ('a \<times> ('hw, 'cfg, 'w, 'ss) System) option" where
  "Grant_each g fn acc sys = grant_each_from g (get_process_iter sys) fn acc sys"

definition gkd_schedule_upcall ::
    "GrantKernelData \<Rightarrow> usize \<Rightarrow> usize \<times> usize \<times> usize \<Rightarrow> ('hw, 'cfg, 'w, 'ss) System \<Rightarrow>
      ((UpcallError + unit) \<times> ('hw, 'cfg, 'w, 'ss) System) option" where
  "gkd_schedule_upcall kd num r sys =
     (case slice_get (gkd_upcalls kd) (unat num) of
        None \<Rightarrow> Some (Inl InvalidSubscribeNum, sys)
      | Some saved_upcall \<Rightarrow>
          on_proc (gkd_process kd) (\<lambda>p mc.
            let upcall = Upcall_new (process_id p) \<lparr>upcall_driver_num = gkd_driver_num kd, subscribe_num = num\<rparr>
                           (saved_appdata saved_upcall) (saved_fn_ptr saved_upcall) in do {
            (res, p) \<leftarrow> schedule upcall (fst r) (fst (snd r)) (snd (snd r)) p;
            Some (res, p, mc)
          }) sys)"

definition get_readonly_processbuffer ::
    "GrantKernelData \<Rightarrow> usize \<Rightarrow> ProcessId \<Rightarrow> process_error + ProcessBuffer" where
  "get_readonly_processbuffer kd num pid =
     (case slice_get (gkd_allow_ro kd) (unat num) of
        None \<Rightarrow> Inl AddressOutOfBounds
      | Some saved \<Rightarrow> Inr (ProcessBuffer_new (saved_ro_ptr saved) (saved_ro_len saved) pid))"

definition get_readwrite_processbuffer ::
    "GrantKernelData \<Rightarrow> usize \<Rightarrow> ProcessId \<Rightarrow> process_error + ProcessBuffer" where
  "get_readwrite_processbuffer kd num pid =
     (case slice_get (gkd_allow_rw kd) (unat num) of
        None \<Rightarrow> Inl AddressOutOfBounds
      | Some saved \<Rightarrow> Inr (ProcessBuffer_new (saved_rw_ptr saved) (saved_rw_len saved) pid))"

subsection \<open>Custom grants\<close>

definition alloc_n_raw_inner ::
    "('hw, 'cfg, 'w, 'ss) Chip \<Rightarrow> ProcessId \<Rightarrow> usize \<Rightarrow> usize \<Rightarrow> usize \<Rightarrow> ('hw, 'cfg, 'w, 'ss) System \<Rightarrow>
      ((process_error + (usize \<times> usize)) \<times> ('hw, 'cfg, 'w, 'ss) System) option" where
  "alloc_n_raw_inner chip processid num_items single_alloc_size alloc_align sys =
     (case chk_mul single_alloc_size num_items of
        None \<Rightarrow> Some (Inl OutOfMemory, sys)
      | Some sz \<Rightarrow>
          process_map_or (Inl NoSuchApp) processid (\<lambda>i sys.
            on_proc i (\<lambda>p mc. do {
              (r, p) \<leftarrow> allocate_custom_grant chip sz alloc_align p;
              Some (case r of None \<Rightarrow> Inl OutOfMemory | Some ip \<Rightarrow> Inr ip, p, mc)
            }) sys) sys)"

record CustomGrant =
  cg_identifier :: usize
  cg_processid :: ProcessId

definition CustomGrant_enter ::
    "CustomGrant \<Rightarrow> (usize \<Rightarrow> ('hw, 'cfg, 'w, 'ss) System \<Rightarrow> ('r \<times> ('hw, 'cfg, 'w, 'ss) System) option) \<Rightarrow>
      ('hw, 'cfg, 'w, 'ss) System \<Rightarrow> ((process_error + 'r) \<times> ('hw, 'cfg, 'w, 'ss) System) option" where
  "CustomGrant_enter cg closure sys =
     process_map_or (Inl NoSuchApp) (cg_processid cg) (\<lambda>i sys. do {
       p \<leftarrow> slot i sys;
       r \<leftarrow> enter_custom_grant (cg_identifier cg) p;
       (case r of
          Inl e \<Rightarrow> Some (Inl e, sys)
        | Inr ptr \<Rightarrow> do { (x, sys) \<leftarrow> closure ptr sys; Some (Inr x, sys) })
     }) sys"

section \<open>Reading back the layout\<close>

text \<open>
  \<open>same_in lo hi\<close> says that two memories agree on a range of addresses; a write is described by the
  range it stays within, and a read depends on its range only.
\<close>

definition same_in :: "nat \<Rightarrow> nat \<Rightarrow> ram \<Rightarrow> ram \<Rightarrow> bool" where
  "same_in lo hi m m' \<longleftrightarrow> (\<forall>x. lo \<le> unat x \<and> unat x < hi \<longrightarrow> m' x = m x)"

definition changes_within :: "nat \<Rightarrow> nat \<Rightarrow> ram \<Rightarrow> ram \<Rightarrow> bool" where
  "changes_within lo hi m m' \<longleftrightarrow> (\<forall>x. \<not> (lo \<le> unat x \<and> unat x < hi) \<longrightarrow> m' x = m x)"

lemma changes_within_refl [simp]: "changes_within lo hi m m"
  by (simp add: changes_within_def)

lemma changes_within_trans:
  "changes_within lo hi a b \<Longrightarrow> changes_within lo hi b c \<Longrightarrow> changes_within lo hi a c"
  by (simp add: changes_within_def)

lemma changes_within_mono:
  "changes_within lo hi a b \<Longrightarrow> lo' \<le> lo \<Longrightarrow> hi \<le> hi' \<Longrightarrow> changes_within lo' hi' a b"
  unfolding changes_within_def by (meson le_trans less_le_trans)

lemma changes_same: "changes_within lo hi m m' \<Longrightarrow> b \<le> lo \<or> hi \<le> a \<Longrightarrow> same_in a b m m'"
  unfolding changes_within_def same_in_def by auto

lemma same_in_mono: "same_in lo hi m m' \<Longrightarrow> lo \<le> lo' \<Longrightarrow> hi' \<le> hi \<Longrightarrow> same_in lo' hi' m m'"
  unfolding same_in_def by auto

lemma same_in_trans: "same_in lo hi a b \<Longrightarrow> same_in lo hi b c \<Longrightarrow> same_in lo hi a c"
  by (simp add: same_in_def)

lemma read_word_same:
  assumes "same_in (unat a) (unat a + 4) m m'" "unat a + 4 \<le> 2 ^ 32"
  shows "read_word m' a = read_word m a"
  using assms(1) span_unat [OF assms(2)] by (intro read_word_cong) (auto simp: same_in_def)

lemma write_word_changes:
  "unat a + 4 \<le> 2 ^ 32 \<Longrightarrow> changes_within (unat a) (unat a + 4) m (write_word a w m)"
  using span_unat [of a] by (auto simp: changes_within_def write_word_outside)

lemma unat_add_4: "unat a + 8 \<le> 2 ^ 32 \<Longrightarrow> unat (a + 4 :: usize) = unat a + 4"
  using unat_add_small [of a 4] by simp

lemma write_pair_changes:
  assumes "unat a + 8 \<le> 2 ^ 32"
  shows "changes_within (unat a) (unat a + 8) m (write_pair a w m)"
  unfolding write_pair_def
  by (rule changes_within_trans [OF changes_within_mono [OF write_word_changes] changes_within_mono [OF write_word_changes]])
    (use assms unat_add_4 [OF assms] in simp_all)

lemma read_write_pair [simp]:
  assumes "unat a + 8 \<le> 2 ^ 32"
  shows "read_pair (write_pair a w m) a = w"
  using assms unat_add_4 [OF assms] by (simp add: read_pair_def write_pair_def read_write_above)

lemma read_pair_same:
  assumes "same_in (unat a) (unat a + 8) m m'" "unat a + 8 \<le> 2 ^ 32"
  shows "read_pair m' a = read_pair m a"
proof -
  have "same_in (unat a) (unat a + 4) m m'" "same_in (unat a + 4) (unat a + 8) m m'"
    using assms(1) by (auto elim: same_in_mono)
  then show ?thesis
    using read_word_same [of a m m'] read_word_same [of "a + 4" m m'] assms(2) unat_add_4 [OF assms(2)]
    by (simp add: read_pair_def add.commute)
qed

lemma unat_entry: "unat base + 8 * n < 2 ^ 32 \<Longrightarrow> unat (entry base n) = unat base + 8 * n"
  using unat_add_small [of base "8 * n"] by (simp add: entry_def)

lemma length_pairs [simp]: "length (pairs base n m) = n"
  by (simp add: pairs_def)

lemma pairs_same:
  assumes "same_in (unat base) (unat base + 8 * n) m m'" "unat base + 8 * n < 2 ^ 32"
  shows "pairs base n m' = pairs base n m"
proof -
  have "read_pair m' (entry base i) = read_pair m (entry base i)" if "i < n" for i
    by (rule read_pair_same) (use assms that unat_entry [of base i] in \<open>auto elim!: same_in_mono\<close>)
  then show ?thesis by (simp add: pairs_def)
qed

lemma pairs_write:
  assumes "i < n" "unat base + 8 * n < 2 ^ 32"
  shows "pairs base n (write_pair (entry base i) w m) = (pairs base n m)[i := w]"
proof (rule nth_equalityI)
  fix j assume "j < length (pairs base n (write_pair (entry base i) w m))"
  then have j: "j < n" by simp
  have u: "unat (entry base k) = unat base + 8 * k" if "k < n" for k
    using unat_entry [of base k] that assms(2) by simp
  have ch: "changes_within (unat base + 8 * i) (unat base + 8 * i + 8) m (write_pair (entry base i) w m)"
    using write_pair_changes [of "entry base i" m w] u [OF assms(1)] assms by simp
  have "read_pair (write_pair (entry base i) w m) (entry base j) = read_pair m (entry base j)" if "i \<noteq> j"
  proof (rule read_pair_same)
    show "same_in (unat (entry base j)) (unat (entry base j) + 8) m (write_pair (entry base i) w m)"
      by (rule changes_same [OF ch]) (use that u [OF j] in auto)
  qed (use u [OF j] j assms in simp)
  then show "pairs base n (write_pair (entry base i) w m) ! j = (pairs base n m)[i := w] ! j"
    using j u [OF assms(1)] assms by (auto simp: pairs_def nth_list_update)
qed simp

lemma write_default_array_changes:
  "unat base + 8 * n < 2 ^ 32 \<Longrightarrow>
     changes_within (unat base) (unat base + 8 * n) m (write_default_array base n m)"
proof (induction n)
  case (Suc n)
  have u: "unat (entry base n) = unat base + 8 * n" using unat_entry [of base n] Suc(2) by simp
  have "changes_within (unat base) (unat base + 8 * Suc n) m (write_default_array base n m)"
    using Suc by (auto elim!: changes_within_mono)
  moreover have "changes_within (unat base) (unat base + 8 * Suc n) (write_default_array base n m)
      (write_default_array base (Suc n) m)"
    using write_pair_changes [of "entry base n" "write_default_array base n m" "(0, 0)"] Suc(2) u
    by (auto elim!: changes_within_mono)
  ultimately show ?case by (rule changes_within_trans)
qed simp

lemma pairs_write_default:
  "unat base + 8 * n < 2 ^ 32 \<Longrightarrow> pairs base n (write_default_array base n m) = replicate n (0, 0)"
proof (induction n)
  case (Suc n)
  let ?m = "write_default_array base n m"
  have u: "unat (entry base n) = unat base + 8 * n" using unat_entry [of base n] Suc(2) by simp
  have "pairs base n (write_pair (entry base n) (0, 0) ?m) = pairs base n ?m"
    by (rule pairs_same [OF changes_same [OF write_pair_changes]]) (use Suc(2) u in auto)
  moreover have "pairs base (Suc n) m' = pairs base n m' @ [read_pair m' (entry base n)]" for m'
    by (simp add: pairs_def)
  ultimately show ?case using Suc u by (simp add: replicate_append_same)
qed (simp add: pairs_def)

subsection \<open>The counters\<close>

lemma counter_byte:
  assumes "k < 4"
  shows "drop_bit (8 * k) (c :: usize) AND 0xFF = ucast (to_le_bytes c ! k)"
proof (rule bit_word_eqI)
  fix n assume "n < LENGTH(32)"
  have "bit (0xFF :: usize) n \<longleftrightarrow> n < 8" using bit_mask_iff [of 8 n, where 'a = usize] 
    using \<open>n < LENGTH(32)\<close> by (auto simp: mask_eq_exp_minus_1)
  moreover have "bit (to_le_bytes c ! k) n \<longleftrightarrow> n < 8 \<and> bit c (8 * k + n)"
    using assms by (simp add: bit_to_le_bytes)
  ultimately show "bit (drop_bit (8 * k) c AND 0xFF) n = bit (ucast (to_le_bytes c ! k) :: usize) n"
    using \<open>n < LENGTH(32)\<close> by (auto simp: bit_simps simp del: mask_numeral)
qed

lemma to_le_bytes_counter:
  assumes "k < 4"
  shows "to_le_bytes (from_be_bytes [0, rw, ro, u] :: usize) ! k = [u, ro, rw, 0] ! k"
proof (rule bit_word_eqI)
  fix n assume n: "n < LENGTH(8)"
  then have "(8 * k + n) div 8 = k" "(8 * k + n) mod 8 = n" "8 * k + n < 32" using assms by auto
  then show "bit (to_le_bytes (from_be_bytes [0, rw, ro, u] :: usize) ! k) n = bit ([u, ro, rw, 0] ! k) n"
    using assms n by (simp add: bit_to_le_bytes from_be_bytes_def bit_from_le_bytes del: from_le_bytes.simps)
qed

lemma be_bytes_nth: "to_be_bytes (c :: usize) ! 3 = to_le_bytes c ! 0" "to_be_bytes (c :: usize) ! 2 = to_le_bytes c ! 1"
  by (simp_all add: to_be_bytes_def rev_nth)

lemma unat_ucast_u8: "unat (ucast (b :: u8) :: usize) = unat b"
  by (rule bit_eqI) (auto simp: bit_simps dest: bit_imp_le_length)

text \<open>The three counts, as numbers.\<close>

definition count :: "nat \<Rightarrow> ram \<Rightarrow> usize \<Rightarrow> nat" where
  "count k m base = unat (to_le_bytes (read_word m base) ! k)"

lemma count_less: "count k m base < 256"
  using unat_less_2p [of "to_le_bytes (read_word m base) ! k"] by (simp add: count_def)

lemma counter_offset_count:
  assumes "k < 4" "off = 8 * k"
  shows "unat (get_counter_offset l off m) = count k m (counters_ptr l)"
  using assms counter_byte [of k "read_word m (counters_ptr l)"]
  by (simp add: get_counter_offset_def count_def unat_ucast_u8)

lemma numbers_count:
  "unat (get_upcalls_number l m) = count 0 m (counters_ptr l)"
  "unat (get_allow_ro_number l m) = count 1 m (counters_ptr l)"
  "unat (get_allow_rw_number l m) = count 2 m (counters_ptr l)"
  by (simp_all add: get_upcalls_number_def get_allow_ro_number_def get_allow_rw_number_def counter_offset_count)

subsection \<open>The abstract grant\<close>

text \<open>
  What the kernel-managed part of a grant means: three lists of pairs, number 0 the upcalls, 1 the
  read-only and 2 the read-write buffers. \<open>fits\<close> says that the arrays the counters describe end below
  the end of the address space.
\<close>

definition preceding :: "nat \<Rightarrow> ram \<Rightarrow> usize \<Rightarrow> nat" where
  "preceding k m base = (\<Sum>j<k. count j m base)"

definition array_base :: "nat \<Rightarrow> ram \<Rightarrow> usize \<Rightarrow> usize" where
  "array_base k m base = entry (base + 4) (preceding k m base)"

definition grant_end :: "ram \<Rightarrow> usize \<Rightarrow> nat" where
  "grant_end m base = unat base + 4 + 8 * preceding 3 m base"

definition fits :: "ram \<Rightarrow> usize \<Rightarrow> bool" where
  "fits m base \<longleftrightarrow> grant_end m base < 2 ^ 32"

definition view :: "ram \<Rightarrow> usize \<Rightarrow> nat \<Rightarrow> (usize \<times> usize) list" where
  "view m base k = pairs (array_base k m base) (count k m base) m"

lemma entry_add: "entry (entry base i) j = entry base (i + j)"
  by (simp add: entry_def distrib_left)

lemma preceding_simps [simp]:
  "preceding 0 m base = 0" "preceding (Suc k) m base = preceding k m base + count k m base"
  by (simp_all add: preceding_def)

lemma preceding_mono: "k < 3 \<Longrightarrow> preceding k m base + count k m base \<le> preceding 3 m base"
proof -
  have "preceding 3 m base = count 0 m base + count 1 m base + count 2 m base"
    by (simp add: preceding_def numeral_3_eq_3 numeral_2_eq_2)
  moreover assume "k < 3"
  then have "k = 0 \<or> k = 1 \<or> k = 2" by auto
  ultimately show ?thesis by (auto simp: preceding_def numeral_2_eq_2)
qed

lemma read_from_base_eq:
  "read_from_base base gn m =
     \<lparr>layout_grant_num = gn, counters_ptr = base, upcalls_array = array_base 0 m base,
      allow_ro_array = array_base 1 m base, allow_rw_array = array_base 2 m base\<rparr>"
proof -
  have "entry a 0 = a" for a by (simp add: entry_def)
  moreover have "preceding 1 m base = count 0 m base" "preceding 2 m base = count 0 m base + count 1 m base"
    by (simp_all add: preceding_def numeral_2_eq_2)
  ultimately show ?thesis
    by (simp add: read_from_base_def Let_def be_bytes_nth count_def [symmetric] array_base_def entry_add)
qed

lemma slices_view:
  assumes "l = read_from_base base gn m"
  shows "get_upcalls_slice l m = map (\<lambda>(d, f). \<lparr>saved_appdata = d, saved_fn_ptr = NonNull_new f\<rparr>) (view m base 0)"
    "get_allow_ro_slice l m = map (\<lambda>(p, n). \<lparr>saved_ro_ptr = p, saved_ro_len = n\<rparr>) (view m base 1)"
    "get_allow_rw_slice l m = map (\<lambda>(p, n). \<lparr>saved_rw_ptr = p, saved_rw_len = n\<rparr>) (view m base 2)"
  using assms by (simp_all add: get_upcalls_slice_def get_allow_ro_slice_def get_allow_rw_slice_def numbers_count
      read_from_base_eq view_def)

lemma length_view [simp]: "length (view m base k) = count k m base"
  by (simp add: view_def)

lemma unat_array_base:
  assumes "fits m base" "k < 3"
  shows "unat (array_base k m base) = unat base + 4 + 8 * preceding k m base"
    "unat (array_base k m base) + 8 * count k m base \<le> grant_end m base"
proof -
  note p = preceding_mono [OF assms(2), of m base]
  have b: "unat (base + 4) = unat base + 4"
    using assms unat_add_small [of base 4] by (simp add: fits_def grant_end_def)
  then show "unat (array_base k m base) = unat base + 4 + 8 * preceding k m base"
    using unat_entry [of "base + 4" "preceding k m base"] assms(1) p by (simp add: array_base_def fits_def grant_end_def)
  then show "unat (array_base k m base) + 8 * count k m base \<le> grant_end m base"
    using p by (simp add: grant_end_def)
qed

lemma count_same:
  assumes "same_in (unat base) (unat base + 4) m m'" "unat base + 4 \<le> 2 ^ 32"
  shows "count k m' base = count k m base"
  using read_word_same [OF assms] by (simp add: count_def)

text \<open>Every array lies after the counters, so a write to one keeps the shape of all of them.\<close>

lemma shape_same:
  assumes "same_in (unat base) (unat base + 4) m m'" "unat base + 4 \<le> 2 ^ 32"
  shows "count k m' base = count k m base" "array_base k m' base = array_base k m base"
    "grant_end m' base = grant_end m base" "fits m' base = fits m base"
  using count_same [OF assms] by (simp_all add: array_base_def grant_end_def preceding_def fits_def)

lemma view_same:
  assumes "same_in (unat base) (grant_end m base) m m'" "fits m base" "k < 3"
  shows "view m' base k = view m base k"
proof -
  have "unat base + 4 \<le> 2 ^ 32" "unat base + 4 \<le> grant_end m base" using assms(2) by (auto simp: fits_def grant_end_def)
  note sh = shape_same [OF same_in_mono [OF assms(1) order_refl this(2)] this(1)]
  have "pairs (array_base k m base) (count k m base) m' = pairs (array_base k m base) (count k m base) m"
    by (rule pairs_same [OF same_in_mono [OF assms(1)]])
      (use unat_array_base [OF assms(2,3)] assms(2) in \<open>auto simp: fits_def\<close>)
  then show ?thesis by (simp add: view_def sh)
qed

text \<open>Writing one entry is the update of one list; the other lists stay.\<close>

lemma view_write:
  assumes "fits m base" "k < 3" "i < count k m base" "m' = write_pair (entry (array_base k m base) i) w m"
  shows "view m' base k = (view m base k)[i := w]" "j < 3 \<Longrightarrow> j \<noteq> k \<Longrightarrow> view m' base j = view m base j"
    "changes_within (unat (array_base k m base)) (unat (array_base k m base) + 8 * count k m base) m m'"
    "fits m' base"
proof -
  note b = unat_array_base [OF assms(1)]
  let ?lo = "unat (array_base k m base)" and ?hi = "unat (array_base k m base) + 8 * count k m base"
  have hi: "?hi < 2 ^ 32" using b(2) [OF assms(2)] assms(1) by (simp add: fits_def)
  show ch: "changes_within ?lo ?hi m m'"
    unfolding assms(4)
    by (rule changes_within_mono [OF write_pair_changes]) (use assms(3) hi unat_entry [of "array_base k m base" i] in auto)
  have "same_in (unat base) (unat base + 4) m m'"
    by (rule changes_same [OF ch]) (use b(1) [OF assms(2)] in simp)
  then have sh: "count l m' base = count l m base" "array_base l m' base = array_base l m base" "fits m' base = fits m base" for l
    using shape_same [of base m m'] assms(1) by (auto simp: fits_def grant_end_def)
  then show "fits m' base" using assms(1) by simp
  show "view m' base k = (view m base k)[i := w]"
    using pairs_write [OF assms(3) hi, of w m] by (simp add: view_def sh assms(4) [symmetric])
  assume j: "j < 3" "j \<noteq> k"
  have sep: "preceding j m base + count j m base \<le> preceding k m base \<or> preceding k m base + count k m base \<le> preceding j m base"
  proof -
    have mono: "preceding (Suc x) m base \<le> preceding y m base" if "x < y" for x y
      unfolding preceding_def by (rule sum_mono2) (use that in auto)
    show ?thesis using j(2) mono [of j k] mono [of k j] by (auto simp: neq_iff)
  qed
  have "pairs (array_base j m base) (count j m base) m' = pairs (array_base j m base) (count j m base) m"
    by (rule pairs_same [OF changes_same [OF ch]])
      (use sep b [OF assms(2)] b [OF j(1)] assms(1) in \<open>auto simp: fits_def\<close>)
  then show "view m' base j = view m base j" by (simp add: view_def sh)
qed

section \<open>Subscribe and allow\<close>

lemma even_flags:
  assumes "(x :: usize) AND 1 \<noteq> 1"
  shows "(x OR 1) AND NOT 1 = x"
proof -
  have "\<not> bit x 0" using assms by (auto simp: and_one_eq mod_2_eq_odd bit_0 split: if_splits)
  then show ?thesis using even_clear_flag [of x] by simp
qed

lemma grant_get_set: "grant_get n p = Some e \<Longrightarrow> grant_get n (grant_set n e' p) = Some e'"
  by (auto simp: grant_get_def grant_set_def slice_get_def bind_eq_Some_conv split: if_splits)

lemma grant_set_set: "grant_set n e (grant_set n e' p) = grant_set n e p"
  by (cases "grant_pointers p") (simp_all add: grant_set_def)

lemma grant_set_get: "grant_get n p = Some e \<Longrightarrow> grant_set n e p = p"
  by (auto simp: grant_get_def grant_set_def slice_get_def bind_eq_Some_conv split: if_splits)

lemma is_running_grant_set [simp]: "is_running (grant_set n e p) = is_running p"
  by (simp add: is_running_def)

lemma process_id_grant_set [simp]: "process_id (grant_set n e p) = process_id p"
  by (simp add: grant_set_def)

lemma enter_grant_error: "enter_grant n p = (Inl e, p') \<Longrightarrow> p' = p"
  by (auto simp: enter_grant_def split: if_splits option.splits)

lemma enter_grant_entered:
  assumes "enter_grant n p = (Inr ptr, p')"
  obtains e where "ptr = grant_ptr e" "grant_get n p = Some e" "is_running p" "grant_ptr e AND 1 \<noteq> 1"
    "p' = grant_set n (e\<lparr>grant_ptr := grant_ptr e OR 1\<rparr>) p"
proof (cases "grant_get n p")
  case None
  then show ?thesis using assms by (simp add: enter_grant_def split: if_splits)
next
  case (Some e)
  show ?thesis by (rule that [of e]) (use assms Some in \<open>auto simp: enter_grant_def split: if_splits\<close>)
qed

text \<open>Leaving the grant that was just entered gives back the process as it was.\<close>

lemma enter_leave:
  assumes "enter_grant n p = (Inr ptr, p')"
  shows "leave_grant n p' = p" "process_id p' = process_id p" "map_option grant_ptr (grant_get n p) = Some ptr"
proof -
  obtain e where e: "ptr = grant_ptr e" "grant_get n p = Some e" "is_running p" "grant_ptr e AND 1 \<noteq> 1"
      "p' = grant_set n (e\<lparr>grant_ptr := grant_ptr e OR 1\<rparr>) p"
    by (rule enter_grant_entered [OF assms])
  then have "leave_grant n p' = grant_set n e p"
    using even_flags [OF e(4)] by (simp add: leave_grant_def grant_get_set [OF e(2)] grant_set_set)
  then show "leave_grant n p' = p" using grant_set_get [OF e(2)] by simp
  show "process_id p' = process_id p" "map_option grant_ptr (grant_get n p) = Some ptr" using e by simp_all
qed

text \<open>The address of the grant a driver has in a process.\<close>

definition driver_grant :: "usize \<Rightarrow> ('cfg, 'ss) ProcessStandard \<Rightarrow> usize option" where
  "driver_grant d p =
     (case lookup_grant_from_driver_num d p of
        Inl _ \<Rightarrow> None
      | Inr n \<Rightarrow> map_option grant_ptr (grant_get (of_nat n) p))"

lemma enter_kernel_managed_cases:
  assumes "enter_grant_kernel_managed d p m = (r, p')"
  obtains (error) e where "r = Inl e" "p' = p" "e \<in> {FAIL, NOMEM}"
  | (entered) n base where "r = Inr (read_from_base base n m)" "leave_grant n p' = p"
      "process_id p' = process_id p" "driver_grant d p = Some base"
proof (cases "lookup_grant_from_driver_num d p")
  case (Inl e)
  then have "ErrorCode_from_process_error e \<in> {FAIL, NOMEM}"
    by (auto simp: lookup_grant_from_driver_num_def split: option.splits)
  then show ?thesis using Inl assms error [of "ErrorCode_from_process_error e"] by (auto simp: enter_grant_kernel_managed_def)
next
  case (Inr n)
  obtain r' p1 where e: "enter_grant (of_nat n) p = (r', p1)" by fastforce
  show ?thesis
  proof (cases r')
    case (Inl x)
    then have "p1 = p" using e enter_grant_error by blast
    then have "r \<in> {Inl FAIL, Inl NOMEM} \<and> p' = p"
      using assms Inl Inr e by (auto simp: enter_grant_kernel_managed_def Let_def split: option.splits bool.splits)
    then show ?thesis using error [of FAIL] error [of NOMEM] by auto
  next
    case r': (Inr base)
    note l = enter_leave [OF e [unfolded r']]
    then have "driver_grant d p = Some base" using Inr by (simp add: driver_grant_def)
    moreover have "r \<in> {Inl FAIL, Inl NOMEM} \<and> p' = p \<or> r = Inr (read_from_base base (of_nat n) m) \<and> p' = p1"
      using assms r' Inr e by (auto simp: enter_grant_kernel_managed_def Let_def split: option.splits bool.splits)
    ultimately show ?thesis using error [of FAIL] error [of NOMEM] entered [of base "of_nat n"] l by auto
  qed
qed

lemma leave_layout [simp]: "layout_grant_num (read_from_base base n m) = n"
  by (simp add: read_from_base_eq)

text \<open>
  The process is the same after a subscribe or an allow; only an entry of the grant changes. On an
  error nothing changes at all.
\<close>

lemma grant_subscribe_cases:
  assumes "grant_subscribe u p m = (r, p', m')"
  obtains (error) e where "r = Inl (u, e)" "p' = p" "m' = m" "e \<in> {FAIL, NOMEM}"
  | (bad_number) base where "r = Inl (u, NOSUPPORT)" "p' = p" "m' = m"
      "driver_grant (upcall_driver_num (upcall_id u)) p = Some base" "count 0 m base \<le> unat (subscribe_num (upcall_id u))"
  | (stored) base i where "i = unat (subscribe_num (upcall_id u))" "i < count 0 m base" "p' = p"
      "driver_grant (upcall_driver_num (upcall_id u)) p = Some base"
      "r = Inr (Upcall_new (process_id p) (upcall_id u) (fst (view m base 0 ! i)) (NonNull_new (snd (view m base 0 ! i))))"
      "m' = write_pair (entry (array_base 0 m base) i) (upcall_appdata u, null_or (upcall_fn_ptr u)) m"
proof -
  obtain r1 p1 where e: "enter_grant_kernel_managed (upcall_driver_num (upcall_id u)) p m = (r1, p1)" by fastforce
  then show ?thesis
  proof (cases rule: enter_kernel_managed_cases)
    case (error x)
    then show ?thesis using assms e that(1) [of x] by (auto simp: grant_subscribe_def)
  next
    case (entered n base)
    note sl = slices_view(1) [OF refl, of base n m]
    show ?thesis
    proof (cases "unat (subscribe_num (upcall_id u)) < count 0 m base")
      case True
      then show ?thesis
        using assms e entered sl that(3) [of _ base]
        by (auto simp: grant_subscribe_def Let_def slice_get_def case_prod_beta read_from_base_eq)
    next
      case False
      then show ?thesis
        using assms e entered sl that(2) [of base] by (auto simp: grant_subscribe_def Let_def slice_get_def)
    qed
  qed
qed

lemma grant_allow_ro_cases:
  assumes "grant_allow_ro d num b p m = (r, p', m')"
  obtains (error) e where "r = Inl (b, e)" "p' = p" "m' = m" "e \<in> {FAIL, NOMEM}"
  | (bad_number) base where "r = Inl (b, NOSUPPORT)" "p' = p" "m' = m" "driver_grant d p = Some base"
      "count 1 m base \<le> unat num"
  | (stored) base where "unat num < count 1 m base" "p' = p" "driver_grant d p = Some base"
      "r = Inr (ProcessBuffer_new (fst (view m base 1 ! unat num)) (snd (view m base 1 ! unat num)) (process_id p))"
      "m' = write_pair (entry (array_base 1 m base) (unat num)) (buf_ptr b, buf_len b) m"
proof -
  obtain r1 p1 where e: "enter_grant_kernel_managed d p m = (r1, p1)" by fastforce
  then show ?thesis
  proof (cases rule: enter_kernel_managed_cases)
    case (error x)
    then show ?thesis using assms e that(1) [of x] by (auto simp: grant_allow_ro_def)
  next
    case (entered n base)
    note sl = slices_view(2) [OF refl, of base n m]
    show ?thesis
      by (cases "unat num < count 1 m base")
        (use assms e entered sl that(2,3) [of base] in
          \<open>auto simp: grant_allow_ro_def Let_def slice_get_def case_prod_beta read_from_base_eq\<close>)
  qed
qed

lemma grant_allow_rw_cases:
  assumes "grant_allow_rw d num b p m = (r, p', m')"
  obtains (error) e where "r = Inl (b, e)" "p' = p" "m' = m" "e \<in> {FAIL, NOMEM}"
  | (bad_number) base where "r = Inl (b, NOSUPPORT)" "p' = p" "m' = m" "driver_grant d p = Some base"
      "count 2 m base \<le> unat num"
  | (stored) base where "unat num < count 2 m base" "p' = p" "driver_grant d p = Some base"
      "r = Inr (ProcessBuffer_new (fst (view m base 2 ! unat num)) (snd (view m base 2 ! unat num)) (process_id p))"
      "m' = write_pair (entry (array_base 2 m base) (unat num)) (buf_ptr b, buf_len b) m"
proof -
  obtain r1 p1 where e: "enter_grant_kernel_managed d p m = (r1, p1)" by fastforce
  then show ?thesis
  proof (cases rule: enter_kernel_managed_cases)
    case (error x)
    then show ?thesis using assms e that(1) [of x] by (auto simp: grant_allow_rw_def)
  next
    case (entered n base)
    note sl = slices_view(3) [OF refl, of base n m]
    show ?thesis
      by (cases "unat num < count 2 m base")
        (use assms e entered sl that(2,3) [of base] in
          \<open>auto simp: grant_allow_rw_def Let_def slice_get_def case_prod_beta read_from_base_eq\<close>)
  qed
qed

section \<open>A new grant\<close>

lemma initialize_view:
  assumes "initialize_from_counts base u ro rw gn m = (l, m')"
    "unat base + 4 + 8 * (unat u + unat ro + unat rw) < 2 ^ 32"
  shows "l = read_from_base base gn m'" "count 0 m' base = unat u" "count 1 m' base = unat ro" "count 2 m' base = unat rw"
    "fits m' base" "changes_within (unat base) (grant_end m' base) m m'"
    "k < 3 \<Longrightarrow> view m' base k = replicate (count k m' base) (0, 0)"
proof -
  define U where "U = base + 4"
  define R where "R = entry U (unat u)"
  define W where "W = entry R (unat ro)"
  define m0 where "m0 = write_word base (from_be_bytes [0, rw, ro, u]) m"
  define m1 where "m1 = write_default_array U (unat u) m0"
  define m2 where "m2 = write_default_array R (unat ro) m1"
  have l: "l = \<lparr>layout_grant_num = gn, counters_ptr = base, upcalls_array = U, allow_ro_array = R, allow_rw_array = W\<rparr>"
    and m': "m' = write_default_array W (unat rw) m2"
    using assms(1) by (auto simp: initialize_from_counts_def Let_def U_def R_def W_def m0_def m1_def m2_def)
  have uU: "unat U = unat base + 4" using unat_add_small [of base 4] assms(2) by (simp add: U_def)
  then have uR: "unat R = unat base + 4 + 8 * unat u" using unat_entry [of U "unat u"] assms(2) by (simp add: R_def)
  then have uW: "unat W = unat base + 4 + 8 * unat u + 8 * unat ro"
    using unat_entry [of R "unat ro"] assms(2) by (simp add: W_def)
  note u = uU uR uW
  have c0: "changes_within (unat base) (unat base + 4) m m0"
    unfolding m0_def by (rule write_word_changes) (use assms(2) in simp)
  have c1: "changes_within (unat U) (unat U + 8 * unat u) m0 m1"
    and c2: "changes_within (unat R) (unat R + 8 * unat ro) m1 m2"
    and c3: "changes_within (unat W) (unat W + 8 * unat rw) m2 m'"
    unfolding m1_def m2_def m' by (rule write_default_array_changes, use u assms(2) in simp)+
  have "same_in (unat base) (unat base + 4) m0 m'"
    by (rule same_in_trans [OF changes_same [OF c1] same_in_trans [OF changes_same [OF c2] changes_same [OF c3]]])
      (use u in auto)
  from read_word_same [OF this] have ctr: "read_word m' base = from_be_bytes [0, rw, ro, u]"
    using assms(2) by (simp add: m0_def)
  show n: "count 0 m' base = unat u" "count 1 m' base = unat ro" "count 2 m' base = unat rw"
    using ctr to_le_bytes_counter [of 0 rw ro u] to_le_bytes_counter [of 1 rw ro u] to_le_bytes_counter [of 2 rw ro u]
    by (simp_all add: count_def)
  have pre: "preceding 1 m' base = unat u" "preceding 2 m' base = unat u + unat ro" "preceding 3 m' base = unat u + unat ro + unat rw"
    using n by (simp_all add: preceding_def numeral_2_eq_2 numeral_3_eq_3)
  have ab: "array_base 0 m' base = U" "array_base 1 m' base = R" "array_base 2 m' base = W"
    using pre by (simp_all add: array_base_def U_def R_def W_def entry_add) (simp add: entry_def)
  show "l = read_from_base base gn m'" by (simp add: l read_from_base_eq ab [unfolded One_nat_def])
  show "fits m' base" using assms(2) pre by (simp add: fits_def grant_end_def)
  have e: "grant_end m' base = unat W + 8 * unat rw" using pre u by (simp add: grant_end_def)
  show "changes_within (unat base) (grant_end m' base) m m'"
    unfolding e
    by (rule changes_within_trans [OF changes_within_mono [OF c0] changes_within_trans [OF changes_within_mono [OF c1]
          changes_within_trans [OF changes_within_mono [OF c2] changes_within_mono [OF c3]]]]) (use u in auto)
  have "pairs U (unat u) m' = replicate (unat u) (0, 0)"
  proof -
    have "same_in (unat U) (unat U + 8 * unat u) m1 m'"
      by (rule same_in_trans [OF changes_same [OF c2] changes_same [OF c3]]) (use u in auto)
    then show ?thesis using pairs_same [of U "unat u" m1 m'] pairs_write_default [of U "unat u" m0] u assms(2) by (simp add: m1_def)
  qed
  moreover have "pairs R (unat ro) m' = replicate (unat ro) (0, 0)"
  proof -
    have "same_in (unat R) (unat R + 8 * unat ro) m2 m'"
      by (rule changes_same [OF c3]) (use u in auto)
    then show ?thesis using pairs_same [of R "unat ro" m2 m'] pairs_write_default [of R "unat ro" m1] u assms(2) by (simp add: m2_def)
  qed
  moreover have "pairs W (unat rw) m' = replicate (unat rw) (0, 0)"
    using pairs_write_default [of W "unat rw" m2] u assms(2) by (simp add: m')
  moreover assume "k < 3"
  then have "k = 0 \<or> k = 1 \<or> k = 2" by auto
  ultimately show "view m' base k = replicate (count k m' base) (0, 0)"
    using n ab by (auto simp: view_def)
qed

lemma and_mask_unat: "unat ((x :: usize) AND (2 ^ k - 1)) = unat x mod 2 ^ k" if "k < 32"
proof -
  have "x AND (2 ^ k - 1) = take_bit k x" by (simp add: take_bit_eq_mask mask_eq_exp_minus_1)
  then show ?thesis by (simp add: take_bit_eq_mod unat_mod unat_2p that)
qed

lemma grant_size_Some:
  assumes "grant_size u ro rw t (2 ^ k) = Some sz" "k < 32"
  shows "2 ^ k dvd unat sz - unat t" "4 + 8 * (unat u + unat ro + unat rw) + unat t \<le> unat sz"
proof -
  define K where "K = (4 + 8 * (unat u + unat ro + unat rw))"
  have p: "unat (2 ^ k :: usize) = 2 ^ k" by (simp add: unat_2p assms(2))
  obtain ks mask d s where ks: "unat ks = K" and mask: "chk_sub (2 ^ k) 1 = Some mask"
    and d: "chk_sub (2 ^ k) (ks AND mask) = Some d" and s: "chk_add ks (d AND mask) = Some s" and sz: "chk_add s t = Some sz"
    using assms(1) unfolding grant_size_def Let_def
  proof (elim monad_elims, goal_cases)
    case (1 a b c s1 s2 ks mask d s)
    show ?case
      by (rule 1(1) [of ks mask d s]) (use 1(2-7) in \<open>simp add: chk_add_eq_Some chk_mul_eq_Some unat_ucast_u8 K_def\<close>, (rule 1)+)
  qed
  from mask have mask: "mask = 2 ^ k - 1" by (simp add: chk_sub_def split: if_splits)
  have d': "unat d = 2 ^ k - K mod 2 ^ k"
    by (rule add_implies_diff)
      (use d [unfolded chk_sub_eq_Some mask p and_mask_unat [OF assms(2)] ks] in \<open>simp only: add.commute\<close>)
  have pad: "unat (d AND mask) = (2 ^ k - K mod 2 ^ k) mod 2 ^ k"
    unfolding mask and_mask_unat [OF assms(2)] d' by (rule refl)
  define P where "P = (2 ^ k - K mod 2 ^ k) mod 2 ^ k"
  have e: "unat sz = K + P + unat t"
    using s [unfolded chk_add_eq_Some] sz [unfolded chk_add_eq_Some] by (simp only: pad ks P_def)
  have "2 ^ k dvd K + P"
    unfolding P_def
  proof -
    define A :: nat where "A = 2 ^ k"
    have A: "0 < A" by (simp add: A_def)
    have "K div A * A + K mod A = K" "K mod A < A" using A by simp_all
    then have "K + (A - K mod A) = K div A * A + A" by linarith
    then have "(K + (A - K mod A)) mod A = 0" by simp
    then have "(K + (A - K mod A) mod A) mod A = 0" by (simp only: mod_add_right_eq)
    then show "2 ^ k dvd K + (2 ^ k - K mod 2 ^ k) mod 2 ^ k" unfolding A_def by (rule mod_0_imp_dvd)
  qed
  then show "2 ^ k dvd unat sz - unat t" "4 + 8 * (unat u + unat ro + unat rw) + unat t \<le> unat sz"
    unfolding e by (simp_all only: add_diff_cancel_right' K_def)
qed

lemma grant_align_power:
  assumes "k < 32"
  shows "grant_align (2 ^ k) = 2 ^ max k 2"
proof (cases "2 \<le> k")
  case True
  then have "(4 :: usize) \<le> 2 ^ k"
    using assms power_increasing [of 2 k "2 :: nat"] by (simp add: word_le_nat_alt unat_2p)
  then show ?thesis using True by (simp only: grant_align_def max.absorb1 max.absorb2)
next
  case False
  then have "k = 0 \<or> k = 1" by auto
  then show ?thesis by (auto simp: grant_align_def max_def word_le_nat_alt)
qed

lemma enter_new_grant:
  assumes "allocate_grant chip n d len (2 ^ k) p mc = Some (True, p', mc')" "k < 32" "unat len + 2 ^ max k 1 \<le> 2 ^ 32"
  shows "\<exists>e base q. grant_get n p' = Some e \<and> grant_ptr e = base \<and> gp_driver_num e = d \<and>
    enter_grant n p' = (Inr base, q) \<and> leave_grant n q = p' \<and> app_break p \<le> base \<and>
    unat base + unat len \<le> unat (kernel_memory_break p) \<and> kernel_memory_break p' = base \<and> 2 ^ max k 1 dvd unat base \<and>
    memory mc' = memory mc"
  using assms(1)
proof (cases rule: allocate_grantE)
  case (allocated ptr q e)
  note a = allocate_internal_Some [OF allocated(6) assms(2,3)]
  let ?e = "e\<lparr>gp_driver_num := d, grant_ptr := ptr\<rparr>"
  have g: "grant_get n p' = Some ?e" using grant_get_set [OF allocated(7)] allocated(8) by simp
  have run: "is_running p'" using allocated(2,8) allocate_internal_keeps(3) [OF allocated(6)] by simp
  have "ptr AND 1 \<noteq> 1" using a(5) by (simp add: and_one_eq bit_0 mod_2_eq_odd)
  then have en: "enter_grant n p' = (Inr ptr, grant_set n (?e\<lparr>grant_ptr := ptr OR 1\<rparr>) p')"
    using g run by (auto simp: enter_grant_def grant_get_def bind_eq_Some_conv)
  have "kernel_memory_break p' = ptr" using a(6) allocated(8) by (auto simp: grant_set_def)
  moreover have "memory mc' = memory mc"
    using assms(1) unfolding allocate_grant_def Let_def get_grant_count_and_finalize_def prod.case
    by (elim monad_elims) auto
  ultimately show ?thesis using g en enter_leave(1) [OF en] a
    by (intro exI [of _ ?e] exI [of _ ptr] exI [of _ "grant_set n (?e\<lparr>grant_ptr := ptr OR 1\<rparr>) p'"] conjI) simp_all
qed simp_all

text \<open>
  A grant that is allocated for the first time lies in the memory of the process, between the process
  break and the old kernel break, big enough for its counters, its arrays and the driver's data; every
  saved upcall and buffer in it is null, and the driver's data starts at an address aligned for it.
\<close>

lemma new_inner_allocated:
  assumes new: "new_inner chip g p mc = Some (Inr (Some data), p', mc')" and ok: "proc_ok p mc"
    and al: "grant_t_align g = 2 ^ k" "k < 32" and sz: "alloc_size g = Some sz" "unat sz + 2 ^ max k 2 \<le> 2 ^ 32"
  shows "\<exists>e base. grant_get (grant_grant_num g) p' = Some e \<and> grant_ptr e = base \<and> gp_driver_num e = grant_driver_num g \<and>
    app_break p \<le> base \<and> unat base + unat sz \<le> unat (kernel_memory_break p) \<and>
    changes_within (unat base) (unat base + unat sz) (memory mc) (memory mc') \<and>
    (\<forall>j<3. view (memory mc') base j = replicate (count j (memory mc') base) (0, 0)) \<and>
    count 0 (memory mc') base = unat (grant_upcalls g) \<and> count 1 (memory mc') base = unat (grant_allow_ros g) \<and>
    count 2 (memory mc') base = unat (grant_allow_rws g) \<and>
    grant_end (memory mc') base \<le> unat data \<and> unat data + unat (grant_t_size g) = unat base + unat sz \<and> 2 ^ k dvd unat data"
proof -
  let ?n = "grant_grant_num g"
  obtain p1 mc1 ptr q l m' where a: "allocate_grant chip ?n (grant_driver_num g) sz (grant_align (grant_t_align g)) p mc =
        Some (True, p1, mc1)"
    and e: "enter_grant ?n p1 = (Inr ptr, q)"
    and i: "initialize_from_counts ptr (grant_upcalls g) (grant_allow_ros g) (grant_allow_rws g) ?n (memory mc1) = (l, m')"
    and r: "offset_of_grant_data_t ptr sz (grant_t_size g) = Some data" "p' = leave_grant (layout_grant_num l) q"
      "mc' = mc1\<lparr>memory := m'\<rparr>"
    using new sz(1) unfolding new_inner_def Let_def
    by (elim monad_elims) (auto simp: Let_def bind_eq_Some_conv split: sum.splits prod.splits if_splits)
  have k2: "max k 2 < 32" "max (max k 2) 1 = max k 2" using al(2) by auto
  obtain en base where en: "grant_get ?n p1 = Some en" "grant_ptr en = base" "gp_driver_num en = grant_driver_num g"
      "enter_grant ?n p1 = (Inr base, q)" "leave_grant ?n q = p1" "app_break p \<le> base"
      "unat base + unat sz \<le> unat (kernel_memory_break p)" "2 ^ max k 2 dvd unat base" "memory mc1 = memory mc"
    using enter_new_grant [OF a [unfolded al(1) grant_align_power [OF al(2)]] k2(1)] sz(2) e k2(2) by auto
  have ptr: "ptr = base" using e en(4) by simp
  note gs = grant_size_Some [OF sz(1) [unfolded alloc_size_def al(1)] al(2)]
  have lt: "unat base + unat sz < 2 ^ 32"
    using en(7) unat_less_2p [of "kernel_memory_break p"] by simp
  note iv = initialize_view [OF i [unfolded ptr]]
  have fit: "unat base + 4 + 8 * (unat (grant_upcalls g) + unat (grant_allow_ros g) + unat (grant_allow_rws g)) < 2 ^ 32"
    using gs(2) lt by linarith
  note iv = iv [OF fit]
  have ge: "grant_end m' base + unat (grant_t_size g) \<le> unat base + unat sz"
    using gs(2) iv(2-4) by (simp add: grant_end_def preceding_def numeral_3_eq_3 numeral_2_eq_2)
  have data: "unat data = unat base + (unat sz - unat (grant_t_size g))"
    using r(1) lt gs(2) chk_addI(2) [of base "sz - grant_t_size g"]
    by (auto simp: offset_of_grant_data_t_def bind_eq_Some_conv chk_sub_def ptr unat_sub word_le_nat_alt split: if_splits)
  have p': "p' = p1" using r(2) iv(1) en(5) by simp
  have "2 ^ k dvd unat base" using en(8) by (rule dvd_trans [rotated]) (simp add: le_imp_power_dvd)
  then have "2 ^ k dvd unat data" using data gs(1) by simp
  moreover have "changes_within (unat base) (unat base + unat sz) (memory mc) (memory mc')"
    using iv(6) en(9) r(3) ge by (auto elim!: changes_within_mono)
  ultimately show ?thesis
    using en p' iv(2-4,7) ge data gs(2) r(3) by (intro exI [of _ en] exI [of _ base] conjI) auto
qed

end
