(* ===== verification/CortexM_Syscall.thy ===== *)
theory CortexM_Syscall
  imports ProcessTypes
begin

text \<open>
  The Cortex-M implementation of the boundary to user space, \<open>arch/cortex-m/src/syscall.rs\<close>: the
  exception frame on the process stack through which a return value or an upcall reaches the
  process, the decision why a process stopped, and the serialised form of the stored state. The
  assembly routine \<open>switch_to_user\<close> is a parameter of \<open>switch_to_process\<close>: given the stack pointer
  and the saved registers it yields the new stack pointer, the new registers, the memory after the
  process ran and the values its exception handlers left in \<open>APP_HARD_FAULT\<close> and \<open>SYSCALL_FIRED\<close>.
\<close>

section \<open>Model\<close>

record CortexMStoredState =
  ss_regs :: "usize list"
  yield_pc :: usize
  psr :: usize
  psp :: usize

definition SVC_FRAME_SIZE :: usize where
  "SVC_FRAME_SIZE = 32"

definition default_stored_state :: CortexMStoredState where
  "default_stored_state = \<lparr>ss_regs = replicate 8 0, yield_pc = 0, psr = 0, psp = 0\<rparr>"

subsection \<open>The serialised state\<close>

definition STORED_STATE_SIZE :: nat where
  "STORED_STATE_SIZE = 44"

definition TAG :: "u8 list" where
  "TAG = [0x63, 0x74, 0x78, 0x6d]"

definition usize_from_u8_slice :: "u8 list \<Rightarrow> nat \<Rightarrow> ErrorCode + usize" where
  "usize_from_u8_slice s index =
     and_then (ok_or (slice_range s (index * 4) ((index + 1) * 4)) SIZE) (\<lambda>b. Inr (from_le_bytes b))"

definition write_usize_to_u8_slice :: "usize \<Rightarrow> u8 list \<Rightarrow> nat \<Rightarrow> u8 list option" where
  "write_usize_to_u8_slice val s index =
     (if (index + 1) * 4 \<le> length s then Some (take (index * 4) s @ to_le_bytes val @ drop ((index + 1) * 4) s)
      else None)"

fun read_regs :: "u8 list \<Rightarrow> nat \<Rightarrow> nat \<Rightarrow> ErrorCode + usize list" where
  "read_regs s v 0 = Inr []"
| "read_regs s v (Suc n) =
     and_then (usize_from_u8_slice s v) (\<lambda>r. and_then (read_regs s (v + 1) n) (\<lambda>rs. Inr (r # rs)))"

definition CortexMStoredState_try_from :: "u8 list \<Rightarrow> ErrorCode + CortexMStoredState" where
  "CortexMStoredState_try_from s =
     (if length s \<noteq> STORED_STATE_SIZE + 3 * 4 then Inl FAIL
      else and_then (usize_from_u8_slice s 0) (\<lambda>version. if version \<noteq> 1 then Inl FAIL
      else and_then (usize_from_u8_slice s 1) (\<lambda>sz. if sz \<noteq> of_nat STORED_STATE_SIZE then Inl FAIL
      else and_then (usize_from_u8_slice s 2) (\<lambda>tag. if tag \<noteq> from_le_bytes TAG then Inl FAIL
      else and_then (usize_from_u8_slice s 3) (\<lambda>yield_pc'.
           and_then (usize_from_u8_slice s 4) (\<lambda>psr'.
           and_then (usize_from_u8_slice s 5) (\<lambda>psp'.
           and_then (read_regs s 6 8) (\<lambda>regs'.
           Inr \<lparr>ss_regs = regs', yield_pc = yield_pc', psr = psr', psp = psp'\<rparr>))))))))"

fun write_regs :: "usize list \<Rightarrow> nat \<Rightarrow> u8 list \<Rightarrow> u8 list option" where
  "write_regs [] i out = Some out"
| "write_regs (v # vs) i out = do { out \<leftarrow> write_usize_to_u8_slice v out i; write_regs vs (i + 1) out }"

definition store_context :: "CortexMStoredState \<Rightarrow> u8 list \<Rightarrow> ((ErrorCode + nat) \<times> u8 list) option" where
  "store_context st out =
     (if length out \<ge> STORED_STATE_SIZE + 3 * 4 then do {
        out \<leftarrow> write_usize_to_u8_slice 1 out 0;
        out \<leftarrow> write_usize_to_u8_slice (of_nat STORED_STATE_SIZE) out 1;
        out \<leftarrow> write_usize_to_u8_slice (from_le_bytes TAG) out 2;
        out \<leftarrow> write_usize_to_u8_slice (yield_pc st) out 3;
        out \<leftarrow> write_usize_to_u8_slice (psr st) out 4;
        out \<leftarrow> write_usize_to_u8_slice (psp st) out 5;
        out \<leftarrow> write_regs (ss_regs st) 6 out;
        Some (Inr ((length (ss_regs st) + 3 + 3) * 4), out)
      }
      else Some (Inl SIZE, out))"

subsection \<open>The stack frame\<close>

definition initialize_process ::
    "usize \<Rightarrow> usize \<Rightarrow> CortexMStoredState \<Rightarrow> ram \<Rightarrow> ((unit + unit) \<times> CortexMStoredState \<times> ram) option" where
  "initialize_process accessible_memory_start app_brk st m =
     (let st = \<lparr>ss_regs = map (\<lambda>_. 0) (ss_regs st), yield_pc = 0, psr = 0x01000000, psp = app_brk\<rparr> in
      do {
        room \<leftarrow> chk_sub app_brk accessible_memory_start;
        if room < SVC_FRAME_SIZE then Some (Inl (), st, m)
        else do {
          sp \<leftarrow> chk_sub (psp st) SVC_FRAME_SIZE;
          Some (Inr (), st\<lparr>psp := sp\<rparr>, m)
        }
      })"

definition set_syscall_return_value ::
    "usize \<Rightarrow> usize \<Rightarrow> CortexMStoredState \<Rightarrow> SyscallReturn \<Rightarrow> ram \<Rightarrow>
      ((unit + unit) \<times> CortexMStoredState \<times> ram) option" where
  "set_syscall_return_value accessible_memory_start app_brk st return_value m =
     (if psp st < accessible_memory_start \<or> saturating_add (psp st) (4 * 4) > app_brk then Some (Inl (), st, m)
      else
        let sp = psp st;
            (r0, r1, r2, r3) =
              encode_syscall_return return_value
                (read_word m sp, read_word m (sp + 4), read_word m (sp + 8), read_word m (sp + 12)) in
        Some (Inr (), st,
          write_word (sp + 12) r3 (write_word (sp + 8) r2 (write_word (sp + 4) r1 (write_word sp r0 m)))))"

definition set_process_function ::
    "usize \<Rightarrow> usize \<Rightarrow> CortexMStoredState \<Rightarrow> FunctionCall \<Rightarrow> ram \<Rightarrow>
      ((unit + unit) \<times> CortexMStoredState \<times> ram) option" where
  "set_process_function accessible_memory_start app_brk st callback m =
     (if psp st < accessible_memory_start \<or> saturating_add (psp st) SVC_FRAME_SIZE > app_brk then
        Some (Inl (), st, m)
      else
        let stack_bottom = psp st;
            m = write_word (stack_bottom + 28) (psr st) m;
            m = write_word (stack_bottom + 24) (pc callback OR 1) m;
            m = write_word (stack_bottom + 20) (yield_pc st OR 1) m;
            m = write_word (stack_bottom + 12) (argument3 callback) m;
            m = write_word (stack_bottom + 8) (argument2 callback) m;
            m = write_word (stack_bottom + 4) (argument1 callback) m;
            m = write_word stack_bottom (argument0 callback) m in
        Some (Inr (), st, m))"

record 'w user_exit =
  new_stack_pointer :: usize
  new_regs :: "usize list"
  memory_after :: ram
  app_hard_fault :: usize
  syscall_fired :: usize
  world_after :: 'w

type_synonym 'w switch_to_user = "usize \<Rightarrow> usize list \<Rightarrow> ram \<Rightarrow> 'w \<Rightarrow> 'w user_exit"

definition switch_to_process ::
    "'w switch_to_user \<Rightarrow> usize \<Rightarrow> usize \<Rightarrow> CortexMStoredState \<Rightarrow> ram \<Rightarrow> 'w \<Rightarrow>
      (ContextSwitchReason \<times> usize option \<times> CortexMStoredState \<times> ram \<times> 'w) option" where
  "switch_to_process switch_to_user accessible_memory_start app_brk st m w =
     (let ex = switch_to_user (psp st) (ss_regs st) m w;
          sp = new_stack_pointer ex;
          m = memory_after ex;
          st = st\<lparr>ss_regs := new_regs ex, psp := sp\<rparr>;
          invalid_stack_pointer =
            (sp < accessible_memory_start \<or> saturating_add sp SVC_FRAME_SIZE > app_brk);
          (reason, st) =
            (if app_hard_fault ex = 1 \<or> invalid_stack_pointer then (Fault, st)
             else if syscall_fired ex = 1 then
               (let st = st\<lparr>yield_pc := read_word m (sp + 24), psr := read_word m (sp + 28)\<rparr>;
                    r0 = read_word m sp;
                    r1 = read_word m (sp + 4);
                    r2 = read_word m (sp + 8);
                    r3 = read_word m (sp + 12);
                    pcptr = read_word m (sp + 24);
                    svc_instr = read_half m (pcptr - 2);
                    svc_num = (ucast (svc_instr AND 0xff) :: u8) in
                case from_register_arguments svc_num r0 r1 r2 r3 of
                  Some s \<Rightarrow> (SyscallFired s, st)
                | None \<Rightarrow> (Fault, st))
             else (Interrupted, st)) in
      Some (reason, Some sp, st, m, world_after ex))"

definition cortexm_ukb :: "'w switch_to_user \<Rightarrow> ('w, CortexMStoredState) UKB" where
  "cortexm_ukb switch_to_user =
     \<lparr>ukb_default = default_stored_state,
      ukb_initial_process_app_brk_size = SVC_FRAME_SIZE,
      ukb_initialize_process = initialize_process,
      ukb_set_syscall_return_value = set_syscall_return_value,
      ukb_set_process_function = set_process_function,
      ukb_switch_to_process = switch_to_process switch_to_user,
      ukb_store_context = store_context\<rparr>"

section \<open>Lemmas\<close>

lemma saturating_add_le:
  assumes "\<not> saturating_add a b > hi" "hi \<noteq> - 1"
  shows "unat a + unat b \<le> unat (hi :: usize)"
proof (cases "chk_add a b")
  case None
  then show ?thesis
    using assms word_order.extremum [of hi] by (simp add: saturating_add_def)
next
  case (Some c)
  then show ?thesis
    using assms chk_add_eq_Some [of a b c] by (simp add: saturating_add_def word_less_nat_alt)
qed

lemma same_outside_step:
  "same_outside lo hi m m' \<Longrightarrow> unat lo \<le> unat a \<Longrightarrow> unat a + 4 \<le> unat hi \<Longrightarrow>
     same_outside lo hi m (write_word a w m')"
  by (rule same_outside_trans [OF _ same_outside_write])

lemma unat_frame:
  assumes "unat (a :: usize) + 32 \<le> 2 ^ 32"
  shows "unat (a + 4) = unat a + 4" "unat (a + 8) = unat a + 8" "unat (a + 12) = unat a + 12"
    "unat (a + 20) = unat a + 20" "unat (a + 24) = unat a + 24" "unat (a + 28) = unat a + 28"
  using assms unat_add_small [of a 4] unat_add_small [of a 8] unat_add_small [of a 12]
    unat_add_small [of a 20] unat_add_small [of a 24] unat_add_small [of a 28] by simp_all

lemma unat_frame16:
  assumes "unat (a :: usize) + 16 \<le> 2 ^ 32"
  shows "unat (a + 4) = unat a + 4" "unat (a + 8) = unat a + 8" "unat (a + 12) = unat a + 12"
  using assms unat_add_small [of a 4] unat_add_small [of a 8] unat_add_small [of a 12] by simp_all

lemma set_syscall_return_value_frame:
  assumes "set_syscall_return_value lo hi st v m = Some (r, st', m')" "hi \<noteq> - 1"
  shows "same_outside lo hi m m'"
proof (cases "psp st < lo \<or> saturating_add (psp st) (4 * 4) > hi")
  case True
  then show ?thesis using assms by (simp add: set_syscall_return_value_def)
next
  case False
  then have lo: "unat lo \<le> unat (psp st)" by (simp add: word_less_nat_alt)
  have hi: "unat (psp st) + 16 \<le> unat hi" using False saturating_add_le [of hi "psp st" 16] assms(2) by simp
  have "unat (psp st) + 16 \<le> 2 ^ 32" using hi unat_less_2p [of hi] by simp
  note u = unat_frame16 [OF this]
  obtain r0 r1 r2 r3 where m': "m' = write_word (psp st + 12) r3 (write_word (psp st + 8) r2 (write_word (psp st + 4) r1 (write_word (psp st) r0 m)))"
    using False assms(1) by (auto simp: set_syscall_return_value_def Let_def split: prod.splits)
  show ?thesis
    unfolding m'
    by (intro same_outside_step same_outside_refl) (use lo hi u in simp_all)
qed

lemma set_process_function_frame:
  assumes "set_process_function lo hi st c m = Some (r, st', m')" "hi \<noteq> - 1"
  shows "same_outside lo hi m m'"
proof (cases "psp st < lo \<or> saturating_add (psp st) SVC_FRAME_SIZE > hi")
  case True
  then show ?thesis using assms by (simp add: set_process_function_def)
next
  case False
  then have lo: "unat lo \<le> unat (psp st)" by (simp add: word_less_nat_alt)
  have hi: "unat (psp st) + 32 \<le> unat hi"
    using False saturating_add_le [of hi "psp st" 32] assms(2) by (simp add: SVC_FRAME_SIZE_def)
  then have "unat (psp st) + 32 \<le> 2 ^ 32" using unat_less_2p [of hi] by simp
  note u = unat_frame [OF this]
  show ?thesis
    using False assms(1) lo hi u
    by (auto simp: set_process_function_def Let_def intro!: same_outside_step)
qed

interpretation cm_ukb: ukb_contract "cortexm_ukb sw"
  by unfold_locales
    (auto simp: cortexm_ukb_def initialize_process_def Let_def bind_eq_Some_conv
      split: if_splits dest: set_syscall_return_value_frame set_process_function_frame)

subsection \<open>What the process finds in its frame\<close>

definition frame_regs :: "usize \<Rightarrow> ram \<Rightarrow> regs" where
  "frame_regs sp m = (read_word m sp, read_word m (sp + 4), read_word m (sp + 8), read_word m (sp + 12))"

definition sp_valid :: "usize \<Rightarrow> usize \<Rightarrow> usize \<Rightarrow> bool" where
  "sp_valid lo hi sp \<longleftrightarrow> unat lo \<le> unat sp \<and> unat sp + 32 \<le> unat hi"

lemma sp_valid_checks:
  assumes "sp_valid lo hi sp"
  shows "\<not> sp < lo" "\<not> saturating_add sp SVC_FRAME_SIZE > hi" "\<not> saturating_add sp 16 > hi"
proof -
  have "unat sp + 32 < 2 ^ 32" using assms unat_less_2p [of hi] by (simp add: sp_valid_def)
  then have "chk_add sp 32 = Some (sp + 32)" "unat (sp + 32) = unat sp + 32"
    "chk_add sp 16 = Some (sp + 16)" "unat (sp + 16) = unat sp + 16"
    using chk_addI [of sp 32] chk_addI [of sp 16] by simp_all
  then show "\<not> sp < lo" "\<not> saturating_add sp SVC_FRAME_SIZE > hi" "\<not> saturating_add sp 16 > hi"
    using assms by (simp_all add: sp_valid_def saturating_add_def SVC_FRAME_SIZE_def word_less_nat_alt)
qed

lemma set_syscall_return_value_ok:
  assumes "sp_valid lo hi (psp st)"
  shows "\<exists>m'. set_syscall_return_value lo hi st v m = Some (Inr (), st, m') \<and>
     abi_decode (frame_regs (psp st) m') = Some (abi_view v)"
proof -
  have w: "unat (psp st) + 32 \<le> 2 ^ 32"
    using assms unat_less_2p [of hi] by (simp add: sp_valid_def)
  note u = unat_frame [OF this]
  obtain r0 r1 r2 r3 where e: "encode_syscall_return v (frame_regs (psp st) m) = (r0, r1, r2, r3)"
    by (metis prod.exhaust)
  let ?m = "write_word (psp st + 12) r3 (write_word (psp st + 8) r2 (write_word (psp st + 4) r1 (write_word (psp st) r0 m)))"
  have "frame_regs (psp st) ?m = (r0, r1, r2, r3)"
    using u w by (simp add: frame_regs_def read_write_below read_write_above)
  then show ?thesis
    using sp_valid_checks [OF assms] e encode_decode [of v "frame_regs (psp st) m"]
    by (simp add: set_syscall_return_value_def frame_regs_def Let_def)
qed

lemma set_process_function_ok:
  assumes "sp_valid lo hi (psp st)"
  shows "\<exists>m'. set_process_function lo hi st c m = Some (Inr (), st, m') \<and>
     frame_regs (psp st) m' = (argument0 c, argument1 c, argument2 c, argument3 c) \<and>
     read_word m' (psp st + 20) = yield_pc st OR 1 \<and> read_word m' (psp st + 24) = pc c OR 1 \<and>
     read_word m' (psp st + 28) = psr st"
proof -
  have w: "unat (psp st) + 32 \<le> 2 ^ 32"
    using assms unat_less_2p [of hi] by (simp add: sp_valid_def)
  note u = unat_frame [OF this]
  show ?thesis
    using sp_valid_checks [OF assms] u w
    by (simp add: set_process_function_def Let_def frame_regs_def read_write_below read_write_above)
qed

lemma set_process_function_fails:
  "\<not> sp_valid lo hi (psp st) \<Longrightarrow> hi \<noteq> - 1 \<Longrightarrow> set_process_function lo hi st c m = Some (Inl (), st, m)"
  using saturating_add_le [of hi "psp st" SVC_FRAME_SIZE]
  by (auto simp: set_process_function_def sp_valid_def word_less_nat_alt SVC_FRAME_SIZE_def)

lemma switch_to_process_syscall:
  assumes "sp_valid lo hi (new_stack_pointer ex)" "ex = sw (psp st) (ss_regs st) m w"
    "app_hard_fault ex \<noteq> 1" "syscall_fired ex = 1"
    "to_register_arguments s = (n, frame_regs (new_stack_pointer ex) (memory_after ex))"
    "ucast (read_half (memory_after ex) (read_word (memory_after ex) (new_stack_pointer ex + 24) - 2) AND 0xff) = n"
  shows "\<exists>st'. switch_to_process sw lo hi st m w =
     Some (SyscallFired s, Some (new_stack_pointer ex), st', memory_after ex, world_after ex)"
  using sp_valid_checks [OF assms(1)] assms(2-) from_to_register_arguments [of s n]
  by (auto simp: switch_to_process_def Let_def frame_regs_def)

lemma switch_to_process_invalid_sp:
  assumes "\<not> sp_valid lo hi (new_stack_pointer ex)" "ex = sw (psp st) (ss_regs st) m w" "hi \<noteq> - 1"
  shows "\<exists>st'. switch_to_process sw lo hi st m w =
     Some (Fault, Some (new_stack_pointer ex), st', memory_after ex, world_after ex)"
proof -
  have "new_stack_pointer ex < lo \<or> saturating_add (new_stack_pointer ex) SVC_FRAME_SIZE > hi"
    using assms(1,3) saturating_add_le [of hi "new_stack_pointer ex" SVC_FRAME_SIZE]
    by (auto simp: sp_valid_def word_less_nat_alt SVC_FRAME_SIZE_def)
  then show ?thesis using assms(2) by (auto simp: switch_to_process_def Let_def)
qed

lemma initialize_process_ok:
  assumes "unat lo + 32 \<le> unat hi"
  shows "\<exists>st'. initialize_process lo hi st m = Some (Inr (), st', m) \<and> sp_valid lo hi (psp st') \<and>
     unat (psp st') + 32 = unat hi \<and> yield_pc st' = 0 \<and> psr st' = 0x01000000"
proof -
  have "chk_sub hi lo = Some (hi - lo)" "unat (hi - lo) = unat hi - unat lo"
    "chk_sub hi 32 = Some (hi - 32)" "unat (hi - 32) = unat hi - 32"
    using assms chk_subI [of lo hi] chk_subI [of 32 hi] by simp_all
  then show ?thesis
    using assms
    by (auto simp: initialize_process_def Let_def SVC_FRAME_SIZE_def sp_valid_def word_less_nat_alt)
qed

subsection \<open>The serialised state reads back\<close>

lemma write_regs_append: "write_regs (xs @ ys) i out = Option.bind (write_regs xs i out) (write_regs ys (i + length xs))"
  by (induction xs arbitrary: i out) (auto split: Option.bind_split)

lemma write_regs_eq:
  assumes "4 * (i + length vs) \<le> length out"
  shows "write_regs vs i out =
     Some (take (4 * i) out @ concat (map to_le_bytes vs) @ drop (4 * (i + length vs)) out)"
  using assms
proof (induction vs arbitrary: i out)
  case (Cons v vs)
  have "4 * (i + 1) = 4 * i + 4" by simp
  then show ?case
    using Cons.prems Cons.IH [of "i + 1" "take (4 * i) out @ to_le_bytes v @ drop (4 * i + 4) out"]
    by (simp add: write_usize_to_u8_slice_def algebra_simps take_append drop_append)
qed simp

lemma store_context_eq:
  "store_context st out =
     (if length out \<ge> 56 then do {
        out \<leftarrow> write_regs ([1, of_nat STORED_STATE_SIZE, from_le_bytes TAG, yield_pc st, psr st, psp st] @ ss_regs st) 0 out;
        Some (Inr ((length (ss_regs st) + 3 + 3) * 4), out)
      } else Some (Inl SIZE, out))"
  by (simp add: store_context_def STORED_STATE_SIZE_def numeral_2_eq_2 [symmetric] del: from_le_bytes.simps)

lemma usize_from_words:
  assumes "i < length ws"
  shows "usize_from_u8_slice (concat (map to_le_bytes (ws :: usize list))) i = Inr (ws ! i)"
proof -
  have "concat (map to_le_bytes ws) = concat (map to_le_bytes (take i ws)) @ to_le_bytes (ws ! i) @
      concat (map to_le_bytes (drop (Suc i) ws))"
    using id_take_nth_drop [OF assms] by (metis concat.simps(2) concat_append list.simps(9) map_append)
  moreover have "length (concat (map to_le_bytes (take i ws))) = i * 4"
    using assms by (simp add: length_concat sum_list_triv comp_def)
  ultimately have "slice_range (concat (map to_le_bytes ws)) (i * 4) ((i + 1) * 4) = Some (to_le_bytes (ws ! i))"
    by (simp add: slice_range_def)
  then show ?thesis by (simp add: usize_from_u8_slice_def from_to_le_bytes)
qed

lemma read_regs_words:
  "v + n \<le> length ws \<Longrightarrow> read_regs (concat (map to_le_bytes ws)) v n = Inr (take n (drop v ws))"
proof (induction n arbitrary: v)
  case (Suc n)
  then have "take (Suc n) (drop v ws) = ws ! v # take n (drop (v + 1) ws)"
    by (simp add: Cons_nth_drop_Suc [symmetric])
  then show ?case using Suc by (simp add: usize_from_words)
qed simp

lemma store_context_read_back:
  assumes "length (ss_regs st) = 8" "56 \<le> length out"
  shows "\<exists>out'. store_context st out = Some (Inr 56, out') \<and> length out' = length out \<and>
     CortexMStoredState_try_from (take 56 out') = Inr st \<and> drop 56 out' = drop 56 out"
proof -
  define ws where "ws = [1, of_nat STORED_STATE_SIZE, from_le_bytes TAG, yield_pc st, psr st, psp st] @ ss_regs st"
  have len: "length ws = 14" using assms(1) by (simp add: ws_def)
  let ?b = "concat (map to_le_bytes ws)"
  have b: "length ?b = 56" using len by (simp add: length_concat sum_list_triv comp_def)
  have "store_context st out = Some (Inr 56, ?b @ drop 56 out)"
    unfolding store_context_eq ws_def [symmetric]
    using assms write_regs_eq [of 0 ws out] len by simp
  moreover have "CortexMStoredState_try_from ?b = Inr st"
    unfolding CortexMStoredState_try_from_def
    using b len assms(1) usize_from_words [of _ ws] read_regs_words [of 6 8 ws]
    by (simp add: STORED_STATE_SIZE_def) (simp add: ws_def STORED_STATE_SIZE_def)
  ultimately show ?thesis using b assms(2) by simp
qed

end
