(* ===== verification/QueueSpec.thy ===== *)
theory QueueSpec
  imports RingBuffer
begin

text \<open>
  The abstract specification of the kernel's queue, a list with a capacity, and the run of a sequence
  of queue operations on the ring buffer and on the list. The ring buffer returns the same answers
  and holds the same elements after every sequence.
\<close>

datatype 'a queue_op = Enqueue 'a | Push 'a | Dequeue | Empty | Retain "'a \<Rightarrow> bool"

datatype 'a answer = Accepted bool | Displaced "'a option" | Taken "'a option" | Nothing

fun spec_step :: "nat \<Rightarrow> 'a queue_op \<Rightarrow> 'a list \<Rightarrow> 'a answer \<times> 'a list" where
  "spec_step cap (Enqueue v) xs = (if length xs < cap then (Accepted True, xs @ [v]) else (Accepted False, xs))"
| "spec_step cap (Push v) xs =
     (if length xs < cap then (Displaced None, xs @ [v]) else (Displaced (Some (hd xs)), tl xs @ [v]))"
| "spec_step cap Dequeue xs = (case xs of [] \<Rightarrow> (Taken None, []) | x # ys \<Rightarrow> (Taken (Some x), ys))"
| "spec_step cap Empty xs = (Nothing, [])"
| "spec_step cap (Retain f) xs = (Nothing, filter f xs)"

fun rb_step :: "'a queue_op \<Rightarrow> 'a ring_buffer \<Rightarrow> ('a answer \<times> 'a ring_buffer) option" where
  "rb_step (Enqueue v) rb = do { (b, rb) \<leftarrow> rb_enqueue rb v; Some (Accepted b, rb) }"
| "rb_step (Push v) rb = do { (r, rb) \<leftarrow> rb_push rb v; Some (Displaced r, rb) }"
| "rb_step Dequeue rb = do { (r, rb) \<leftarrow> rb_dequeue rb; Some (Taken r, rb) }"
| "rb_step Empty rb = Some (Nothing, rb_empty rb)"
| "rb_step (Retain f) rb = do { rb \<leftarrow> rb_retain rb f; Some (Nothing, rb) }"

fun spec_run :: "nat \<Rightarrow> 'a queue_op list \<Rightarrow> 'a list \<Rightarrow> 'a answer list \<times> 'a list" where
  "spec_run cap [] xs = ([], xs)"
| "spec_run cap (opn # ops) xs =
     (let (a, xs) = spec_step cap opn xs; (as, xs) = spec_run cap ops xs in (a # as, xs))"

fun rb_run :: "'a queue_op list \<Rightarrow> 'a ring_buffer \<Rightarrow> ('a answer list \<times> 'a ring_buffer) option" where
  "rb_run [] rb = Some ([], rb)"
| "rb_run (opn # ops) rb = do { (a, rb) \<leftarrow> rb_step opn rb; (as, rb) \<leftarrow> rb_run ops rb; Some (a # as, rb) }"

lemma rb_step_refines:
  assumes "rb_inv rb" "0 < rb_capacity rb"
  shows "\<exists>a rb'. rb_step opn rb = Some (a, rb') \<and> rb_inv rb' \<and> rb_capacity rb' = rb_capacity rb \<and>
    spec_step (rb_capacity rb) opn (rb_list rb) = (a, rb_list rb')"
proof (cases opn)
  case (Enqueue v)
  obtain b rb' where "rb_enqueue rb v = Some (b, rb')" "rb_inv rb'" "rb_capacity rb' = rb_capacity rb"
    "b \<longleftrightarrow> length (rb_list rb) < rb_capacity rb" "rb_list rb' = (if b then rb_list rb @ [v] else rb_list rb)"
    by (rule rbq.enqueue_spec [OF assms(1)])
  then show ?thesis using Enqueue by auto
next
  case (Push v)
  show ?thesis
  proof (cases "length (rb_list rb) < rb_capacity rb")
    case True
    then show ?thesis using Push rbq.push_room [OF assms(1) True, of v] by auto
  next
    case False
    then have full: "length (rb_list rb) = rb_capacity rb" using rbq.bounded [OF assms(1)] by simp
    then obtain x xs where "rb_list rb = x # xs" using assms(2) by (cases "rb_list rb") auto
    then show ?thesis using Push False rbq.push_full [OF assms(1) full, of x xs v] by auto
  qed
next
  case Dequeue
  then show ?thesis
    using rbq.dequeue_empty [OF assms(1)] rbq.dequeue_Cons [OF assms(1)] assms(1)
    by (cases "rb_list rb") (auto simp del: rb_list_length)
next
  case Empty
  then show ?thesis using rbq.empty [OF assms(1)] by auto
next
  case (Retain f)
  then show ?thesis using rbq.retain [OF assms(1), of f] by auto
qed

lemma rb_run_refines:
  assumes "rb_inv rb" "0 < rb_capacity rb"
  shows "\<exists>as rb'. rb_run ops rb = Some (as, rb') \<and> rb_inv rb' \<and> spec_run (rb_capacity rb) ops (rb_list rb) = (as, rb_list rb')"
  using assms
proof (induction ops arbitrary: rb)
  case (Cons opn ops)
  obtain a rb1 where s: "rb_step opn rb = Some (a, rb1)" "rb_inv rb1" "rb_capacity rb1 = rb_capacity rb"
      "spec_step (rb_capacity rb) opn (rb_list rb) = (a, rb_list rb1)"
    using rb_step_refines [OF Cons.prems] by blast
  then show ?case using Cons.IH [of rb1] Cons.prems by auto
qed simp

end
