(* ===== verification/Demo.thy ===== *)
theory Demo
  imports ProcessLoading Grant CortexM_Mpu CortexM_Syscall QueueSpec
begin

text \<open>
  Concrete states on which the properties are evaluated: a configuration of an eight-region
  Cortex-M unit with one process region, a chip, a program header and a process that has just been
  created. They model no source code of their own.
\<close>

definition fresh_config :: CortexMConfig where
  "fresh_config = cm_reset_config
     \<lparr>config_id = 1, regions = replicate 8 (CortexMRegion_empty 0), is_dirty = True\<rparr>"

definition demo_config :: CortexMConfig where
  "demo_config =
     (case cm_allocate_app_memory_region 0x20000000 0x4000 0 2048 1024 ReadWriteOnly fresh_config of
        Some (_, c) \<Rightarrow> c | None \<Rightarrow> fresh_config)"

definition demo_hw :: cortexm_hw where
  "demo_hw = \<lparr>config_count = 2, hardware_is_configured_for = None, ctrl_reg = 0, rbar_regs = (\<lambda>_. 0), rasr_regs = (\<lambda>_. 0)\<rparr>"

text \<open>A process that runs for no instruction at all and is interrupted.\<close>

definition idle_user :: "'w switch_to_user" where
  "idle_user sp rs m w =
     \<lparr>new_stack_pointer = sp, new_regs = rs, memory_after = m, app_hard_fault = 0, syscall_fired = 0, world_after = w\<rparr>"

definition demo_chip :: "(cortexm_hw, CortexMConfig, unit, CortexMStoredState) Chip" where
  "demo_chip = \<lparr>mpu = cortexm_mpu 8 32, ukb = cortexm_ukb idle_user, size_of_Task = 28, size_of_ProcessStandard = 400\<rparr>"

definition demo_base :: TbfHeaderV2Base where
  "demo_base = \<lparr>base_version = 2, header_size = 40, total_size = 512, flags = 1, checksum = 2099745\<rparr>"

definition demo_main :: TbfHeaderV2Main where
  "demo_main = \<lparr>main_init_fn_offset = 41, main_protected_trailer_size = 0, main_minimum_ram_size = 2048\<rparr>"

definition demo_items :: "tlv_item list" where
  "demo_items = [ItemMain demo_main, ItemKernel \<lparr>kv_major = 2, kv_minor = 0\<rparr>]"

definition demo_header :: TbfHeader where
  "demo_header = header_of demo_base (fold apply_item demo_items init_tlv_state)"

definition demo_flash :: flash_slice where
  "demo_flash = (0x30000, emit_header demo_base demo_items @ replicate 472 0)"

definition demo_proc :: "(CortexMConfig, CortexMStoredState) ProcessStandard" where
  "demo_proc =
     (new_process demo_chip (0x30000, replicate 64 0) [] demo_header StopFaultPolicy (ProcessId_new 0 0)
        0x20000000 4096 0x20000800 0x20000C00 2 demo_config)\<lparr>pstate := Running\<rparr>"

definition demo_machine :: "(cortexm_hw, unit) Machine" where
  "demo_machine =
     \<lparr>mpu_hw = demo_hw, memory = (\<lambda>_. 0), world = (), process_identifier_max = 1, grant_counter = 2,
      grants_finalized = True\<rparr>"

definition demo_sys :: "(cortexm_hw, CortexMConfig, unit, CortexMStoredState) System" where
  "demo_sys = \<lparr>procs = [Some demo_proc, None], machine = demo_machine\<rparr>"

definition demo_grant :: Grant where
  "demo_grant =
     \<lparr>grant_driver_num = 2, grant_grant_num = 0, grant_t_default = [1, 2, 3, 4, 5, 6, 7, 8], grant_t_align = 8,
      grant_upcalls = 2, grant_allow_ros = 1, grant_allow_rws = 1\<rparr>"

text \<open>The same process after its first use of that grant, and an upcall for the grant's driver.\<close>

definition demo_granted_proc :: "(CortexMConfig, CortexMStoredState) ProcessStandard" where
  "demo_granted_proc =
     (case new_inner demo_chip demo_grant demo_proc demo_machine of Some (_, p, _) \<Rightarrow> p | None \<Rightarrow> demo_proc)"

definition demo_granted_memory :: ram where
  "demo_granted_memory =
     (case new_inner demo_chip demo_grant demo_proc demo_machine of Some (_, _, mc) \<Rightarrow> memory mc | None \<Rightarrow> (\<lambda>_. 0))"

definition demo_upcall :: Upcall where
  "demo_upcall = Upcall_new (ProcessId_new 0 0) \<lparr>upcall_driver_num = 2, subscribe_num = 1\<rparr> 7 (Some 0x30101)"

lemma demo_proc_fields [simp]:
  "memory_start demo_proc = 0x20000000" "memory_len demo_proc = 4096" "app_break demo_proc = 0x20000800"
  "kernel_memory_break demo_proc = 0x20000C00" "allow_high_water_mark demo_proc = 0x20000000"
  "pstate demo_proc = Running" "process_id demo_proc = \<lparr>pid_index = 0, pid_identifier = 0\<rparr>"
  "mem_end demo_proc = 0x20001000" "mpu_config demo_proc = Some demo_config"
  by (simp_all add: demo_proc_def new_process_def ProcessId_new_def mem_end_def)

lemma demo_proc_ok: "proc_ok demo_proc demo_machine"
proof -
  have "grants_ok demo_proc" "queue_ok demo_proc" "length (mpu_regions demo_proc) = 6"
    by (simp_all add: demo_proc_def new_process_def grants_ok_def grant_ok_def list_all_iff queue_ok_def
        rb_inv_def rb_new_def CALLBACK_LEN_def)
  moreover have "layout_ok demo_proc" by (simp add: layout_ok_def word_le_nat_alt)
  ultimately show ?thesis by (simp add: proc_ok_def demo_machine_def)
qed

lemma demo_config_wf: "config_wf demo_config"
proof -
  have "config_wf (cm_reset_config \<lparr>config_id = 1, regions = replicate 8 (CortexMRegion_empty 0), is_dirty = True\<rparr>)"
    by (rule config_wf_reset) simp
  then show ?thesis
    unfolding demo_config_def fresh_config_def
    by (auto split: option.split dest: config_wf_operations(2))
qed

lemma demo_chip_mpu [simp]: "mpu demo_chip = cortexm_mpu 8 32"
  by (simp add: demo_chip_def)

lemma demo_sys_slot: "slot i demo_sys = Some p \<longleftrightarrow> i = 0 \<and> p = demo_proc"
proof -
  consider "i = 0" | "i = 1" | "i \<ge> 2" by linarith
  then show ?thesis by cases (auto simp: slot_def demo_sys_def slice_get_def)
qed

lemma demo_sys_ok: "sys_ok demo_sys"
  using demo_proc_ok by (auto simp: sys_ok_def demo_sys_slot) (simp add: demo_sys_def)

lemma demo_granted:
  "driver_grant 2 demo_granted_proc = Some 0x20000BD0" "fits demo_granted_memory 0x20000BD0"
  "view demo_granted_memory 0x20000BD0 0 = [(0, 0), (0, 0)]" "view demo_granted_memory 0x20000BD0 2 = [(0, 0)]"
proof -
  define res where "res = new_inner demo_chip demo_grant demo_proc demo_machine"
  have "res \<noteq> None \<and> fst (the res) = Inr (Some 0x20000BF8)" unfolding res_def by code_simp
  then obtain p' mc' where res: "res = Some (Inr (Some 0x20000BF8), p', mc')" by auto
  have al: "grant_t_align demo_grant = 2 ^ 3" "unat (grant_upcalls demo_grant) = 2" "unat (grant_allow_rws demo_grant) = 1"
    "grant_t_size demo_grant = 8" by (simp_all add: demo_grant_def grant_t_size_def)
  have sz: "alloc_size demo_grant = Some 48" by code_simp
  obtain e base where base: "grant_end (memory mc') base \<le> unat (0x20000BF8 :: usize)"
    "unat (0x20000BF8 :: usize) + unat (grant_t_size demo_grant) = unat base + unat (48 :: usize)"
    "\<forall>j<3. view (memory mc') base j = replicate (count j (memory mc') base) (0, 0)"
    "count 0 (memory mc') base = 2" "count 2 (memory mc') base = 1"
    using new_inner_allocated [OF res [unfolded res_def] demo_proc_ok al(1) _ sz] al by auto
  have "base = 0x20000BD0" using base(2) al(4) by (simp add: word_unat_eq_iff)
  moreover have "demo_granted_memory = memory mc'" using res by (simp add: demo_granted_memory_def res_def)
  ultimately have mem: "grant_end demo_granted_memory 0x20000BD0 \<le> unat (0x20000BF8 :: usize)"
    "view demo_granted_memory 0x20000BD0 0 = replicate 2 (0, 0)" "view demo_granted_memory 0x20000BD0 2 = replicate 1 (0, 0)"
    using base by auto
  have "unat (0x20000BF8 :: usize) < 2 ^ 32" by simp
  then show "fits demo_granted_memory 0x20000BD0" using mem(1) by (simp only: fits_def)
  show "view demo_granted_memory 0x20000BD0 0 = [(0, 0), (0, 0)]" "view demo_granted_memory 0x20000BD0 2 = [(0, 0)]"
    using mem(2,3) by (simp_all add: numeral_2_eq_2)
  show "driver_grant 2 demo_granted_proc = Some 0x20000BD0" by code_simp
qed

lemma demo_sealed: "sealed demo_base demo_items"
  by code_simp

end
