(* ===== verification/Dispatch.thy ===== *)
theory Dispatch
  imports Grant Memop
begin

text \<open>
  The system call dispatcher: the driver interface (\<open>kernel/src/syscall_driver.rs\<close>) and
  \<open>handle_syscall\<close> of \<open>kernel/src/kernel.rs\<close>, one definition per system call class. A driver is a
  record of its three methods; they act on the whole system, because a driver may reach every
  process and its own state (in \<open>world\<close>). The table of drivers and the filter of the platform are
  arguments. The process that made the call is the slot \<open>i\<close>.

  The lemmas show that the dispatcher only does what process methods do, provided the drivers do, so
  that it keeps the invariant of the system; and what each class does to the calling process.
\<close>

section \<open>Drivers\<close>

datatype CommandReturn = CommandReturn SyscallReturn

fun into_inner :: "CommandReturn \<Rightarrow> SyscallReturn" where
  "into_inner (CommandReturn r) = r"

definition CommandReturn_failure :: "ErrorCode \<Rightarrow> CommandReturn" where
  "CommandReturn_failure rc = CommandReturn (Failure rc)"

definition CommandReturn_failure_u32 :: "ErrorCode \<Rightarrow> u32 \<Rightarrow> CommandReturn" where
  "CommandReturn_failure_u32 rc data0 = CommandReturn (FailureU32 rc data0)"

definition CommandReturn_failure_u32_u32 :: "ErrorCode \<Rightarrow> u32 \<Rightarrow> u32 \<Rightarrow> CommandReturn" where
  "CommandReturn_failure_u32_u32 rc data0 data1 = CommandReturn (FailureU32U32 rc data0 data1)"

definition CommandReturn_failure_u64 :: "ErrorCode \<Rightarrow> u64 \<Rightarrow> CommandReturn" where
  "CommandReturn_failure_u64 rc data0 = CommandReturn (FailureU64 rc data0)"

definition CommandReturn_success :: CommandReturn where
  "CommandReturn_success = CommandReturn Success"

definition CommandReturn_success_u32 :: "u32 \<Rightarrow> CommandReturn" where
  "CommandReturn_success_u32 data0 = CommandReturn (SuccessU32 data0)"

definition CommandReturn_success_u32_u32 :: "u32 \<Rightarrow> u32 \<Rightarrow> CommandReturn" where
  "CommandReturn_success_u32_u32 data0 data1 = CommandReturn (SuccessU32U32 data0 data1)"

definition CommandReturn_success_u32_u32_u32 :: "u32 \<Rightarrow> u32 \<Rightarrow> u32 \<Rightarrow> CommandReturn" where
  "CommandReturn_success_u32_u32_u32 data0 data1 data2 = CommandReturn (SuccessU32U32U32 data0 data1 data2)"

definition CommandReturn_success_u64 :: "u64 \<Rightarrow> CommandReturn" where
  "CommandReturn_success_u64 data0 = CommandReturn (SuccessU64 data0)"

definition CommandReturn_success_u32_u64 :: "u32 \<Rightarrow> u64 \<Rightarrow> CommandReturn" where
  "CommandReturn_success_u32_u64 data0 data1 = CommandReturn (SuccessU32U64 data0 data1)"

definition CommandReturn_from_Result :: "ErrorCode + unit \<Rightarrow> CommandReturn" where
  "CommandReturn_from_Result rc =
     (case rc of Inr _ \<Rightarrow> CommandReturn_success | Inl e \<Rightarrow> CommandReturn_failure e)"

definition CommandReturn_from_process_error :: "process_error \<Rightarrow> CommandReturn" where
  "CommandReturn_from_process_error perr = CommandReturn_failure (ErrorCode_from_process_error perr)"

record ('hw, 'cfg, 'w, 'ss) SyscallDriver =
  drv_command :: "usize \<Rightarrow> usize \<Rightarrow> usize \<Rightarrow> ProcessId \<Rightarrow> ('hw, 'cfg, 'w, 'ss) System \<Rightarrow>
    (CommandReturn \<times> ('hw, 'cfg, 'w, 'ss) System) option"
  drv_allow_userspace_readable :: "ProcessId \<Rightarrow> usize \<Rightarrow> ProcessBuffer \<Rightarrow> ('hw, 'cfg, 'w, 'ss) System \<Rightarrow>
    (((ProcessBuffer \<times> ErrorCode) + ProcessBuffer) \<times> ('hw, 'cfg, 'w, 'ss) System) option"
  drv_allocate_grant :: "ProcessId \<Rightarrow> ('hw, 'cfg, 'w, 'ss) System \<Rightarrow>
    ((process_error + unit) \<times> ('hw, 'cfg, 'w, 'ss) System) option"

text \<open>The methods a driver has when it does not define them.\<close>

definition command_default ::
    "usize \<Rightarrow> usize \<Rightarrow> usize \<Rightarrow> ProcessId \<Rightarrow> ('hw, 'cfg, 'w, 'ss) System \<Rightarrow>
      (CommandReturn \<times> ('hw, 'cfg, 'w, 'ss) System) option" where
  "command_default command_num r2 r3 pid sys = Some (CommandReturn_failure NOSUPPORT, sys)"

definition allow_userspace_readable_default ::
    "ProcessId \<Rightarrow> usize \<Rightarrow> ProcessBuffer \<Rightarrow> ('hw, 'cfg, 'w, 'ss) System \<Rightarrow>
      (((ProcessBuffer \<times> ErrorCode) + ProcessBuffer) \<times> ('hw, 'cfg, 'w, 'ss) System) option" where
  "allow_userspace_readable_default app w buf sys = Some (Inl (buf, NOSUPPORT), sys)"

section \<open>The dispatcher\<close>

datatype AllocResult = NoAllocation | NewAllocation | SameAllocation

definition allocated_count :: "nat \<Rightarrow> ('hw, 'cfg, 'w, 'ss) System \<Rightarrow> nat" where
  "allocated_count i sys =
     (case Option.bind (slot i sys) grant_allocated_count of Some n \<Rightarrow> n | None \<Rightarrow> 0)"

definition try_allocate_grant ::
    "('hw, 'cfg, 'w, 'ss) SyscallDriver \<Rightarrow> nat \<Rightarrow> ('hw, 'cfg, 'w, 'ss) System \<Rightarrow>
      (AllocResult \<times> ('hw, 'cfg, 'w, 'ss) System) option" where
  "try_allocate_grant driver i sys = do {
     let before_count = allocated_count i sys;
     p \<leftarrow> slot i sys;
     (r, sys) \<leftarrow> drv_allocate_grant driver (process_id p) sys;
     (case r of
        Inr _ \<Rightarrow> Some (if before_count = allocated_count i sys then SameAllocation else NewAllocation, sys)
      | Inl _ \<Rightarrow> Some (NoAllocation, sys))
   }"

text \<open>Running a method of the calling process that returns nothing.\<close>

definition run_proc ::
    "nat \<Rightarrow> (('cfg, 'ss) ProcessStandard \<Rightarrow> ('hw, 'w) Machine \<Rightarrow> (('cfg, 'ss) ProcessStandard \<times> ('hw, 'w) Machine) option) \<Rightarrow>
      ('hw, 'cfg, 'w, 'ss) System \<Rightarrow> ('hw, 'cfg, 'w, 'ss) System option" where
  "run_proc i f sys = do {
     (_, sys) \<leftarrow> on_proc i (\<lambda>p mc. do { (p, mc) \<leftarrow> f p mc; Some ((), p, mc) }) sys;
     Some sys
   }"

definition return_value ::
    "('hw, 'cfg, 'w, 'ss) Chip \<Rightarrow> nat \<Rightarrow> SyscallReturn \<Rightarrow> ('hw, 'cfg, 'w, 'ss) System \<Rightarrow> ('hw, 'cfg, 'w, 'ss) System option" where
  "return_value chip i v sys = run_proc i (proc_set_syscall_return_value chip v) sys"

definition do_subscribe ::
    "nat \<Rightarrow> Upcall \<Rightarrow> ('hw, 'cfg, 'w, 'ss) System \<Rightarrow>
      (((Upcall \<times> ErrorCode) + Upcall) \<times> ('hw, 'cfg, 'w, 'ss) System) option" where
  "do_subscribe i upcall sys =
     on_proc i (\<lambda>p mc. let (r, p, m) = grant_subscribe upcall p (memory mc) in Some (r, p, mc\<lparr>memory := m\<rparr>)) sys"

definition do_allow_rw ::
    "nat \<Rightarrow> usize \<Rightarrow> usize \<Rightarrow> ProcessBuffer \<Rightarrow> ('hw, 'cfg, 'w, 'ss) System \<Rightarrow>
      (((ProcessBuffer \<times> ErrorCode) + ProcessBuffer) \<times> ('hw, 'cfg, 'w, 'ss) System) option" where
  "do_allow_rw i driver_num num b sys =
     on_proc i (\<lambda>p mc. let (r, p, m) = grant_allow_rw driver_num num b p (memory mc) in Some (r, p, mc\<lparr>memory := m\<rparr>)) sys"

definition do_allow_ro ::
    "nat \<Rightarrow> usize \<Rightarrow> usize \<Rightarrow> ProcessBuffer \<Rightarrow> ('hw, 'cfg, 'w, 'ss) System \<Rightarrow>
      (((ProcessBuffer \<times> ErrorCode) + ProcessBuffer) \<times> ('hw, 'cfg, 'w, 'ss) System) option" where
  "do_allow_ro i driver_num num b sys =
     on_proc i (\<lambda>p mc. let (r, p, m) = grant_allow_ro driver_num num b p (memory mc) in Some (r, p, mc\<lparr>memory := m\<rparr>)) sys"

text \<open>
  The three calls that store something in a grant share one shape: try the operation on the grant; if
  it fails for want of memory, let the driver allocate its grant and, when it did, try once more.
\<close>

definition with_grant_allocation ::
    "('hw, 'cfg, 'w, 'ss) SyscallDriver \<Rightarrow> nat \<Rightarrow>
      ('a \<Rightarrow> ('hw, 'cfg, 'w, 'ss) System \<Rightarrow> ((('a \<times> ErrorCode) + 'a) \<times> ('hw, 'cfg, 'w, 'ss) System) option) \<Rightarrow>
      'a \<Rightarrow> ('hw, 'cfg, 'w, 'ss) System \<Rightarrow> ((('a \<times> ErrorCode) + 'a) \<times> ('hw, 'cfg, 'w, 'ss) System) option" where
  "with_grant_allocation driver i f x sys = do {
     (r, sys) \<leftarrow> f x sys;
     (case r of
        Inr y \<Rightarrow> Some (Inr y, sys)
      | Inl (y, err) \<Rightarrow>
          if err = NOMEM then do {
            (a, sys) \<leftarrow> try_allocate_grant driver i sys;
            (case a of
               NewAllocation \<Rightarrow> f y sys
             | _ \<Rightarrow> Some (Inl (y, err), sys))
          }
          else Some (Inl (y, err), sys))
   }"

definition handle_subscribe ::
    "('hw, 'cfg, 'w, 'ss) Chip \<Rightarrow> ('hw, 'cfg, 'w, 'ss) SyscallDriver option \<Rightarrow> nat \<Rightarrow> usize \<Rightarrow> usize \<Rightarrow> usize \<Rightarrow> usize \<Rightarrow>
      ('hw, 'cfg, 'w, 'ss) System \<Rightarrow> ('hw, 'cfg, 'w, 'ss) System option" where
  "handle_subscribe chip driver i drv_num sub_num fn_ptr data sys = do {
     p \<leftarrow> slot i sys;
     let uid = \<lparr>upcall_driver_num = drv_num, subscribe_num = sub_num\<rparr>;
     let ptr = NonNull_new fn_ptr;
     let upcall = Upcall_new (process_id p) uid data ptr;
     rval1 \<leftarrow> (case ptr of
         None \<Rightarrow> Some None
       | Some upcall_ptr_nonnull \<Rightarrow> do {
           valid \<leftarrow> is_valid_upcall_function_pointer upcall_ptr_nonnull p;
           Some (if \<not> valid then Some INVAL else None)
         });
     (rval, sys) \<leftarrow> (case rval1 of
         Some err \<Rightarrow> Some (into_subscribe_failure upcall err, sys)
       | None \<Rightarrow>
           (case driver of
              Some d \<Rightarrow> do {
                (r, sys) \<leftarrow> with_grant_allocation d i (do_subscribe i) upcall sys;
                (case r of
                   Inr u \<Rightarrow> Some (into_subscribe_success u, sys)
                 | Inl (u, err) \<Rightarrow> Some (into_subscribe_failure u err, sys))
              }
            | None \<Rightarrow> Some (into_subscribe_failure upcall NODEVICE, sys)));
     sys \<leftarrow> (if is_success rval then run_proc i (\<lambda>p mc. do { p \<leftarrow> remove_pending_upcalls uid p; Some (p, mc) }) sys
             else Some sys);
     return_value chip i rval sys
   }"

definition handle_command ::
    "('hw, 'cfg, 'w, 'ss) Chip \<Rightarrow> ('hw, 'cfg, 'w, 'ss) SyscallDriver option \<Rightarrow> nat \<Rightarrow> usize \<Rightarrow> usize \<Rightarrow> usize \<Rightarrow>
      ('hw, 'cfg, 'w, 'ss) System \<Rightarrow> ('hw, 'cfg, 'w, 'ss) System option" where
  "handle_command chip driver i sub_num a0 a1 sys = do {
     p \<leftarrow> slot i sys;
     (cres, sys) \<leftarrow> (case driver of
         Some d \<Rightarrow> drv_command d sub_num a0 a1 (process_id p) sys
       | None \<Rightarrow> Some (CommandReturn_failure NODEVICE, sys));
     return_value chip i (into_inner cres) sys
   }"

definition handle_rw_allow ::
    "('hw, 'cfg, 'w, 'ss) Chip \<Rightarrow> ('hw, 'cfg, 'w, 'ss) SyscallDriver option \<Rightarrow> nat \<Rightarrow> usize \<Rightarrow> usize \<Rightarrow> usize \<Rightarrow> usize \<Rightarrow>
      ('hw, 'cfg, 'w, 'ss) System \<Rightarrow> ('hw, 'cfg, 'w, 'ss) System option" where
  "handle_rw_allow chip driver i drv_num sub_num addr len sys = do {
     (res, sys) \<leftarrow> (case driver of
         Some d \<Rightarrow> do {
           (b, sys) \<leftarrow> on_proc i (\<lambda>p mc. let (r, p) = build_readwrite_process_buffer addr len p
                                          in Some (r, p, mc)) sys;
           (case b of
              Inr rw_pbuf \<Rightarrow> do {
                (r, sys) \<leftarrow> with_grant_allocation d i (do_allow_rw i drv_num sub_num) rw_pbuf sys;
                (case r of
                   Inr old \<Rightarrow> Some (AllowReadWriteSuccess (buf_ptr old) (buf_len old), sys)
                 | Inl (new, err) \<Rightarrow> Some (AllowReadWriteFailure err (buf_ptr new) (buf_len new), sys))
              }
            | Inl allow_error \<Rightarrow> Some (AllowReadWriteFailure allow_error addr len, sys))
         }
       | None \<Rightarrow> Some (AllowReadWriteFailure NODEVICE addr len, sys));
     return_value chip i res sys
   }"

definition handle_userspace_readable_allow ::
    "('hw, 'cfg, 'w, 'ss) Chip \<Rightarrow> ('hw, 'cfg, 'w, 'ss) SyscallDriver option \<Rightarrow> nat \<Rightarrow> usize \<Rightarrow> usize \<Rightarrow> usize \<Rightarrow>
      ('hw, 'cfg, 'w, 'ss) System \<Rightarrow> ('hw, 'cfg, 'w, 'ss) System option" where
  "handle_userspace_readable_allow chip driver i sub_num addr len sys = do {
     (res, sys) \<leftarrow> (case driver of
         Some d \<Rightarrow> do {
           (b, sys) \<leftarrow> on_proc i (\<lambda>p mc. let (r, p) = build_readwrite_process_buffer addr len p
                                          in Some (r, p, mc)) sys;
           (case b of
              Inr rw_pbuf \<Rightarrow> do {
                p \<leftarrow> slot i sys;
                (r, sys) \<leftarrow> drv_allow_userspace_readable d (process_id p) sub_num rw_pbuf sys;
                (case r of
                   Inr old \<Rightarrow> Some (UserspaceReadableAllowSuccess (buf_ptr old) (buf_len old), sys)
                 | Inl (new, err) \<Rightarrow> Some (UserspaceReadableAllowFailure err (buf_ptr new) (buf_len new), sys))
              }
            | Inl allow_error \<Rightarrow> Some (UserspaceReadableAllowFailure allow_error addr len, sys))
         }
       | None \<Rightarrow> Some (UserspaceReadableAllowFailure NODEVICE addr len, sys));
     return_value chip i res sys
   }"

definition handle_ro_allow ::
    "('hw, 'cfg, 'w, 'ss) Chip \<Rightarrow> ('hw, 'cfg, 'w, 'ss) SyscallDriver option \<Rightarrow> nat \<Rightarrow> usize \<Rightarrow> usize \<Rightarrow> usize \<Rightarrow> usize \<Rightarrow>
      ('hw, 'cfg, 'w, 'ss) System \<Rightarrow> ('hw, 'cfg, 'w, 'ss) System option" where
  "handle_ro_allow chip driver i drv_num sub_num addr len sys = do {
     (res, sys) \<leftarrow> (case driver of
         Some d \<Rightarrow> do {
           (b, sys) \<leftarrow> on_proc i (\<lambda>p mc. do {
               (r, p) \<leftarrow> build_readonly_process_buffer addr len p; Some (r, p, mc) }) sys;
           (case b of
              Inr ro_pbuf \<Rightarrow> do {
                (r, sys) \<leftarrow> with_grant_allocation d i (do_allow_ro i drv_num sub_num) ro_pbuf sys;
                (case r of
                   Inr old \<Rightarrow> Some (AllowReadOnlySuccess (buf_ptr old) (buf_len old), sys)
                 | Inl (new, err) \<Rightarrow> Some (AllowReadOnlyFailure err (buf_ptr new) (buf_len new), sys))
              }
            | Inl allow_error \<Rightarrow> Some (AllowReadOnlyFailure allow_error addr len, sys))
         }
       | None \<Rightarrow> Some (AllowReadOnlyFailure NODEVICE addr len, sys));
     return_value chip i res sys
   }"

definition handle_memop ::
    "('hw, 'cfg, 'w, 'ss) Chip \<Rightarrow> nat \<Rightarrow> usize \<Rightarrow> usize \<Rightarrow> ('hw, 'cfg, 'w, 'ss) System \<Rightarrow>
      ('hw, 'cfg, 'w, 'ss) System option" where
  "handle_memop chip i op a0 sys = do {
     (rval, sys) \<leftarrow> on_proc i (memop chip op a0) sys;
     return_value chip i rval sys
   }"

definition handle_yield ::
    "nat \<Rightarrow> usize \<Rightarrow> usize \<Rightarrow> ('hw, 'cfg, 'w, 'ss) System \<Rightarrow> ('hw, 'cfg, 'w, 'ss) System option" where
  "handle_yield i w a sys =
     (if w > 1 then Some sys
      else do {
        p \<leftarrow> slot i sys;
        let wait = (w = 1);
        let return_now = (\<not> wait \<and> \<not> has_tasks p);
        if return_now then run_proc i (\<lambda>p mc. let (_, mc) = set_byte a 0 p mc in Some (p, mc)) sys
        else run_proc i (\<lambda>p mc. let (_, mc) = set_byte a 1 p mc in Some (set_yielded_state p, mc)) sys
      })"

definition handle_exit ::
    "('hw, 'cfg, 'w, 'ss) Chip \<Rightarrow> nat \<Rightarrow> usize \<Rightarrow> usize \<Rightarrow> ('hw, 'cfg, 'w, 'ss) System \<Rightarrow>
      ('hw, 'cfg, 'w, 'ss) System option" where
  "handle_exit chip i w code sys =
     (if w = 0 then run_proc i (\<lambda>p mc. Some (terminate (Some code) p, mc)) sys
      else if w = 1 then run_proc i (try_restart chip (Some code)) sys
      else return_value chip i (Failure NOSUPPORT) sys)"

fun filterable :: "Syscall \<Rightarrow> bool" where
  "filterable (Yield w a) = False"
| "filterable (Exit w code) = False"
| "filterable (Memop op a0) = False"
| "filterable s = True"

fun serve ::
    "('hw, 'cfg, 'w, 'ss) Chip \<Rightarrow> (usize \<Rightarrow> ('hw, 'cfg, 'w, 'ss) SyscallDriver option) \<Rightarrow> nat \<Rightarrow> Syscall \<Rightarrow>
      ('hw, 'cfg, 'w, 'ss) System \<Rightarrow> ('hw, 'cfg, 'w, 'ss) System option" where
  "serve chip drivers i (Memop op a0) sys = handle_memop chip i op a0 sys"
| "serve chip drivers i (Yield w a) sys = handle_yield i w a sys"
| "serve chip drivers i (Subscribe d s ptr data) sys = handle_subscribe chip (drivers d) i d s ptr data sys"
| "serve chip drivers i (Command d s a b) sys = handle_command chip (drivers d) i s a b sys"
| "serve chip drivers i (ReadWriteAllow d s a n) sys = handle_rw_allow chip (drivers d) i d s a n sys"
| "serve chip drivers i (UserspaceReadableAllow d s a n) sys = handle_userspace_readable_allow chip (drivers d) i s a n sys"
| "serve chip drivers i (ReadOnlyAllow d s a n) sys = handle_ro_allow chip (drivers d) i d s a n sys"
| "serve chip drivers i (Exit w code) sys = handle_exit chip i w code sys"

definition handle_syscall ::
    "('hw, 'cfg, 'w, 'ss) Chip \<Rightarrow> (usize \<Rightarrow> ('hw, 'cfg, 'w, 'ss) SyscallDriver option) \<Rightarrow>
      (('cfg, 'ss) ProcessStandard \<Rightarrow> Syscall \<Rightarrow> ErrorCode + unit) \<Rightarrow> nat \<Rightarrow> Syscall \<Rightarrow>
      ('hw, 'cfg, 'w, 'ss) System \<Rightarrow> ('hw, 'cfg, 'w, 'ss) System option" where
  "handle_syscall chip drivers filter_syscall i syscall sys = do {
     sys \<leftarrow> run_proc i (\<lambda>p mc. do { p \<leftarrow> debug_syscall_called syscall p; Some (p, mc) }) sys;
     p \<leftarrow> slot i sys;
     (case (if filterable syscall then filter_syscall p syscall else Inr ()) of
        Inl response \<Rightarrow> return_value chip i (Failure response) sys
      | Inr _ \<Rightarrow> serve chip drivers i syscall sys)
   }"

section \<open>The dispatcher does what process methods do\<close>

lemma put_proc_put [simp]: "put_proc i q (put_proc i p sys) = put_proc i q sys"
  by (simp add: put_proc_def)

lemma put_proc_machine [simp]: "put_proc i p (sys\<lparr>machine := mc\<rparr>) = (put_proc i p sys)\<lparr>machine := mc\<rparr>"
  by (simp add: put_proc_def)

lemma put_proc_same: "slot i sys = Some p \<Longrightarrow> put_proc i p sys = sys"
  by (auto simp: put_proc_def slot_def slice_get_def bind_eq_Some_conv list_update_same_conv split: if_splits)

lemma proc_steps_sys:
  assumes "proc_steps chip (p, machine sys) (p', mc')" "slot i sys = Some p"
  shows "sys_steps chip sys ((put_proc i p' sys)\<lparr>machine := mc'\<rparr>)"
  using assms(1)
proof (induction rule: rtranclp_induct2)
  case refl
  then show ?case using put_proc_same [OF assms(2)] by simp
next
  case (step q mc q' mc'')
  let ?sys = "(put_proc i q sys)\<lparr>machine := mc\<rparr>"
  have "slot i ?sys = Some q" using slot_less [OF assms(2)] by simp
  from sys_proc [OF this, of chip q' mc''] step.hyps(2)
  have "sys_step chip ?sys ((put_proc i q' sys)\<lparr>machine := mc''\<rparr>)" by simp
  with step.IH show ?case by (rule rtranclp.rtrancl_into_rtrancl)
qed

lemma on_proc_steps:
  assumes "on_proc i f sys = Some (r, sys')"
    and "\<And>p mc p' mc' r. f p mc = Some (r, p', mc') \<Longrightarrow> proc_steps chip (p, mc) (p', mc')"
  shows "sys_steps chip sys sys'"
proof -
  obtain p p' mc' where *: "slot i sys = Some p" "f p (machine sys) = Some (r, p', mc')"
    "sys' = (put_proc i p' sys)\<lparr>machine := mc'\<rparr>"
    using assms(1) by (rule on_procE)
  show ?thesis unfolding *(3) by (rule proc_steps_sys [OF assms(2) [OF *(2)] *(1)])
qed

lemma on_proc_memory:
  assumes "on_proc i f sys = Some (r, sys')"
    and "\<And>p mc p' mc' r. f p mc = Some (r, p', mc') \<Longrightarrow> p' = p \<and> (\<exists>m. mc' = mc\<lparr>memory := m\<rparr>)"
  shows "\<exists>m. sys' = sys\<lparr>machine := (machine sys)\<lparr>memory := m\<rparr>\<rparr>"
proof -
  obtain p p' mc' where *: "slot i sys = Some p" "f p (machine sys) = Some (r, p', mc')"
    "sys' = (put_proc i p' sys)\<lparr>machine := mc'\<rparr>"
    using assms(1) by (rule on_procE)
  then show ?thesis using assms(2) [OF *(2)] put_proc_same [OF *(1)] by auto
qed

lemma memory_step:
  fixes sys :: "('hw, 'cfg, 'w, 'ss) System"
  shows "sys_steps chip sys (sys\<lparr>machine := (machine sys)\<lparr>memory := m\<rparr>\<rparr>)"
proof -
  have "(machine sys)\<lparr>mpu_hw := mpu_hw (machine sys), memory := m, world := world (machine sys)\<rparr> = (machine sys)\<lparr>memory := m\<rparr>"
    by simp
  then show ?thesis using sys_outside [of chip sys "world (machine sys)" m "mpu_hw (machine sys)"] by auto
qed

lemma run_proc_steps:
  assumes "run_proc i f sys = Some sys'"
    and "\<And>p mc p' mc'. f p mc = Some (p', mc') \<Longrightarrow> proc_steps chip (p, mc) (p', mc')"
  shows "sys_steps chip sys sys'"
proof -
  obtain u where "on_proc i (\<lambda>p mc. do { (p, mc) \<leftarrow> f p mc; Some ((), p, mc) }) sys = Some (u, sys')"
    using assms(1) by (auto simp: run_proc_def bind_eq_Some_conv)
  then show ?thesis by (rule on_proc_steps) (auto simp: bind_eq_Some_conv assms(2))
qed

lemma run_procE:
  assumes "run_proc i f sys = Some sys'"
  obtains p p' mc' where "slot i sys = Some p" "f p (machine sys) = Some (p', mc')"
    "sys' = (put_proc i p' sys)\<lparr>machine := mc'\<rparr>"
  using assms by (auto simp: run_proc_def bind_eq_Some_conv elim!: on_procE)

lemma return_value_steps: "return_value chip i v sys = Some sys' \<Longrightarrow> sys_steps chip sys sys'"
  unfolding return_value_def by (erule run_proc_steps) (blast intro: step_set_return)

lemma grant_calls_process:
  "grant_subscribe u p m = (r, p', m') \<Longrightarrow> p' = p"
  "grant_allow_rw d n b p m = (r', p', m') \<Longrightarrow> p' = p"
  "grant_allow_ro d n b p m = (r', p', m') \<Longrightarrow> p' = p"
  by (erule grant_subscribe_cases grant_allow_rw_cases grant_allow_ro_cases; simp)+

lemma grant_calls_memory:
  "do_subscribe i u sys = Some (r, sys') \<Longrightarrow> \<exists>m. sys' = sys\<lparr>machine := (machine sys)\<lparr>memory := m\<rparr>\<rparr>"
  "do_allow_rw i d n b sys = Some (r', sys') \<Longrightarrow> \<exists>m. sys' = sys\<lparr>machine := (machine sys)\<lparr>memory := m\<rparr>\<rparr>"
  "do_allow_ro i d n b sys = Some (r', sys') \<Longrightarrow> \<exists>m. sys' = sys\<lparr>machine := (machine sys)\<lparr>memory := m\<rparr>\<rparr>"
  unfolding do_subscribe_def do_allow_rw_def do_allow_ro_def
  by (erule on_proc_memory, auto dest: grant_calls_process split: prod.splits)+

lemma grant_calls_steps:
  "do_subscribe i u sys = Some (r, sys') \<Longrightarrow> sys_steps chip sys sys'"
  "do_allow_rw i d n b sys = Some (r', sys') \<Longrightarrow> sys_steps chip sys sys'"
  "do_allow_ro i d n b sys = Some (r', sys') \<Longrightarrow> sys_steps chip sys sys'"
  using memory_step by (blast dest: grant_calls_memory)+

lemma case_AllocResult_SomeE:
  assumes "(case a of NoAllocation \<Rightarrow> x | NewAllocation \<Rightarrow> y | SameAllocation \<Rightarrow> z) = Some r"
  obtains "a = NoAllocation" "x = Some r" | "a = NewAllocation" "y = Some r" | "a = SameAllocation" "z = Some r"
  using assms by (cases a) auto

lemma on_proc_build_steps:
  "on_proc i (\<lambda>p mc. case build_readwrite_process_buffer a n p of (r, p) \<Rightarrow> Some (r, p, mc)) sys = Some (b, sys') \<Longrightarrow>
     sys_steps chip sys sys'"
  "on_proc i (\<lambda>p mc. do { (r, p) \<leftarrow> build_readonly_process_buffer a n p; Some (r, p, mc) }) sys = Some (b, sys') \<Longrightarrow>
     sys_steps chip sys sys'"
  by (erule on_proc_steps, force simp: bind_eq_Some_conv split: prod.splits intro: step_allow_rw step_allow_ro)+

lemma remove_upcalls_steps:
  "run_proc i (\<lambda>p mc. do { p \<leftarrow> remove_pending_upcalls u p; Some (p, mc) }) sys = Some sys' \<Longrightarrow> sys_steps chip sys sys'"
  by (erule run_proc_steps) (auto simp: bind_eq_Some_conv intro: step_remove_upcalls)

lemma debug_call_steps:
  "run_proc i (\<lambda>p mc. do { p \<leftarrow> debug_syscall_called c p; Some (p, mc) }) sys = Some sys' \<Longrightarrow> sys_steps chip sys sys'"
  by (erule run_proc_steps) (auto simp: bind_eq_Some_conv intro: step_syscall)

lemma handle_memop_steps: "handle_memop chip i t a sys = Some sys' \<Longrightarrow> sys_steps chip sys sys'"
  unfolding handle_memop_def
  by (auto simp: bind_eq_Some_conv intro: rtranclp_trans [OF on_proc_steps return_value_steps] memop_steps)

lemma set_byte_yield_steps:
  "proc_steps chip (p, mc) (set_yielded_state p, snd (set_byte a v p mc))" "proc_steps chip (p, mc) (p, snd (set_byte a v p mc))"
proof -
  have "proc_step chip (p, mc) (p, snd (set_byte a v p mc))"
    by (rule step_set_byte [of a v p mc "fst (set_byte a v p mc)"]) simp
  then show "proc_steps chip (p, mc) (p, snd (set_byte a v p mc))"
    "proc_steps chip (p, mc) (set_yielded_state p, snd (set_byte a v p mc))"
    using step_yield [of chip p "snd (set_byte a v p mc)"] by (blast intro: rtranclp.rtrancl_into_rtrancl)+
qed

lemma handle_yield_steps: "handle_yield i w a sys = Some sys' \<Longrightarrow> sys_steps chip sys sys'"
  unfolding handle_yield_def Let_def
  by (auto simp: bind_eq_Some_conv case_prod_beta' split: if_splits elim!: run_proc_steps intro: set_byte_yield_steps)

lemma handle_exit_steps: "handle_exit chip i w c sys = Some sys' \<Longrightarrow> sys_steps chip sys sys'"
  unfolding handle_exit_def
  by (auto split: if_splits elim!: run_proc_steps intro: return_value_steps step_terminate step_restart)

text \<open>
  From a consistent system a computation \<open>runs\<close> when it is made of steps and so leaves the system
  consistent.
\<close>

definition sys_runs ::
    "('hw, 'cfg, 'w, 'ss) Chip \<Rightarrow> ('hw, 'cfg, 'w, 'ss) System \<Rightarrow> ('hw, 'cfg, 'w, 'ss) System \<Rightarrow> bool" where
  "sys_runs chip sys sys' \<longleftrightarrow> (sys_ok sys \<longrightarrow> sys_steps chip sys sys' \<and> sys_ok sys')"

lemma sys_runs_refl [simp, intro]: "sys_runs chip sys sys"
  by (simp add: sys_runs_def)

lemma sys_runs_trans [trans]: "sys_runs chip a b \<Longrightarrow> sys_runs chip b c \<Longrightarrow> sys_runs chip a c"
  by (auto simp: sys_runs_def)

context mpu_contract
begin

lemma steps_runs: "sys_steps chip sys sys' \<Longrightarrow> mpu chip = M \<Longrightarrow> sys_runs chip sys sys'"
  using sys_steps_ok [of chip sys sys'] by (auto simp: sys_runs_def)

end

text \<open>
  What the dispatcher relies on of the drivers of a platform: from a consistent system each method of a
  driver only calls methods of processes and changes memory, the device registers and its own state.
\<close>

locale driver_table = mpu_contract M for M :: "('hw, 'cfg) MPU" +
  fixes chip :: "('hw, 'cfg, 'w, 'ss) Chip" and drivers :: "usize \<Rightarrow> ('hw, 'cfg, 'w, 'ss) SyscallDriver option"
  assumes chip_mpu: "mpu chip = M"
    and command_runs:
      "drivers n = Some d \<Longrightarrow> drv_command d c a b pid sys = Some (r, sys') \<Longrightarrow> sys_runs chip sys sys'"
    and allow_runs:
      "drivers n = Some d \<Longrightarrow> drv_allow_userspace_readable d pid k buf sys = Some (r', sys') \<Longrightarrow> sys_runs chip sys sys'"
    and allocate_runs:
      "drivers n = Some d \<Longrightarrow> drv_allocate_grant d pid sys = Some (r'', sys') \<Longrightarrow> sys_runs chip sys sys'"
begin

lemma runs_of_steps: "sys_steps chip sys sys' \<Longrightarrow> sys_runs chip sys sys'"
  by (rule steps_runs [OF _ chip_mpu])

lemmas return_runs = return_value_steps [THEN runs_of_steps]

lemmas build_runs = on_proc_build_steps [THEN runs_of_steps]

lemmas base_runs =
  grant_calls_steps [THEN runs_of_steps] remove_upcalls_steps [THEN runs_of_steps] debug_call_steps [THEN runs_of_steps]
  handle_memop_steps [THEN runs_of_steps] handle_yield_steps [THEN runs_of_steps] handle_exit_steps [THEN runs_of_steps]

lemma try_allocate_runs:
  "try_allocate_grant d i sys = Some (r, sys') \<Longrightarrow> drivers n = Some d \<Longrightarrow> sys_runs chip sys sys'"
  unfolding try_allocate_grant_def Let_def by (elim monad_elims) (auto dest: allocate_runs)

lemma with_grant_runs:
  assumes "with_grant_allocation d i f x sys = Some (r, sys')" "drivers n = Some d"
    and f: "\<And>x sys r sys'. f x sys = Some (r, sys') \<Longrightarrow> sys_runs chip sys sys'"
  shows "sys_runs chip sys sys'"
proof -
  obtain r1 sys1 where 1: "f x sys = Some (r1, sys1)" and
    "sys' = sys1 \<or> (\<exists>y e a sys2. try_allocate_grant d i sys1 = Some (a, sys2) \<and> (sys' = sys2 \<or> f y sys2 = Some (r, sys')))"
    using assms(1) unfolding with_grant_allocation_def by (elim monad_elims case_AllocResult_SomeE) auto
  then have "sys_runs chip sys1 sys'"
    by (blast intro: sys_runs_trans f try_allocate_runs [OF _ assms(2)])
  with f [OF 1] show ?thesis by (rule sys_runs_trans)
qed

lemma grant_call_runs:
  "with_grant_allocation d i (do_subscribe i) u sys = Some (r, sys') \<Longrightarrow> drivers n = Some d \<Longrightarrow> sys_runs chip sys sys'"
  "with_grant_allocation d i (do_allow_rw i dn k) b sys = Some (r', sys') \<Longrightarrow> drivers n = Some d \<Longrightarrow> sys_runs chip sys sys'"
  "with_grant_allocation d i (do_allow_ro i dn k) b sys = Some (r', sys') \<Longrightarrow> drivers n = Some d \<Longrightarrow> sys_runs chip sys sys'"
  by (erule with_grant_runs, assumption, erule base_runs)+

lemma handle_subscribe_runs:
  assumes "handle_subscribe chip (drivers n) i dn k f a sys = Some sys'"
  shows "sys_runs chip sys sys'"
proof -
  obtain v sys1 sys2 where "sys_runs chip sys sys1" "sys2 = sys1 \<or>
      run_proc i (\<lambda>p mc. do { p \<leftarrow> remove_pending_upcalls \<lparr>upcall_driver_num = dn, subscribe_num = k\<rparr> p; Some (p, mc) }) sys1 = Some sys2"
    "return_value chip i v sys2 = Some sys'"
    using assms unfolding handle_subscribe_def Let_def
    by (elim monad_elims) (auto dest: grant_call_runs)
  moreover from this(2) have "sys_runs chip sys1 sys2" by (auto dest: base_runs)
  ultimately show ?thesis by (meson return_runs sys_runs_trans)
qed

lemma handle_command_runs:
  "handle_command chip (drivers n) i k a b sys = Some sys' \<Longrightarrow> sys_runs chip sys sys'"
  unfolding handle_command_def
  by (elim monad_elims) (auto intro: sys_runs_trans [OF command_runs return_runs] return_runs)

lemma handle_rw_allow_runs:
  assumes "handle_rw_allow chip (drivers n) i dn k a len sys = Some sys'"
  shows "sys_runs chip sys sys'"
proof -
  obtain v sys1 where "sys_runs chip sys sys1" "return_value chip i v sys1 = Some sys'"
    using assms unfolding handle_rw_allow_def Let_def
    by (elim monad_elims) (auto dest!: build_runs dest: grant_call_runs intro: sys_runs_trans)
  then show ?thesis by (meson return_runs sys_runs_trans)
qed

lemma handle_userspace_readable_allow_runs:
  assumes "handle_userspace_readable_allow chip (drivers n) i k a len sys = Some sys'"
  shows "sys_runs chip sys sys'"
proof -
  obtain v sys1 where "sys_runs chip sys sys1" "return_value chip i v sys1 = Some sys'"
    using assms unfolding handle_userspace_readable_allow_def Let_def
    by (elim monad_elims) (auto dest!: build_runs dest: allow_runs intro: sys_runs_trans)
  then show ?thesis by (meson return_runs sys_runs_trans)
qed

lemma handle_ro_allow_runs:
  assumes "handle_ro_allow chip (drivers n) i dn k a len sys = Some sys'"
  shows "sys_runs chip sys sys'"
proof -
  obtain v sys1 where "sys_runs chip sys sys1" "return_value chip i v sys1 = Some sys'"
    using assms unfolding handle_ro_allow_def Let_def
    by (elim monad_elims) (auto dest!: build_runs dest: grant_call_runs intro: sys_runs_trans)
  then show ?thesis by (meson return_runs sys_runs_trans)
qed

lemma serve_runs: "serve chip drivers i s sys = Some sys' \<Longrightarrow> sys_runs chip sys sys'"
  by (cases s) (simp_all add: base_runs handle_subscribe_runs handle_command_runs
      handle_rw_allow_runs handle_userspace_readable_allow_runs handle_ro_allow_runs)

lemma handle_syscall_runs:
  assumes "handle_syscall chip drivers filt i s sys = Some sys'"
  shows "sys_runs chip sys sys'"
proof -
  obtain sys1 where 1: "run_proc i (\<lambda>p mc. do { p \<leftarrow> debug_syscall_called s p; Some (p, mc) }) sys = Some sys1"
    and 2: "(\<exists>v. return_value chip i v sys1 = Some sys') \<or> serve chip drivers i s sys1 = Some sys'"
    using assms unfolding handle_syscall_def by (elim monad_elims) auto
  from 2 have "sys_runs chip sys1 sys'" using return_runs serve_runs by blast
  with base_runs(5) [OF 1] show ?thesis by (rule sys_runs_trans)
qed

end

end
