(* ===== verification/DispatchSpec.thy ===== *)
theory DispatchSpec
  imports Dispatch CortexM_Syscall
begin

text \<open>
  What a system call does, from the registers of the caller to the registers it finds on return, on
  the Cortex-M boundary. \<open>can_return\<close> says that the caller's stack pointer is in its memory, which is
  what the boundary needs to write the result. The tables of a grant are read with \<open>view\<close>.
\<close>

definition can_return ::
    "nat \<Rightarrow> ('cfg, CortexMStoredState) ProcessStandard \<Rightarrow> CortexMStoredState \<Rightarrow> ('hw, 'cfg, 'w, CortexMStoredState) System \<Rightarrow> bool" where
  "can_return i p st sys \<longleftrightarrow>
     slot i sys = Some p \<and> stored_state p = Some st \<and> sp_valid (memory_start p) (app_break p) (psp st) \<and> app_break p \<noteq> - 1"

text \<open>The result registers in the frame of the caller.\<close>

definition result_of :: "CortexMStoredState \<Rightarrow> ('hw, 'cfg, 'w, CortexMStoredState) System \<Rightarrow> SyscallReturn option" where
  "result_of st sys = abi_decode (frame_regs (psp st) (memory (machine sys)))"

lemma return_value_ok:
  assumes "can_return i p st sys" "ukb chip = cortexm_ukb sw"
  shows "\<exists>m'. return_value chip i v sys = Some (sys\<lparr>machine := (machine sys)\<lparr>memory := m'\<rparr>\<rparr>) \<and>
    abi_decode (frame_regs (psp st) m') = Some (abi_view v) \<and>
    same_outside (memory_start p) (app_break p) (memory (machine sys)) m'"
proof -
  have p: "slot i sys = Some p" "stored_state p = Some st" "sp_valid (memory_start p) (app_break p) (psp st)" "app_break p \<noteq> - 1"
    using assms(1) by (auto simp: can_return_def)
  obtain m' where m': "set_syscall_return_value (memory_start p) (app_break p) st v (memory (machine sys)) = Some (Inr (), st, m')"
    "abi_decode (frame_regs (psp st) m') = Some (abi_view v)"
    using set_syscall_return_value_ok [OF p(3)] by blast
  have "p\<lparr>stored_state := Some st\<rparr> = p" using p(2) by simp
  then have "proc_set_syscall_return_value chip v p (machine sys) = Some (p, (machine sys)\<lparr>memory := m'\<rparr>)"
    using p(2) m'(1) assms(2) by (simp add: proc_set_syscall_return_value_def cortexm_ukb_def mem_start_def)
  then have "return_value chip i v sys = Some (sys\<lparr>machine := (machine sys)\<lparr>memory := m'\<rparr>\<rparr>)"
    using p(1) put_proc_same [OF p(1)] by (simp add: return_value_def run_proc_def on_proc_def)
  then show ?thesis using m'(2) set_syscall_return_value_frame [OF m'(1) p(4)] by blast
qed

lemma view_same_outside:
  assumes "same_outside lo hi m m'" "hi \<le> base" "fits m base" "k < 3"
  shows "view m' base k = view m base k"
proof (rule view_same [OF _ assms(3,4)])
  show "same_in (unat base) (grant_end m base) m m'"
    using assms(1,2) by (auto simp: same_in_def same_outside_def word_le_nat_alt word_less_nat_alt)
qed

lemma enter_managed_ok:
  assumes "driver_grant d p = Some base" "is_running p" "base \<noteq> 0" "base AND 1 \<noteq> 1"
  shows "\<exists>n p'. enter_grant_kernel_managed d p m = (Inr (read_from_base base n m), p')"
proof -
  obtain gs n where gs: "grant_pointers p = Some gs"
      "position (\<lambda>e. grant_ptr e \<noteq> 0 \<and> gp_driver_num e = d) gs = Some n" "lookup_grant_from_driver_num d p = Inr n"
    using assms(1) by (auto simp: driver_grant_def lookup_grant_from_driver_num_def split: option.splits)
  obtain e where e: "grant_get (of_nat n) p = Some e" "grant_ptr e = base"
    using assms(1) gs(3) by (auto simp: driver_grant_def)
  show ?thesis
    using e gs assms(2-4) by (auto simp: enter_grant_kernel_managed_def grant_is_allocated_def enter_grant_def Let_def)
qed

lemma subscribe_stores:
  assumes "driver_grant (upcall_driver_num (upcall_id u)) p = Some base" "is_running p" "base \<noteq> 0" "base AND 1 \<noteq> 1"
    "unat (subscribe_num (upcall_id u)) < count 0 m base"
  shows "grant_subscribe u p m =
    (Inr (Upcall_new (process_id p) (upcall_id u) (fst (view m base 0 ! unat (subscribe_num (upcall_id u))))
       (NonNull_new (snd (view m base 0 ! unat (subscribe_num (upcall_id u)))))), p,
     write_pair (entry (array_base 0 m base) (unat (subscribe_num (upcall_id u)))) (upcall_appdata u, null_or (upcall_fn_ptr u)) m)"
proof -
  obtain n p1 where "enter_grant_kernel_managed (upcall_driver_num (upcall_id u)) p m = (Inr (read_from_base base n m), p1)"
    using enter_managed_ok [OF assms(1-4)] by blast
  then have noerr: "fst (grant_subscribe u p m) \<noteq> Inl (u, e)" if "e \<in> {FAIL, NOMEM}" for e
    using that by (auto simp: grant_subscribe_def Let_def split: option.splits)
  obtain r p' m' where r: "grant_subscribe u p m = (r, p', m')" by (cases "grant_subscribe u p m") auto
  from this show ?thesis
  proof (cases rule: grant_subscribe_cases)
    case (stored base' i)
    then show ?thesis using r assms(1) by simp
  next
    case (error e)
    then show ?thesis using noerr [of e] r by simp
  next
    case (bad_number base')
    then show ?thesis using assms(1,5) by simp
  qed
qed

text \<open>
  Subscribing, end to end: the entry of the driver's table is swapped, no upcall with that identifier
  stays queued, and the caller finds the old upcall in its registers.
\<close>

lemma handle_subscribe_swaps:
  fixes sys :: "('hw, 'cfg, 'w, CortexMStoredState) System"
  assumes ok: "sys_ok sys" and ret: "can_return i p st sys" and chip: "ukb chip = cortexm_ukb sw"
    and grant: "driver_grant dn p = Some base" "is_running p" "base \<noteq> 0" "base AND 1 \<noteq> 1" "fits (memory (machine sys)) base"
      "unat k < length (view (memory (machine sys)) base 0)" "app_break p \<le> base"
    and ptr: "f = 0 \<or> is_valid_upcall_function_pointer f p = Some True"
  shows "\<exists>sys' p'. handle_subscribe chip (Some drv) i dn k f a sys = Some sys' \<and> slot i sys' = Some p' \<and>
    view (memory (machine sys')) base 0 = (view (memory (machine sys)) base 0)[unat k := (a, f)] \<and>
    queued p' = filter (keep_task \<lparr>upcall_driver_num = dn, subscribe_num = k\<rparr>) (queued p) \<and>
    result_of st sys' = (case view (memory (machine sys)) base 0 ! unat k of (old_data, old_fn) \<Rightarrow> Some (SuccessU32U32 old_fn old_data))"
proof -
  let ?m = "memory (machine sys)" and ?uid = "\<lparr>upcall_driver_num = dn, subscribe_num = k\<rparr>"
  let ?u = "Upcall_new (process_id p) ?uid a (NonNull_new f)"
  let ?old = "Upcall_new (process_id p) ?uid (fst (view ?m base 0 ! unat k)) (NonNull_new (snd (view ?m base 0 ! unat k)))"
  define m1 where "m1 = write_pair (entry (array_base 0 ?m base) (unat k)) (a, f) ?m"
  have slot: "slot i sys = Some p" using ret by (simp add: can_return_def)
  have sub: "grant_subscribe ?u p ?m = (Inr ?old, p, m1)"
    using subscribe_stores [of ?u p base ?m] grant by (simp add: Upcall_new_def m1_def)
  let ?sys1 = "sys\<lparr>machine := (machine sys)\<lparr>memory := m1\<rparr>\<rparr>"
  have s1: "with_grant_allocation drv i (do_subscribe i) ?u sys = Some (Inr ?old, ?sys1)"
    using slot put_proc_same [OF slot] sub by (simp add: with_grant_allocation_def do_subscribe_def on_proc_def)
  have q: "queue_ok p" using sys_okD(1) [OF ok slot] by (simp add: proc_ok_def)
  obtain p1 where p1: "remove_pending_upcalls ?uid p = Some p1" using remove_pending_upcalls_total [OF q] by blast
  let ?sys2 = "(put_proc i p1 sys)\<lparr>machine := (machine sys)\<lparr>memory := m1\<rparr>\<rparr>"
  have core: "quiet p p1" and st: "stored_state p1 = stored_state p"
    using remove_pending_upcalls_quiet [OF p1 q] p1
    by (auto simp: remove_pending_upcalls_def bind_eq_Some_conv split: option.splits)
  have s2: "run_proc i (\<lambda>p mc. do { p \<leftarrow> remove_pending_upcalls ?uid p; Some (p, mc) }) ?sys1 = Some ?sys2"
    using slot p1 by (simp add: run_proc_def on_proc_def)
  have ret2: "can_return i p1 st ?sys2"
    using ret core st slot_less [OF slot] by (auto simp: can_return_def quiet_def same_core_def)
  obtain m2 where m2: "return_value chip i (into_subscribe_success ?old) ?sys2 = Some (?sys2\<lparr>machine := (machine sys)\<lparr>memory := m2\<rparr>\<rparr>)"
    "abi_decode (frame_regs (psp st) m2) = Some (abi_view (into_subscribe_success ?old))"
    "same_outside (memory_start p1) (app_break p1) m1 m2"
    using return_value_ok [OF ret2 chip, of "into_subscribe_success ?old"] by auto
  have "handle_subscribe chip (Some drv) i dn k f a sys = Some (?sys2\<lparr>machine := (machine sys)\<lparr>memory := m2\<rparr>\<rparr>)"
    using slot ptr s1 s2 m2(1) by (auto simp: handle_subscribe_def Let_def NonNull_new_def)
  moreover have "view m2 base 0 = (view ?m base 0)[unat k := (a, f)]"
    using view_write [OF grant(5), of 0 "unat k" m1 "(a, f)"] view_same_outside [OF m2(3), of base 0] grant(6,7) core
    by (simp add: m1_def quiet_def same_core_def)
  moreover have "queued p1 = filter (keep_task ?uid) (queued p)" by (rule remove_pending_upcalls_queued [OF p1 q])
  ultimately show ?thesis
    using m2(2) slot_less [OF slot]
    by (intro exI [of _ "?sys2\<lparr>machine := (machine sys)\<lparr>memory := m2\<rparr>\<rparr>"] exI [of _ p1])
      (simp add: result_of_def into_subscribe_eq Upcall_new_def case_prod_beta)
qed

section \<open>Calls that reach no driver\<close>

text \<open>The answer to a call for a driver the platform does not have: the arguments come back.\<close>

fun nodevice_result :: "Syscall \<Rightarrow> SyscallReturn" where
  "nodevice_result (Subscribe d s f a) = SubscribeFailure NODEVICE f a"
| "nodevice_result (ReadWriteAllow d s a n) = AllowReadWriteFailure NODEVICE a n"
| "nodevice_result (UserspaceReadableAllow d s a n) = UserspaceReadableAllowFailure NODEVICE a n"
| "nodevice_result (ReadOnlyAllow d s a n) = AllowReadOnlyFailure NODEVICE a n"
| "nodevice_result s = Failure NODEVICE"

fun driver_of :: "Syscall \<Rightarrow> usize option" where
  "driver_of (Subscribe d s f a) = Some d"
| "driver_of (Command d s a b) = Some d"
| "driver_of (ReadWriteAllow d s a n) = Some d"
| "driver_of (UserspaceReadableAllow d s a n) = Some d"
| "driver_of (ReadOnlyAllow d s a n) = Some d"
| "driver_of s = None"

fun upcall_pointer_ok :: "Syscall \<Rightarrow> ('cfg, 'ss) ProcessStandard \<Rightarrow> bool" where
  "upcall_pointer_ok (Subscribe d s f a) p \<longleftrightarrow> f = 0 \<or> is_valid_upcall_function_pointer f p = Some True"
| "upcall_pointer_ok s p \<longleftrightarrow> True"

lemma serve_nodevice:
  assumes "driver_of s = Some d" "drivers d = None" "slot i sys = Some p" "upcall_pointer_ok s p"
  shows "serve chip drivers i s sys = return_value chip i (nodevice_result s) sys"
  using assms
  by (cases s) (auto simp: handle_subscribe_def handle_command_def handle_rw_allow_def handle_ro_allow_def
      handle_userspace_readable_allow_def Let_def NonNull_new_def Upcall_new_def into_subscribe_eq null_or_def
      CommandReturn_failure_def)

lemma debug_syscall_called_keeps:
  assumes "debug_syscall_called s p = Some p'"
  shows "header p' = header p" "stored_state p' = stored_state p" "memory_start p' = memory_start p" "app_break p' = app_break p"
    "process_id p' = process_id p"
  using assms by (auto simp: debug_syscall_called_def bind_eq_Some_conv split: option.splits)

lemma filter_header:
  "header p' = header p \<Longrightarrow> filter_syscall_default_allow p' s = filter_syscall_default_allow p s"
  by (cases s) simp_all

lemma handle_syscall_filtered:
  assumes "can_return i p st sys" "ukb chip = cortexm_ukb sw"
    "filter_syscall_default_allow p s = Inl e" "debug_syscall_called s p = Some p1"
  shows "\<exists>sys'. handle_syscall chip drivers filter_syscall_default_allow i s sys = Some sys' \<and>
    result_of st sys' = Some (Failure e) \<and> (\<forall>j. j \<noteq> i \<longrightarrow> slot j sys' = slot j sys) \<and> slot i sys' = Some p1 \<and>
    same_outside (memory_start p) (app_break p) (memory (machine sys)) (memory (machine sys'))"
proof -
  note keeps = debug_syscall_called_keeps [OF assms(4)]
  have slot: "slot i sys = Some p" using assms(1) by (simp add: can_return_def)
  let ?sys1 = "(put_proc i p1 sys)\<lparr>machine := machine sys\<rparr>"
  have 1: "run_proc i (\<lambda>p mc. do { p \<leftarrow> debug_syscall_called s p; Some (p, mc) }) sys = Some ?sys1"
    using slot assms(4) by (simp add: run_proc_def on_proc_def)
  have filt: "filterable s" "filter_syscall_default_allow p1 s = Inl e"
    using assms(3) filter_header [OF keeps(1), of s] by (cases s; simp)+
  have ret: "can_return i p1 st ?sys1"
    using assms(1) keeps slot_less [OF slot] by (simp add: can_return_def)
  obtain m' where m': "return_value chip i (Failure e) ?sys1 = Some (?sys1\<lparr>machine := (machine sys)\<lparr>memory := m'\<rparr>\<rparr>)"
    "abi_decode (frame_regs (psp st) m') = Some (Failure e)" "same_outside (memory_start p) (app_break p) (memory (machine sys)) m'"
    using return_value_ok [OF ret assms(2), of "Failure e"] keeps by auto
  have "handle_syscall chip drivers filter_syscall_default_allow i s sys = Some (?sys1\<lparr>machine := (machine sys)\<lparr>memory := m'\<rparr>\<rparr>)"
    using 1 filt m'(1) slot_less [OF slot] by (simp add: handle_syscall_def)
  then show ?thesis using m'(2,3) slot_less [OF slot] by (auto simp: result_of_def)
qed

section \<open>Yield\<close>

lemma yield_effect:
  assumes "slot i sys = Some p" "handle_yield i w a sys = Some sys'"
  shows "slot i sys' = Some (if w = 1 \<or> w = 0 \<and> has_tasks p then set_yielded_state p else p) \<and>
    memory (machine sys') =
      (if w \<le> 1 \<and> in_app_owned_memory a 1 p
       then (memory (machine sys))(a := if w = 0 \<and> \<not> has_tasks p then 0 else 1) else memory (machine sys))"
proof -
  have "w > 1 \<longleftrightarrow> w \<noteq> 0 \<and> w \<noteq> 1" by (auto simp: word_less_nat_alt word_unat_eq_iff)
  then show ?thesis
    using assms slot_less [OF assms(1)]
    by (auto simp: handle_yield_def Let_def run_proc_def on_proc_def set_byte_def split: if_splits prod.splits)
qed

end
