(* ===== verification/Checker.thy ===== *)
theory Checker
  imports Dispatch ProcessLoading
begin

text \<open>
  Checking the credentials of loaded processes: the policy interface and \<open>is_runnable\<close> of
  \<open>kernel/src/process_checker.rs\<close>, two policies of \<open>kernel/src/process_checker/basic.rs\<close>, and the
  state machine \<open>ProcessCheckerMachine\<close> of \<open>kernel/src/kernel.rs\<close> that walks over the processes and
  their footers. A policy may keep state of its own; it is the type \<open>'p\<close>. A policy answers later, by
  a call of \<open>check_done\<close>.
\<close>

section \<open>Policies\<close>

datatype CheckResult = Accept | Pass | Reject

record ('p, 'cfg, 'ss) CredentialsCheckingPolicy =
  require_credentials :: bool
  check_credentials :: "TbfFooterV2Credentials \<Rightarrow> u8 list \<Rightarrow> 'p \<Rightarrow> (ErrorCode + unit) \<times> 'p"
  to_short_id :: "TbfFooterV2Credentials \<Rightarrow> ShortID"
  different_identifier :: "('cfg, 'ss) ProcessStandard \<Rightarrow> ('cfg, 'ss) ProcessStandard \<Rightarrow> bool"

definition null_policy :: "('p, 'cfg, 'ss) CredentialsCheckingPolicy" where
  "null_policy =
     \<lparr>require_credentials = False, check_credentials = (\<lambda>c b s. (Inl NOSUPPORT, s)),
      to_short_id = (\<lambda>c. LocallyUnique), different_identifier = (\<lambda>a b. True)\<rparr>"

text \<open>
  The policies that check nothing themselves hold one credential and its binary until their deferred
  call runs.
\<close>

type_synonym pending_check = "(TbfFooterV2Credentials \<times> u8 list) option"

definition hold_credentials ::
    "TbfFooterV2Credentials \<Rightarrow> u8 list \<Rightarrow> pending_check \<Rightarrow> (ErrorCode + unit) \<times> pending_check" where
  "hold_credentials c binary pending =
     (case pending of None \<Rightarrow> (Inr (), Some (c, binary)) | Some _ \<Rightarrow> (Inl BUSY, pending))"

definition AppCheckerSimulated :: "(pending_check, 'cfg, 'ss) CredentialsCheckingPolicy" where
  "AppCheckerSimulated =
     \<lparr>require_credentials = False, check_credentials = hold_credentials, to_short_id = (\<lambda>c. LocallyUnique),
      different_identifier = (\<lambda>a b. process_name a \<noteq> process_name b)\<rparr>"

definition same_credentials :: "TbfFooterV2Credentials \<Rightarrow> TbfFooterV2Credentials \<Rightarrow> bool" where
  "same_credentials a b \<longleftrightarrow>
     cred_format a = cred_format b \<and> length (cred_data a) = length (cred_data b) \<and>
     list_all (\<lambda>(x, y). x = y) (zip (cred_data a) (cred_data b))"

definition rsa_short_id :: "TbfFooterV2Credentials \<Rightarrow> ShortID" where
  "rsa_short_id c =
     (if length (cred_data c) < 4 then LocallyUnique
      else
        let d = cred_data c;
            ident = 0x8000000 OR push_bit 24 (ucast (d ! 0)) OR push_bit 16 (ucast (d ! 1))
                      OR push_bit 8 (ucast (d ! 2)) OR ucast (d ! 3) in
        if ident = 0 then LocallyUnique else Fixed ident)"

definition AppCheckerRsaSimulated :: "(pending_check, 'cfg, 'ss) CredentialsCheckingPolicy" where
  "AppCheckerRsaSimulated =
     \<lparr>require_credentials = True, check_credentials = hold_credentials, to_short_id = rsa_short_id,
      different_identifier = (\<lambda>a b.
        case (credentials a, credentials b) of
          (Some x, Some y) \<Rightarrow> \<not> same_credentials x y
        | _ \<Rightarrow> True)\<rparr>"

definition rsa_simulated_result :: "TbfFooterV2Credentials \<Rightarrow> ErrorCode + CheckResult" where
  "rsa_simulated_result c =
     (if cred_format c = Rsa3072Key \<or> cred_format c = Rsa4096Key then Inr Accept else Inr Pass)"

section \<open>Which of several versions may run\<close>

definition blocks ::
    "('cfg, 'ss) ProcessStandard \<Rightarrow> (('cfg, 'ss) ProcessStandard \<Rightarrow> ('cfg, 'ss) ProcessStandard \<Rightarrow> bool) \<Rightarrow>
      ('cfg, 'ss) ProcessStandard \<Rightarrow> bool" where
  "blocks process id_differ other =
     (let state = pstate other;
          creds_approve = (state \<noteq> CredentialsUnchecked \<and> state \<noteq> CredentialsFailed);
          different = (id_differ process other \<and> \<not> ShortID_eq (app_id other) (app_id process));
          newer = (get_binary_version (header other) > get_binary_version (header process));
          running = is_running other;
          runnable = (state \<noteq> CredentialsUnchecked \<and> state \<noteq> CredentialsFailed \<and> state \<noteq> Terminated) in
      creds_approve \<and> \<not> different \<and> (newer \<and> runnable \<or> running))"

definition is_runnable ::
    "('cfg, 'ss) ProcessStandard \<Rightarrow> ('cfg, 'ss) ProcessStandard option list \<Rightarrow>
      (('cfg, 'ss) ProcessStandard \<Rightarrow> ('cfg, 'ss) ProcessStandard \<Rightarrow> bool) \<Rightarrow> bool" where
  "is_runnable process processes id_differ =
     (if pstate process \<noteq> CredentialsApproved \<and> pstate process \<noteq> Terminated then False
      else \<not> list_ex (\<lambda>other. case other of None \<Rightarrow> False | Some q \<Rightarrow> blocks process id_differ q) processes)"

section \<open>Footers\<close>

datatype FooterCheckResult = Checking | PastLastFooter | FooterNotCheckable | BadFooter | NoProcess | FooterError

function footer_loop ::
    "('p, 'cfg, 'ss) CredentialsCheckingPolicy \<Rightarrow> u8 list \<Rightarrow> nat \<Rightarrow> usize \<Rightarrow> nat \<Rightarrow> usize \<Rightarrow> u8 list \<Rightarrow> 'p \<Rightarrow>
      (FooterCheckResult \<times> 'p) option" where
  "footer_loop policy binary_slice next_footer flash_stop current_footer footers_position footer_slice s =
     (if \<not> (current_footer \<le> next_footer \<and> footers_position < flash_stop) then Some (PastLastFooter, s)
      else
        (case parse_tbf_footer footer_slice of
           Inl NotEnoughFlash \<Rightarrow> Some (PastLastFooter, s)
         | Inl _ \<Rightarrow> Some (BadFooter, s)
         | Inr (footer, len) \<Rightarrow>
             (case chk_add footers_position len of
                None \<Rightarrow> None
              | Some q \<Rightarrow>
                  (case chk_add q 4 of
                     None \<Rightarrow> None
                   | Some footers_position' \<Rightarrow>
                       (case slice_from footer_slice (unat len + 4) of
                          None \<Rightarrow> Some (BadFooter, s)
                        | Some rest \<Rightarrow>
                            if current_footer = next_footer then
                              (case check_credentials policy footer binary_slice s of
                                 (Inr _, s) \<Rightarrow> Some (Checking, s)
                               | (Inl NOSUPPORT, s) \<Rightarrow> Some (FooterNotCheckable, s)
                               | (Inl ALREADY, s) \<Rightarrow> Some (FooterNotCheckable, s)
                               | (Inl _, s) \<Rightarrow> Some (FooterError, s))
                            else footer_loop policy binary_slice next_footer flash_stop (current_footer + 1)
                                   footers_position' rest s)))))"
  by pat_completeness auto

termination
  by (relation "measure (\<lambda>(_, _, n, _, c, _). Suc n - c)") auto

definition check_footer ::
    "('cfg, 'ss) ProcessStandard \<Rightarrow> ('p, 'cfg, 'ss) CredentialsCheckingPolicy \<Rightarrow> nat \<Rightarrow> 'p \<Rightarrow>
      (FooterCheckResult \<times> 'p) option" where
  "check_footer process policy next_footer s = do {
     addresses \<leftarrow> get_addresses process;
     let footers_position = pa_flash_integrity_end addresses;
     flash_integrity_len \<leftarrow> chk_sub footers_position (pa_flash_start addresses);
     footers_len \<leftarrow> chk_sub (pa_flash_end addresses) footers_position;
     let footer_slice = take (unat footers_len) (drop (unat flash_integrity_len) (flash_bytes process));
     let binary_slice = take (unat flash_integrity_len) (flash_bytes process);
     footer_loop policy binary_slice next_footer (pa_flash_end addresses) 0 footers_position footer_slice s
   }"

section \<open>The state machine\<close>

record ('p, 'cfg, 'ss) ProcessCheckerMachine =
  pcm_process :: nat
  pcm_footer :: nat
  pcm_policy :: "('p, 'cfg, 'ss) CredentialsCheckingPolicy option"
  pcm_state :: 'p

definition set_policy ::
    "('p, 'cfg, 'ss) CredentialsCheckingPolicy \<Rightarrow> ('p, 'cfg, 'ss) ProcessCheckerMachine \<Rightarrow>
      ('p, 'cfg, 'ss) ProcessCheckerMachine" where
  "set_policy policy c = c\<lparr>pcm_policy := Some policy\<rparr>"

fun skip_empty ::
    "('cfg, 'ss) ProcessStandard option list \<Rightarrow> ('p, 'cfg, 'ss) ProcessCheckerMachine \<Rightarrow>
      ('p, 'cfg, 'ss) ProcessCheckerMachine" where
  "skip_empty [] c = c"
| "skip_empty (Some p # ps) c = c"
| "skip_empty (None # ps) c = skip_empty ps (c\<lparr>pcm_process := pcm_process c + 1, pcm_footer := 0\<rparr>)"

definition past_last_footer ::
    "('p, 'cfg, 'ss) CredentialsCheckingPolicy \<Rightarrow> ('cfg, 'ss) ProcessStandard \<Rightarrow> ('cfg, 'ss) ProcessStandard" where
  "past_last_footer policy p =
     (if require_credentials policy then mark_credentials_fail p
      else snd (mark_credentials_pass None LocallyUnique p))"

partial_function (option) checker_next ::
    "('p, 'cfg, 'ss) ProcessCheckerMachine \<Rightarrow> ('hw, 'cfg, 'w, 'ss) System \<Rightarrow>
      ((ProcessLoadError + bool) \<times> ('p, 'cfg, 'ss) ProcessCheckerMachine \<times> ('hw, 'cfg, 'w, 'ss) System) option" where
  "checker_next c sys = do {
     let c = skip_empty (drop (pcm_process c) (procs sys)) c;
     (case slot (pcm_process c) sys of
        None \<Rightarrow> Some (Inr False, c, sys)
      | Some p \<Rightarrow>
          (case pcm_policy c of
             None \<Rightarrow> Some (Inl LoadInternalError, c, sys)
           | Some policy \<Rightarrow> do {
               (r, s) \<leftarrow> check_footer p policy (pcm_footer c) (pcm_state c);
               let c = c\<lparr>pcm_state := s\<rparr>;
               (case r of
                  Checking \<Rightarrow> Some (Inr True, c, sys)
                | PastLastFooter \<Rightarrow>
                    checker_next (c\<lparr>pcm_process := pcm_process c + 1, pcm_footer := 0\<rparr>)
                      (put_proc (pcm_process c) (past_last_footer policy p) sys)
                | NoProcess \<Rightarrow> checker_next (c\<lparr>pcm_process := pcm_process c + 1, pcm_footer := 0\<rparr>) sys
                | BadFooter \<Rightarrow> checker_next (c\<lparr>pcm_process := pcm_process c + 1, pcm_footer := 0\<rparr>) sys
                | FooterNotCheckable \<Rightarrow> checker_next (c\<lparr>pcm_footer := pcm_footer c + 1\<rparr>) sys
                | FooterError \<Rightarrow> Some (Inl LoadInternalError, c, sys))
             }))
   }"

declare checker_next.simps [code]

definition take_answer ::
    "ErrorCode + CheckResult \<Rightarrow> TbfFooterV2Credentials \<Rightarrow> ('p, 'cfg, 'ss) ProcessCheckerMachine \<Rightarrow>
      ('hw, 'cfg, 'w, 'ss) System \<Rightarrow> (('p, 'cfg, 'ss) ProcessCheckerMachine \<times> ('hw, 'cfg, 'w, 'ss) System) option" where
  "take_answer result creds c sys =
     (case result of
         Inr Accept \<Rightarrow> do {
           _ \<leftarrow> slice_get (procs sys) (pcm_process c);
           let short_id = (case pcm_policy c of None \<Rightarrow> LocallyUnique | Some policy \<Rightarrow> to_short_id policy creds);
           Some (c\<lparr>pcm_process := pcm_process c + 1\<rparr>,
                 case slot (pcm_process c) sys of
                   None \<Rightarrow> sys
                 | Some p \<Rightarrow> put_proc (pcm_process c) (snd (mark_credentials_pass (Some creds) short_id p)) sys)
         }
       | Inr Pass \<Rightarrow> Some (c\<lparr>pcm_footer := pcm_footer c + 1\<rparr>, sys)
       | Inr Reject \<Rightarrow> do {
           _ \<leftarrow> slice_get (procs sys) (pcm_process c);
           Some (c\<lparr>pcm_process := pcm_process c + 1\<rparr>,
                 case slot (pcm_process c) sys of
                   None \<Rightarrow> sys
                 | Some p \<Rightarrow> put_proc (pcm_process c) (mark_credentials_fail p) sys)
         }
       | Inl _ \<Rightarrow> Some (c\<lparr>pcm_footer := pcm_footer c + 1\<rparr>, sys))"

definition check_done ::
    "ErrorCode + CheckResult \<Rightarrow> TbfFooterV2Credentials \<Rightarrow> ('p, 'cfg, 'ss) ProcessCheckerMachine \<Rightarrow>
      ('hw, 'cfg, 'w, 'ss) System \<Rightarrow> (('p, 'cfg, 'ss) ProcessCheckerMachine \<times> ('hw, 'cfg, 'w, 'ss) System) option" where
  "check_done result creds c sys = do {
     (c, sys) \<leftarrow> take_answer result creds c sys;
     (_, c, sys) \<leftarrow> checker_next c sys;
     Some (c, sys)
   }"

text \<open>
  The footers of a process lie between the end of its binary and the end of its flash region.
\<close>

definition footers_ok :: "('cfg, 'ss) ProcessStandard \<Rightarrow> bool" where
  "footers_ok p \<longleftrightarrow>
     (case get_addresses p of
        None \<Rightarrow> False
      | Some a \<Rightarrow>
          unat (pa_flash_start a) \<le> unat (pa_flash_integrity_end a) \<and>
          unat (pa_flash_integrity_end a) \<le> unat (pa_flash_end a))"

section \<open>Lemmas\<close>

text \<open>A process that is found runnable has no running process of the same application beside it.\<close>

lemma is_runnable_unique:
  assumes "is_runnable p ps id_differ" "Some q \<in> set ps" "is_running q" "pstate q \<notin> {CredentialsUnchecked, CredentialsFailed}"
  shows "id_differ p q \<and> \<not> ShortID_eq (app_id q) (app_id p)"
proof -
  have "\<not> blocks p id_differ q"
    using assms(1,2) by (force simp: is_runnable_def list_ex_iff split: if_splits option.splits)
  then show ?thesis using assms(3,4) by (auto simp: blocks_def Let_def)
qed

lemma is_runnable_newest:
  assumes "is_runnable p ps id_differ" "Some q \<in> set ps" "pstate q \<notin> {CredentialsUnchecked, CredentialsFailed, Terminated}"
    "\<not> id_differ p q \<or> ShortID_eq (app_id q) (app_id p)"
  shows "get_binary_version (header q) \<le> get_binary_version (header p)"
proof -
  have "\<not> blocks p id_differ q"
    using assms(1,2) by (force simp: is_runnable_def list_ex_iff split: if_splits option.splits)
  then show ?thesis using assms(3,4) by (auto simp: blocks_def Let_def)
qed

subsection \<open>Footers\<close>

declare footer_loop.simps [simp del]

lemma footer_loop_returns:
  "unat pos + length fs \<le> unat fin \<Longrightarrow> \<exists>r. footer_loop pol bin n fin cur pos fs s = Some r"
proof (induction pol bin n fin cur pos fs s rule: footer_loop.induct)
  case (1 pol bin n fin cur pos fs s)
  show ?case
  proof (cases "cur \<le> n \<and> pos < fin")
    case True
    show ?thesis
    proof (cases "parse_tbf_footer fs")
      case (Inl e)
      then show ?thesis using True by (subst footer_loop.simps) (cases e; simp)
    next
      case (Inr fl)
      then obtain footer len where fl: "parse_tbf_footer fs = Inr (footer, len)" by (cases fl) auto
      note len = parse_tbf_footer_ok(3) [OF fl]
      have "unat pos + unat len + 4 < 2 ^ 32" using len 1(2) unat_less_2p [of fin] by simp
      then have a: "chk_add pos len = Some (pos + len)" "chk_add (pos + len) 4 = Some (pos + len + 4)"
          "unat (pos + len + 4) = unat pos + unat len + 4"
        using chk_addI [of pos len] chk_addI [of "pos + len" 4] by simp_all
      have r: "slice_from fs (unat len + 4) = Some (drop (unat len + 4) fs)" using len by (simp add: slice_from_def)
      show ?thesis
      proof (cases "cur = n")
        case True
        then show ?thesis using fl a r \<open>cur \<le> n \<and> pos < fin\<close>
          by (subst footer_loop.simps) (cases "check_credentials pol footer bin s"; auto split: sum.splits ErrorCode.splits)
      next
        case False
        have "\<exists>r. footer_loop pol bin n fin (cur + 1) (pos + len + 4) (drop (unat len + 4) fs) s = Some r"
          using 1(1) [OF _ fl refl a(1,2) r False] True 1(2) len a(3) by simp
        then show ?thesis using fl a r True False by (subst footer_loop.simps) simp
      qed
    qed
  qed (subst footer_loop.simps, simp)
qed

lemma footer_loop_bound:
  "footer_loop pol bin n fin cur pos fs s = Some (FooterNotCheckable, s') \<Longrightarrow> n < cur + length fs"
proof (induction pol bin n fin cur pos fs s rule: footer_loop.induct)
  case (1 pol bin n fin cur pos fs s)
  have "cur \<le> n \<and> pos < fin" using 1(2) by (subst (asm) footer_loop.simps) (auto split: if_splits)
  moreover obtain footer len where fl: "parse_tbf_footer fs = Inr (footer, len)"
    using 1(2) calculation by (subst (asm) footer_loop.simps) (auto split: sum.splits TbfParseError.splits)
  moreover obtain p1 p2 where a: "chk_add pos len = Some p1" "chk_add p1 4 = Some p2"
    using 1(2) calculation by (subst (asm) footer_loop.simps) (auto split: option.splits)
  moreover have r: "slice_from fs (unat len + 4) = Some (drop (unat len + 4) fs)"
    using parse_tbf_footer_ok(3) [OF fl] by (simp add: slice_from_def)
  ultimately have "n < cur + 1 + length (drop (unat len + 4) fs)" if "cur \<noteq> n"
    using 1(1) [OF _ fl refl a r that] 1(2) that by (subst (asm) footer_loop.simps) simp
  then show ?case using parse_tbf_footer_ok(3) [OF fl] by (cases "cur = n") auto
qed

lemma check_footer_returns:
  assumes "footers_ok p"
  shows "\<exists>r. check_footer p pol n s = Some r"
proof -
  obtain a where a: "get_addresses p = Some a" "unat (pa_flash_start a) \<le> unat (pa_flash_integrity_end a)"
      "unat (pa_flash_integrity_end a) \<le> unat (pa_flash_end a)"
    using assms by (auto simp: footers_ok_def split: option.splits)
  then show ?thesis
    by (simp add: check_footer_def Let_def chk_subI footer_loop_returns del: split_paired_Ex)
qed

lemma check_footer_bound:
  assumes "check_footer p pol n s = Some (FooterNotCheckable, s')"
  shows "n < length (flash_bytes p)"
  using assms unfolding check_footer_def Let_def
  by (elim monad_elims) (force dest!: footer_loop_bound)

lemma past_last_footer_core [simp]:
  "footers_ok (past_last_footer pol p) = footers_ok p" "flash_bytes (past_last_footer pol p) = flash_bytes p"
  by (simp_all add: past_last_footer_def mark_credentials_fail_def mark_credentials_pass_def footers_ok_def
      get_addresses_def flash_non_protected_start_def flash_start_def flash_end_def mem_start_def mem_end_def)

subsection \<open>The walk over the processes\<close>

lemma skip_empty_fields [simp]: "pcm_policy (skip_empty ps c) = pcm_policy c" "pcm_state (skip_empty ps c) = pcm_state c"
  by (induction ps c rule: skip_empty.induct) simp_all

lemma skip_empty_moves:
  "skip_empty ps c = c \<or> pcm_process c < pcm_process (skip_empty ps c) \<and> pcm_footer (skip_empty ps c) = 0"
  by (induction ps c rule: skip_empty.induct) auto

lemma skip_empty_mono: "pcm_process c \<le> pcm_process (skip_empty ps c)"
  using skip_empty_moves [of ps c] by auto

text \<open>
  What is left of the walk: for each process still to come at most as many footers as its flash has bytes.
\<close>

definition walk_left :: "('hw, 'cfg, 'w, 'ss) System \<Rightarrow> nat \<Rightarrow> ('p, 'cfg, 'ss) ProcessCheckerMachine \<Rightarrow> nat" where
  "walk_left sys K c = (length (procs sys) - pcm_process c) * Suc K + (K - pcm_footer c)"

lemma walk_left_process:
  assumes "pcm_process c < pcm_process d" "pcm_process c < length (procs sys)"
  shows "walk_left sys K d < walk_left sys K c"
proof -
  have "Suc (length (procs sys) - pcm_process d) * Suc K \<le> (length (procs sys) - pcm_process c) * Suc K"
    using assms by (intro mult_le_mono1) linarith
  then show ?thesis by (simp add: walk_left_def del: mult_Suc_right)
qed

lemma walk_left_skip:
  assumes "slot (pcm_process (skip_empty ps c)) sys = Some p"
  shows "walk_left sys K (skip_empty ps c) \<le> walk_left sys K c"
  using skip_empty_moves [of ps c] slot_less [OF assms] walk_left_process [of c "skip_empty ps c" sys K]
  by auto

definition checkable :: "nat \<Rightarrow> ('hw, 'cfg, 'w, 'ss) System \<Rightarrow> bool" where
  "checkable K sys \<longleftrightarrow> (\<forall>i p. slot i sys = Some p \<longrightarrow> footers_ok p \<and> length (flash_bytes p) \<le> K)"

lemma checkable_past_last [simp]:
  "checkable K sys \<Longrightarrow> slot i sys = Some p \<Longrightarrow> checkable K (put_proc i (past_last_footer pol p) sys)"
  by (auto simp: checkable_def)

lemma walk_left_put [simp]: "walk_left (put_proc i p sys) K c = walk_left sys K c"
  by (simp add: walk_left_def)

lemma checker_next_returns:
  "checkable K sys \<Longrightarrow> \<exists>r. checker_next c sys = Some r"
proof (induction "walk_left sys K c" arbitrary: c sys rule: less_induct)
  case less
  define d where "d = skip_empty (drop (pcm_process c) (procs sys)) c"
  show ?case
  proof (cases "slot (pcm_process d) sys")
    case None
    then show ?thesis by (subst checker_next.simps) (simp add: d_def [symmetric])
  next
    case (Some p)
    note le = walk_left_skip [OF Some [unfolded d_def], of K, folded d_def]
    note less_len = slot_less [OF Some]
    show ?thesis
    proof (cases "pcm_policy d")
      case None
      then show ?thesis using Some by (subst checker_next.simps) (simp add: d_def [symmetric])
    next
      case pol: (Some pol)
      have "footers_ok p" using less(2) Some by (simp add: checkable_def)
      then obtain r s where r: "check_footer p pol (pcm_footer d) (pcm_state d) = Some (r, s)"
        using check_footer_returns by (metis surj_pair)
      have adv: "walk_left sys K (d\<lparr>pcm_state := s, pcm_process := pcm_process d + 1, pcm_footer := 0\<rparr>) < walk_left sys K c"
        using walk_left_process [of d "d\<lparr>pcm_state := s, pcm_process := pcm_process d + 1, pcm_footer := 0\<rparr>" sys K]
          less_len le by simp
      have foot: "walk_left sys K (d\<lparr>pcm_state := s, pcm_footer := pcm_footer d + 1\<rparr>) < walk_left sys K c" if "r = FooterNotCheckable"
      proof -
        have "pcm_footer d < K" using check_footer_bound [OF r [unfolded that]] less(2) Some by (force simp: checkable_def)
        then have "walk_left sys K (d\<lparr>pcm_state := s, pcm_footer := pcm_footer d + 1\<rparr>) < walk_left sys K d"
          by (simp add: walk_left_def)
        then show ?thesis using le by simp
      qed
      show ?thesis
        using less(1) [OF _ less(2)] less(1) [OF _ checkable_past_last [OF less(2) Some]] adv foot Some pol r
        by (subst checker_next.simps) (cases r; simp add: d_def [symmetric])
    qed
  qed
qed

text \<open>
  What the walk does to the processes: it leaves those behind its position alone, and each other one
  as it is or as \<open>past_last_footer\<close> makes it.
\<close>

definition walked ::
    "('p, 'cfg, 'ss) ProcessCheckerMachine \<Rightarrow> ('hw, 'cfg, 'w, 'ss) System \<Rightarrow>
      ('p, 'cfg, 'ss) ProcessCheckerMachine \<Rightarrow> ('hw, 'cfg, 'w, 'ss) System \<Rightarrow> bool" where
  "walked c sys c' sys' \<longleftrightarrow>
     pcm_process c \<le> pcm_process c' \<and> pcm_policy c' = pcm_policy c \<and>
     length (procs sys') = length (procs sys) \<and>
     (\<forall>i. slot i sys' = slot i sys \<or>
          pcm_process c \<le> i \<and> i < pcm_process c' \<and>
          (\<exists>pol p. pcm_policy c = Some pol \<and> slot i sys = Some p \<and> slot i sys' = Some (past_last_footer pol p)))"

lemma walked_slot:
  assumes "walked c sys c' sys'" "pcm_policy c = Some pol"
  shows "slot i sys' = slot i sys \<or> (\<exists>p. slot i sys = Some p \<and> slot i sys' = Some (past_last_footer pol p))"
  using assms unfolding walked_def by auto

lemma walked_behind: "walked c sys c' sys' \<Longrightarrow> i < pcm_process c \<Longrightarrow> slot i sys' = slot i sys"
  unfolding walked_def by (metis not_less)

lemma walked_refl: "pcm_policy d = pcm_policy c \<Longrightarrow> pcm_process c \<le> pcm_process d \<Longrightarrow> walked c sys d sys"
  by (simp add: walked_def)

lemma walked_skip:
  assumes "walked e sys c' sys'" "pcm_policy e = pcm_policy c" "pcm_process c \<le> pcm_process e"
  shows "walked c sys c' sys'"
  using assms unfolding walked_def by (metis order_trans)

lemma walked_put:
  assumes "walked e (put_proc i (past_last_footer pol p) sys) c' sys'" "slot i sys = Some p" "pcm_policy c = Some pol"
    "pcm_policy e = pcm_policy c" "pcm_process e = i + 1" "pcm_process c \<le> i"
  shows "walked c sys c' sys'"
proof -
  have i: "i < length (procs sys)" using assms(2) by (rule slot_less)
  have "slot j sys' = slot j sys \<or>
      pcm_process c \<le> j \<and> j < pcm_process c' \<and>
      (\<exists>pol p. pcm_policy c = Some pol \<and> slot j sys = Some p \<and> slot j sys' = Some (past_last_footer pol p))" for j
    using assms i unfolding walked_def by (cases "j = i") (fastforce split: if_splits)+
  then show ?thesis using assms unfolding walked_def by auto
qed

lemma checker_next_walked_result:
  assumes "checker_next c sys = Some y"
  shows "walked c sys (fst (snd y)) (snd (snd y))"
proof (rule checker_next.raw_induct [OF _ assms], goal_cases)
  case (1 rec c sys y)
  let ?c = "fst (snd y)" and ?sys = "snd (snd y)"
  define d where "d = skip_empty (drop (pcm_process c) (procs sys)) c"
  have d: "pcm_policy d = pcm_policy c" "pcm_process c \<le> pcm_process d" by (simp_all add: d_def skip_empty_mono)
  show "walked c sys ?c ?sys"
  proof (cases "slot (pcm_process d) sys")
    case None
    then show ?thesis using 1(2) d by (auto simp: d_def [symmetric] intro: walked_refl)
  next
    case (Some p)
    show ?thesis
    proof (cases "pcm_policy c")
      case None
      then show ?thesis using 1(2) d Some by (auto simp: d_def [symmetric] intro!: walked_refl)
    next
      case pol: (Some pol)
      then obtain fr s where fr: "check_footer p pol (pcm_footer d) (pcm_state d) = Some (fr, s)"
        using 1(2) d Some by (auto simp: d_def [symmetric] elim!: monad_elims)
      show ?thesis
        using 1(2) d Some pol fr
        by (cases fr) (auto simp: d_def [symmetric] intro!: walked_refl dest!: 1(1) elim!: walked_skip walked_put)
    qed
  qed
qed

lemma checker_next_walked: "checker_next c sys = Some (r, c', sys') \<Longrightarrow> walked c sys c' sys'"
  using checker_next_walked_result by fastforce

lemma skip_empty_slot: "slot i sys = Some p \<Longrightarrow> skip_empty (drop i (procs sys)) c = c"
  by (cases "drop i (procs sys)")
    (auto simp: slot_def slice_get_def nth_via_drop bind_eq_Some_conv split: if_splits option.splits)

subsection \<open>What an answer of the policy does\<close>

lemma past_last_footer_required: "require_credentials pol \<Longrightarrow> pstate (past_last_footer pol p) = CredentialsFailed"
  by (simp add: past_last_footer_def mark_credentials_fail_def)

lemma take_answer_slot:
  assumes "take_answer res creds c sys = Some (d, sys1)" "pcm_policy c = Some pol" "slot i sys = Some p"
  shows "pcm_policy d = Some pol"
    "slot i sys1 = Some p \<or> i = pcm_process c \<and>
      (res = Inr Accept \<and> slot i sys1 = Some (snd (mark_credentials_pass (Some creds) (to_short_id pol creds) p)) \<or>
       slot i sys1 = Some (mark_credentials_fail p))"
  using assms slot_less [OF assms(3)] unfolding take_answer_def Let_def
  by (cases "i = pcm_process c"; auto split: sum.splits CheckResult.splits option.splits elim!: monad_elims)+

text \<open>Where credentials are required, only an accepted credential approves a process.\<close>

lemma check_done_approves:
  assumes "check_done res creds c sys = Some (c', sys')" "pcm_policy c = Some pol" "require_credentials pol"
    and "slot i sys = Some p" "pstate p \<noteq> CredentialsApproved" "slot i sys' = Some p'" "pstate p' = CredentialsApproved"
  shows "res = Inr Accept \<and> i = pcm_process c \<and> pstate p = CredentialsUnchecked \<and>
    credentials p' = Some creds \<and> app_id p' = to_short_id pol creds"
proof -
  obtain d sys1 r where n: "take_answer res creds c sys = Some (d, sys1)" "checker_next d sys1 = Some (r, c', sys')"
    using assms(1) unfolding check_done_def by (auto elim!: monad_elims)
  note d = take_answer_slot [OF n(1) assms(2,4)]
  have "slot i sys' = slot i sys1"
    using walked_slot [OF checker_next_walked [OF n(2)] d(1)] past_last_footer_required [OF assms(3)] assms(6,7)
    by fastforce
  then show ?thesis using d(2) assms(4-7)
    by (auto simp: mark_credentials_pass_def mark_credentials_fail_def Let_def split: if_splits)
qed

text \<open>
  An accepted or rejected credential moves on to the next process with the footer index kept: the
  footers of that process before the index are never looked at.
\<close>

lemma accept_keeps_footer_index:
  assumes "check_done (Inr Accept) creds c sys = Some (c', sys')" "pcm_policy c = Some pol" "require_credentials pol"
    and "slot (pcm_process c + 1) sys = Some q"
    and "check_footer q pol (pcm_footer c) (pcm_state c) = Some (PastLastFooter, s)"
  shows "slot (pcm_process c + 1) sys' = Some (mark_credentials_fail q)"
proof -
  let ?j = "pcm_process c + 1"
  obtain sys1 r where sys1: "checker_next (c\<lparr>pcm_process := ?j\<rparr>) sys1 = Some (r, c', sys')" "slot ?j sys1 = Some q"
    using assms(1,4) unfolding check_done_def take_answer_def Let_def
    by (auto split: option.splits elim!: monad_elims)
  then have "checker_next (c\<lparr>pcm_state := s, pcm_process := ?j + 1, pcm_footer := 0\<rparr>)
      (put_proc ?j (past_last_footer pol q) sys1) = Some (r, c', sys')"
    using assms(2,5) by (subst (asm) checker_next.simps) (simp add: skip_empty_slot)
  from walked_behind [OF checker_next_walked [OF this], of ?j] show ?thesis
    using slot_less [OF sys1(2)] assms(3) by (simp add: past_last_footer_def)
qed

end
