(* ===== verification/LinkedList.thy ===== *)
theory LinkedList
  imports Prelude
begin

text \<open>
  The intrusive singly linked list of \<open>kernel/src/collections/list.rs\<close>. A node is an address of type
  \<open>'n\<close>; the link cells of all nodes are one map from addresses, so that putting a node into a list
  changes the link that the node carries. The loops that walk the links return only if the links end.
  The lemmas show that on an acyclic chain every operation is the one on lists of the same name.
\<close>

section \<open>The list\<close>

record 'n List =
  head_link :: "'n option"
  next_link :: "'n \<Rightarrow> 'n option"

definition List_new :: "('n \<Rightarrow> 'n option) \<Rightarrow> 'n List" where
  "List_new links = \<lparr>head_link = None, next_link = links\<rparr>"

definition head :: "'n List \<Rightarrow> 'n option" where
  "head l = head_link l"

definition push_head :: "'n \<Rightarrow> 'n List \<Rightarrow> 'n List" where
  "push_head node l = (let l = l\<lparr>next_link := (next_link l)(node := head_link l)\<rparr> in l\<lparr>head_link := Some node\<rparr>)"

text \<open>The iterator: its state is the node it yields next.\<close>

definition ListIterator_next :: "('n \<Rightarrow> 'n option) \<Rightarrow> 'n option \<Rightarrow> 'n option \<times> 'n option" where
  "ListIterator_next links cur = (case cur of Some res \<Rightarrow> (Some res, links res) | None \<Rightarrow> (None, None))"

partial_function (option) iter_last :: "('n \<Rightarrow> 'n option) \<Rightarrow> 'n option \<Rightarrow> 'n option \<Rightarrow> 'n option option" where
  "iter_last links cur acc =
     (case ListIterator_next links cur of
        (None, _) \<Rightarrow> Some acc
      | (Some node, cur) \<Rightarrow> iter_last links cur (Some node))"

declare iter_last.simps [code]

definition push_tail :: "'n \<Rightarrow> 'n List \<Rightarrow> 'n List option" where
  "push_tail node l = do {
     let l = l\<lparr>next_link := (next_link l)(node := None)\<rparr>;
     last_node \<leftarrow> iter_last (next_link l) (head_link l) None;
     Some (case last_node of
         Some tail \<Rightarrow> l\<lparr>next_link := (next_link l)(tail := Some node)\<rparr>
       | None \<Rightarrow> push_head node l)
   }"

definition pop_head :: "'n List \<Rightarrow> 'n option \<times> 'n List" where
  "pop_head l =
     (let remove = head_link l in
      (remove, case remove of
                 Some node \<Rightarrow> l\<lparr>head_link := next_link l node\<rparr>
               | None \<Rightarrow> l\<lparr>head_link := None\<rparr>))"

partial_function (option) iter_find :: "('n \<Rightarrow> bool) \<Rightarrow> ('n \<Rightarrow> 'n option) \<Rightarrow> 'n option \<Rightarrow> 'n option option" where
  "iter_find P links cur =
     (case ListIterator_next links cur of
        (None, _) \<Rightarrow> Some None
      | (Some node, cur) \<Rightarrow> if P node then Some (Some node) else iter_find P links cur)"

declare iter_find.simps [code]

text \<open>The nodes that an iteration without side effects visits.\<close>

partial_function (option) iter_collect :: "('n \<Rightarrow> 'n option) \<Rightarrow> 'n option \<Rightarrow> 'n list option" where
  "iter_collect links cur =
     (case ListIterator_next links cur of
        (None, _) \<Rightarrow> Some []
      | (Some node, cur) \<Rightarrow> do { nodes \<leftarrow> iter_collect links cur; Some (node # nodes) })"

declare iter_collect.simps [code]

section \<open>What a list holds\<close>

fun chain :: "('n \<Rightarrow> 'n option) \<Rightarrow> 'n option \<Rightarrow> 'n list \<Rightarrow> bool" where
  "chain links p [] \<longleftrightarrow> p = None"
| "chain links p (x # xs) \<longleftrightarrow> p = Some x \<and> chain links (links x) xs"

definition holds :: "'n List \<Rightarrow> 'n list \<Rightarrow> bool" where
  "holds l xs \<longleftrightarrow> chain (next_link l) (head_link l) xs \<and> distinct xs"

section \<open>Lemmas\<close>

lemma chain_update [simp]: "x \<notin> set xs \<Longrightarrow> chain (links(x := v)) p xs = chain links p xs"
  by (induction xs arbitrary: p) auto

lemma chain_unique: "chain links p xs \<Longrightarrow> chain links p ys \<Longrightarrow> xs = ys"
proof (induction xs arbitrary: p ys)
  case (Cons x xs)
  then show ?case by (cases ys) auto
qed (case_tac ys; simp)

lemma holds_unique: "holds l xs \<Longrightarrow> holds l ys \<Longrightarrow> xs = ys"
  by (auto simp: holds_def intro: chain_unique)

lemma iter_last_chain: "chain links p xs \<Longrightarrow> iter_last links p acc = Some (if xs = [] then acc else Some (last xs))"
proof (induction xs arbitrary: p acc)
  case (Cons x xs)
  then show ?case by (subst iter_last.simps) (simp add: ListIterator_next_def)
qed (subst iter_last.simps, simp add: ListIterator_next_def)

lemma iter_find_chain: "chain links p xs \<Longrightarrow> iter_find P links p = Some (List.find P xs)"
proof (induction xs arbitrary: p)
  case (Cons x xs)
  then show ?case by (subst iter_find.simps) (simp add: ListIterator_next_def)
qed (subst iter_find.simps, simp add: ListIterator_next_def)

lemma iter_collect_chain: "chain links p xs \<Longrightarrow> iter_collect links p = Some xs"
proof (induction xs arbitrary: p)
  case (Cons x xs)
  then show ?case by (subst iter_collect.simps) (simp add: ListIterator_next_def)
qed (subst iter_collect.simps, simp add: ListIterator_next_def)

lemma chain_append: "chain links p (as @ i # bs) \<Longrightarrow> chain links (Some i) (i # bs)"
  by (induction as arbitrary: p) auto

lemma chain_snoc:
  "chain links p xs \<Longrightarrow> distinct xs \<Longrightarrow> xs \<noteq> [] \<Longrightarrow> y \<notin> set xs \<Longrightarrow> links y = None \<Longrightarrow>
   chain (links(last xs := Some y)) p (xs @ [y])"
proof (induction xs arbitrary: p)
  case (Cons x xs)
  then show ?case by (cases "xs = []") auto
qed simp

lemma head_holds: "holds l xs \<Longrightarrow> head l = (case xs of [] \<Rightarrow> None | x # _ \<Rightarrow> Some x)"
  by (cases xs) (auto simp: holds_def head_def)

lemma push_head_holds: "holds l xs \<Longrightarrow> x \<notin> set xs \<Longrightarrow> holds (push_head x l) (x # xs)"
  by (simp add: holds_def push_head_def)

lemma pop_head_holds:
  "holds l xs \<Longrightarrow> fst (pop_head l) = (case xs of [] \<Rightarrow> None | x # _ \<Rightarrow> Some x) \<and> holds (snd (pop_head l)) (tl xs)"
  by (cases xs) (auto simp: holds_def pop_head_def)

lemma push_tail_holds:
  assumes "holds l xs" "x \<notin> set xs"
  shows "\<exists>l'. push_tail x l = Some l' \<and> holds l' (xs @ [x])"
proof -
  let ?n = "(next_link l)(x := None)"
  have c: "chain ?n (head_link l) xs" "distinct xs" using assms by (simp_all add: holds_def)
  show ?thesis
  proof (cases "xs = []")
    case True
    then show ?thesis using iter_last_chain [OF c(1)] c
      by (simp add: push_tail_def push_head_def holds_def)
  next
    case False
    then have "chain (?n(last xs := Some x)) (head_link l) (xs @ [x])"
      using chain_snoc [OF c False assms(2)] by simp
    then show ?thesis using iter_last_chain [OF c(1)] False c assms(2)
      by (simp add: push_tail_def holds_def)
  qed
qed

section \<open>The interface of a list of nodes\<close>

text \<open>
  What the schedulers rely on. \<open>rotate_head\<close>, the step by which every scheduler sends the node at the
  head to the back, is derived once for every implementation.
\<close>

locale node_list =
  fixes content :: "'l \<Rightarrow> 'n list \<Rightarrow> bool"
    and first :: "'l \<Rightarrow> 'n option"
    and push_back :: "'n \<Rightarrow> 'l \<Rightarrow> 'l option"
    and pop_front :: "'l \<Rightarrow> 'n option \<times> 'l"
  assumes content_distinct: "content l xs \<Longrightarrow> distinct xs"
    and first_content: "content l xs \<Longrightarrow> first l = (case xs of [] \<Rightarrow> None | x # _ \<Rightarrow> Some x)"
    and push_back_content: "content l xs \<Longrightarrow> x \<notin> set xs \<Longrightarrow> \<exists>l'. push_back x l = Some l' \<and> content l' (xs @ [x])"
    and pop_front_content: "content l xs \<Longrightarrow>
      fst (pop_front l) = (case xs of [] \<Rightarrow> None | x # _ \<Rightarrow> Some x) \<and> content (snd (pop_front l)) (tl xs)"
begin

lemma rotate_head:
  assumes "content l (x # xs)"
  shows "\<exists>l1 l2. pop_front l = (Some x, l1) \<and> push_back x l1 = Some l2 \<and> content l2 (xs @ [x])"
  using pop_front_content [OF assms] push_back_content [of "snd (pop_front l)" xs x] content_distinct [OF assms]
  by (cases "pop_front l") auto

lemma rotate_empty: "content l [] \<Longrightarrow> fst (pop_front l) = None"
  using pop_front_content by fastforce

end

interpretation ll: node_list holds head push_tail pop_head
  by unfold_locales (auto simp: head_holds push_tail_holds pop_head_holds, simp add: holds_def)

end
