(* ===== verification/Ticks.thy ===== *)
theory Ticks
  imports Prelude
begin

text \<open>
  Counter values that wrap around: the trait \<open>Ticks\<close> of \<open>kernel/src/hil/time.rs\<close> as a record of its
  methods, its four implementations, and the conversions of \<open>ConvertTicks\<close> between ticks and time. The
  lemmas show that \<open>within_range\<close> decides whether a deadline has passed as long as less than one
  period of the counter has gone by.
\<close>

section \<open>The trait\<close>

record 't Ticks =
  ticks_from_u32 :: "u32 \<Rightarrow> 't"
  ticks_into_u32 :: "'t \<Rightarrow> u32"
  ticks_wrapping_add :: "'t \<Rightarrow> 't \<Rightarrow> 't"
  ticks_wrapping_sub :: "'t \<Rightarrow> 't \<Rightarrow> 't"
  ticks_within_range :: "'t \<Rightarrow> 't \<Rightarrow> 't \<Rightarrow> bool"
  ticks_max_value :: 't
  ticks_half_max_value :: 't
  ticks_from_or_max :: "u64 \<Rightarrow> 't"
  ticks_saturating_scale :: "'t \<Rightarrow> u32 \<Rightarrow> u32 \<Rightarrow> u32 option"
  ticks_less :: "'t \<Rightarrow> 't \<Rightarrow> bool"

text \<open>The product of two 32-bit numbers fits in 64 bits, so only a denominator of zero panics.\<close>

definition saturating_scale_u64 :: "u64 \<Rightarrow> u32 \<Rightarrow> u32 \<Rightarrow> u32 option" where
  "saturating_scale_u64 value numerator denominator = do {
     scaled \<leftarrow> chk_div (value * ucast numerator) (ucast denominator :: u64);
     Some (if scaled < 0xFFFFFFFF then ucast scaled else 0xFFFFFFFF)
   }"

definition Ticks32 :: "u32 Ticks" where
  "Ticks32 =
     \<lparr>ticks_from_u32 = (\<lambda>v. v), ticks_into_u32 = (\<lambda>t. t),
      ticks_wrapping_add = (\<lambda>a b. a + b), ticks_wrapping_sub = (\<lambda>a b. a - b),
      ticks_within_range = (\<lambda>t start end. t - start < end - start),
      ticks_max_value = 0xFFFFFFFF, ticks_half_max_value = 1 + 0xFFFFFFFF div 2,
      ticks_from_or_max = (\<lambda>val. if val < 0xFFFFFFFF then ucast val else 0xFFFFFFFF),
      ticks_saturating_scale = (\<lambda>t. saturating_scale_u64 (ucast t)),
      ticks_less = (\<lambda>a b. a < b)\<rparr>"

definition Ticks24 :: "u32 Ticks" where
  "Ticks24 =
     \<lparr>ticks_from_u32 = (\<lambda>v. v), ticks_into_u32 = (\<lambda>t. t),
      ticks_wrapping_add = (\<lambda>a b. (a + b) AND 0x00FFFFFF), ticks_wrapping_sub = (\<lambda>a b. (a - b) AND 0x00FFFFFF),
      ticks_within_range = (\<lambda>t start end. (t - start) AND 0x00FFFFFF < (end - start) AND 0x00FFFFFF),
      ticks_max_value = 0x00FFFFFF, ticks_half_max_value = 1 + 0x00FFFFFF div 2,
      ticks_from_or_max = (\<lambda>val. if val < 0x00FFFFFF then ucast val else 0x00FFFFFF),
      ticks_saturating_scale = (\<lambda>t. saturating_scale_u64 (ucast t)),
      ticks_less = (\<lambda>a b. a < b)\<rparr>"

definition Ticks16 :: "u16 Ticks" where
  "Ticks16 =
     \<lparr>ticks_from_u32 = (\<lambda>v. ucast (v AND 0xFFFF)), ticks_into_u32 = (\<lambda>t. ucast t),
      ticks_wrapping_add = (\<lambda>a b. a + b), ticks_wrapping_sub = (\<lambda>a b. a - b),
      ticks_within_range = (\<lambda>t start end. t - start < end - start),
      ticks_max_value = 0xFFFF, ticks_half_max_value = 1 + 0xFFFF div 2,
      ticks_from_or_max = (\<lambda>val. if val < 0xFFFF then ucast ((ucast val :: u32) AND 0xFFFF) else 0xFFFF),
      ticks_saturating_scale = (\<lambda>t. saturating_scale_u64 (ucast t)),
      ticks_less = (\<lambda>a b. a < b)\<rparr>"

definition Ticks64 :: "u64 Ticks" where
  "Ticks64 =
     \<lparr>ticks_from_u32 = (\<lambda>v. ucast v), ticks_into_u32 = (\<lambda>t. ucast t),
      ticks_wrapping_add = (\<lambda>a b. a + b), ticks_wrapping_sub = (\<lambda>a b. a - b),
      ticks_within_range = (\<lambda>t start end. t - start < end - start),
      ticks_max_value = NOT 0, ticks_half_max_value = 1 + NOT 0 div 2,
      ticks_from_or_max = (\<lambda>val. val),
      ticks_saturating_scale = (\<lambda>t num den. do {
        let product = (if unat t * unat num < 2 ^ 64 then t * ucast num else NOT 0);
        scaled \<leftarrow> chk_div product (ucast den :: u64);
        Some (if scaled < 0xFFFFFFFF then ucast scaled else 0xFFFFFFFF) }),
      ticks_less = (\<lambda>a b. a < b)\<rparr>"

section \<open>Alarms\<close>

text \<open>What a client uses of an alarm in the world \<open>'w\<close>; reading the time may change the world.\<close>

record ('t, 'w) AlarmOps =
  alarm_now :: "'w \<Rightarrow> 't \<times> 'w"
  alarm_set_alarm :: "'t \<Rightarrow> 't \<Rightarrow> 'w \<Rightarrow> 'w"
  alarm_get_alarm :: "'w \<Rightarrow> 't"
  alarm_disarm :: "'w \<Rightarrow> 'w"
  alarm_minimum_dt :: "'w \<Rightarrow> 't"

section \<open>Conversions\<close>

text \<open>\<open>hertz\<close> is the frequency of the counter.\<close>

definition ticks_from_seconds :: "'t Ticks \<Rightarrow> u32 \<Rightarrow> u32 \<Rightarrow> 't" where
  "ticks_from_seconds T hertz s = ticks_from_or_max T (ucast hertz * ucast s)"

definition ticks_from_ms :: "'t Ticks \<Rightarrow> u32 \<Rightarrow> u32 \<Rightarrow> 't" where
  "ticks_from_ms T hertz ms = ticks_from_or_max T (ucast hertz * ucast ms div 1000)"

definition ticks_from_us :: "'t Ticks \<Rightarrow> u32 \<Rightarrow> u32 \<Rightarrow> 't" where
  "ticks_from_us T hertz us = ticks_from_or_max T (ucast hertz * ucast us div 1000000)"

definition ticks_to_seconds :: "'t Ticks \<Rightarrow> u32 \<Rightarrow> 't \<Rightarrow> u32 option" where
  "ticks_to_seconds T hertz tick = ticks_saturating_scale T tick 1 hertz"

definition ticks_to_ms :: "'t Ticks \<Rightarrow> u32 \<Rightarrow> 't \<Rightarrow> u32 option" where
  "ticks_to_ms T hertz tick = ticks_saturating_scale T tick 1000 hertz"

definition ticks_to_us :: "'t Ticks \<Rightarrow> u32 \<Rightarrow> 't \<Rightarrow> u32 option" where
  "ticks_to_us T hertz tick = ticks_saturating_scale T tick 1000000 hertz"

section \<open>The laws of a counter\<close>

text \<open>\<open>tval\<close> is the number a tick value stands for, and \<open>width\<close> the number of bits of the counter.\<close>

locale counter =
  fixes T :: "'t Ticks" and tval :: "'t \<Rightarrow> nat" and width :: nat
  assumes tval_less: "tval t < 2 ^ width"
    and tval_add: "tval (ticks_wrapping_add T a b) = (tval a + tval b) mod 2 ^ width"
    and tval_sub: "tval (ticks_wrapping_sub T a b) = (tval a + 2 ^ width - tval b) mod 2 ^ width"
    and within: "ticks_within_range T t a b \<longleftrightarrow> tval (ticks_wrapping_sub T t a) < tval (ticks_wrapping_sub T b a)"
    and tval_half: "tval (ticks_half_max_value T) * 2 = 2 ^ width"
    and tval_from: "tval (ticks_from_or_max T v) = min (unat v) (2 ^ width - 1)"
begin

lemma sub_elapsed:
  assumes "tval b = (tval a + k) mod 2 ^ width" "k < 2 ^ width"
  shows "tval (ticks_wrapping_sub T b a) = k"
proof -
  have "(tval b + 2 ^ width - tval a) mod 2 ^ width = k"
    using assms tval_less [of a] mod_if [of "tval a + k" "2 ^ width"]
    by (auto simp: mod_if [of "tval b + 2 ^ width - tval a"] le_mod_geq split: if_splits)
  then show ?thesis by (simp add: tval_sub)
qed

text \<open>A deadline \<open>reference + dt\<close> is still ahead exactly if fewer than \<open>dt\<close> ticks have passed since \<open>reference\<close>.\<close>

lemma deadline_ahead_iff:
  assumes "tval now = (tval reference + k) mod 2 ^ width" "k < 2 ^ width"
  shows "ticks_within_range T now reference (ticks_wrapping_add T reference dt) \<longleftrightarrow> k < tval dt"
  using sub_elapsed [OF assms] sub_elapsed [OF tval_add [of reference dt] tval_less [of dt]] by (simp add: within)

end

lemma unat_mult_u32: "unat (ucast (a :: u32) * ucast (b :: u32) :: u64) = unat a * unat b"
proof -
  have "unat a * unat b \<le> (2 ^ 32 - 1) * (2 ^ 32 - 1)"
    using unat_less_2p [of a] unat_less_2p [of b] by (intro mult_le_mono) simp_all
  moreover have "unat (ucast c :: u64) = unat c" for c :: u32
    using unat_less_2p [of c] by (simp add: unsigned_ucast_eq take_bit_nat_eq_self)
  ultimately show ?thesis by (simp add: unat_word_ariths)
qed

text \<open>Conversions to ticks round down and stop at the largest value of the counter.\<close>

context counter
begin

lemma ticks_from_seconds_exact: "tval (ticks_from_seconds T hertz s) = min (unat hertz * unat s) (2 ^ width - 1)"
  by (simp add: ticks_from_seconds_def tval_from unat_mult_u32)

lemma ticks_from_ms_exact: "tval (ticks_from_ms T hertz ms) = min (unat hertz * unat ms div 1000) (2 ^ width - 1)"
  by (simp add: ticks_from_ms_def tval_from unat_mult_u32 unat_div)

lemma ticks_from_us_exact: "tval (ticks_from_us T hertz us) = min (unat hertz * unat us div 1000000) (2 ^ width - 1)"
  by (simp add: ticks_from_us_def tval_from unat_mult_u32 unat_div)

end

lemma unat_sub_mod: "unat (a - b :: 'a::len word) = (unat a + 2 ^ LENGTH('a) - unat b) mod 2 ^ LENGTH('a)"
proof (cases "unat b \<le> unat a")
  case True
  have "unat a - unat b < 2 ^ LENGTH('a)" using unat_less_2p [of a] by linarith
  then have "(unat a - unat b + 2 ^ LENGTH('a)) mod 2 ^ LENGTH('a) = unat a - unat b" by simp
  then show ?thesis using True by (simp add: unat_sub_if')
next
  case False
  then have "unat a + 2 ^ LENGTH('a) - unat b < 2 ^ LENGTH('a)" using unat_less_2p [of a] by linarith
  then show ?thesis using False by (simp add: unat_sub_if' mod_less)
qed

lemma unat_mask_24: "unat ((a :: u32) AND 0xFFFFFF) = unat a mod 2 ^ 24"
proof -
  have "(a AND 0xFFFFFF) = take_bit 24 a" by (simp add: take_bit_eq_mask mask_eq_exp_minus_1)
  then show ?thesis by (simp add: take_bit_eq_mod unat_mod)
qed

lemma from_or_max_min:
  assumes "unat (m :: 'b::len word) = 2 ^ w - 1" "unat (m64 :: u64) = 2 ^ w - 1" "w \<le> LENGTH('b)" "LENGTH('b) \<le> 64"
  shows "unat (if v < m64 then ucast v else m) = min (unat v) (2 ^ w - 1)"
proof (cases "v < m64")
  case True
  then have less: "unat v < 2 ^ w - 1" using assms(2) by (simp add: word_less_nat_alt)
  also have "\<dots> < 2 ^ LENGTH('b)" using power_increasing [OF assms(3), of "2 :: nat"] by (auto intro: less_le_trans)
  finally have "unat (ucast v :: 'b word) = unat v" by (simp add: unsigned_ucast_eq take_bit_nat_eq_self)
  then show ?thesis using True less by simp
next
  case False
  then show ?thesis using assms by (simp add: word_less_nat_alt not_less)
qed

lemma low_16: "(0xFFFF :: u32) = mask 16"
  by (simp add: mask_eq_exp_minus_1)

lemma sub_mod_dvd:
  assumes "b < m * q" "0 < m"
  shows "(a + m * q - b) mod m = (a mod m + m - b mod m) mod (m :: nat)"
proof -
  have "b div m < q" using assms(1) by (simp add: less_mult_imp_div_less mult.commute)
  then obtain r where r: "q = b div m + 1 + r" using less_iff_Suc_add by force
  have cancel: "m * A + x + m * (B + 1 + r) - (m * B + y) = x + m - y + m * (A + r)" if "y < m" for A B x y
    using that by (simp add: algebra_simps)
  have "a + m * q - b = a mod m + m - b mod m + m * (a div m + r)"
    using cancel [OF mod_less_divisor [OF assms(2), of b], of "a div m" "a mod m" "b div m"] r by simp
  then show ?thesis by simp
qed

lemmas unat_bounds = unat_less_2p [where 'a = 32, simplified] unat_less_2p [where 'a = 16, simplified]
  unat_less_2p [where 'a = 64, simplified]

interpretation ticks32: counter Ticks32 unat 32
proof
  show "unat (ticks_from_or_max Ticks32 v) = min (unat v) (2 ^ 32 - 1)" for v
    using from_or_max_min [of "0xFFFFFFFF :: u32" 32 "0xFFFFFFFF" v] by (simp add: Ticks32_def)
qed (auto simp: Ticks32_def unat_bounds unat_word_ariths unat_sub_mod word_less_nat_alt)

lemma mod_24: "(x :: nat) mod 4294967296 mod 16777216 = x mod 16777216"
  by (rule mod_mod_cancel) simp

interpretation ticks24: counter Ticks24 "\<lambda>t. unat t mod 2 ^ 24" 24
proof
  show "unat (ticks_from_or_max Ticks24 v) mod 2 ^ 24 = min (unat v) (2 ^ 24 - 1)" for v
    using from_or_max_min [of "0xFFFFFF :: u32" 24 "0xFFFFFF" v] by (simp add: Ticks24_def)
  show "unat (ticks_wrapping_sub Ticks24 a b) mod 2 ^ 24 = (unat a mod 2 ^ 24 + 2 ^ 24 - unat b mod 2 ^ 24) mod 2 ^ 24" for a b
  proof -
    have "(unat a + 2 ^ 32 - unat b) mod 2 ^ 32 mod 2 ^ 24 = (unat a + 2 ^ 32 - unat b) mod (2 ^ 24 :: nat)"
      by (simp add: mod_24)
    moreover have "(unat a + 2 ^ 32 - unat b) mod 2 ^ 24 = (unat a mod 2 ^ 24 + 2 ^ 24 - unat b mod 2 ^ 24) mod (2 ^ 24 :: nat)"
      using sub_mod_dvd [of "unat b" "2 ^ 24" "2 ^ 8" "unat a"] unat_bounds(1) [of b] by simp
    ultimately show ?thesis by (simp add: Ticks24_def unat_mask_24 unat_sub_mod)
  qed
qed (auto simp: Ticks24_def unat_mask_24 unat_word_ariths word_less_nat_alt mod_24 mod_add_eq)

interpretation ticks16: counter Ticks16 unat 16
proof
  show "unat (ticks_from_or_max Ticks16 v) = min (unat v) (2 ^ 16 - 1)" for v
  proof -
    have "(ucast ((ucast v :: u32) AND 0xFFFF) :: u16) = ucast v"
      unfolding low_16 by (rule bit_word_eqI) (auto simp: bit_simps)
    then show ?thesis using from_or_max_min [of "0xFFFF :: u16" 16 "0xFFFF" v]
      by (simp add: Ticks16_def split: if_splits)
  qed
qed (auto simp: Ticks16_def unat_bounds unat_word_ariths unat_sub_mod word_less_nat_alt)

interpretation ticks64: counter Ticks64 unat 64
proof
  show "unat (ticks_from_or_max Ticks64 v) = min (unat v) (2 ^ 64 - 1)" for v
    using unat_less_2p [of v] by (simp add: Ticks64_def min_def)
qed (auto simp: Ticks64_def unat_bounds unat_word_ariths unat_sub_mod word_less_nat_alt)

end
