(* ===== verification/Scheduler.thy ===== *)
theory Scheduler
  imports KernelState LinkedList Ticks
begin

text \<open>
  The schedulers of \<open>kernel/src/scheduler\<close>: round robin, cooperative, priority and the multilevel
  feedback queue. A node of a scheduler's list is named by the index of the process slot that it points
  to; the lists are the linked lists of \<open>LinkedList\<close>. The decisions are functions of the scheduler's
  own state and of the processes; \<open>None\<close> is a panic or a loop that does not end.
\<close>

section \<open>Decisions\<close>

datatype SchedulingDecision = RunProcess ProcessId "u32 option" | TrySleep

text \<open>What a scheduler sees through a node: whether its slot holds a process that is ready.\<close>

definition slot_ready :: "('hw, 'cfg, 'w, 'ss) System \<Rightarrow> nat \<Rightarrow> bool" where
  "slot_ready sys i = (case slot i sys of None \<Rightarrow> False | Some p \<Rightarrow> ready p)"

section \<open>Round robin\<close>

record RoundRobinSched =
  time_remaining :: u32
  rr_processes :: "nat List"
  last_rescheduled :: bool

definition DEFAULT_TIMESLICE_US :: u32 where
  "DEFAULT_TIMESLICE_US = 10000"

definition RoundRobinSched_new :: "(nat \<Rightarrow> nat option) \<Rightarrow> RoundRobinSched" where
  "RoundRobinSched_new links =
     \<lparr>time_remaining = DEFAULT_TIMESLICE_US, rr_processes = List_new links, last_rescheduled = False\<rparr>"

text \<open>\<open>RoundRobinComponent::finalize\<close>: one node for each slot.\<close>

definition RoundRobinComponent_finalize :: "nat \<Rightarrow> (nat \<Rightarrow> nat option) \<Rightarrow> RoundRobinSched" where
  "RoundRobinComponent_finalize num_procs links =
     fold (\<lambda>i s. s\<lparr>rr_processes := push_head i (rr_processes s)\<rparr>) [0..<num_procs] (RoundRobinSched_new links)"

text \<open>Sending the node at the head to the tail.\<close>

definition rotate_list :: "'n List \<Rightarrow> 'n List option" where
  "rotate_list l = (case pop_head l of (node, l) \<Rightarrow> do { node \<leftarrow> node; push_tail node l })"

text \<open>The search for the first ready node, which ends when it meets the node it started with.\<close>

datatype search_result = Found nat | FullCircle | NoNodes

partial_function (option) ready_loop ::
    "(nat \<Rightarrow> bool) \<Rightarrow> nat option \<Rightarrow> nat List \<Rightarrow> (search_result \<times> nat List) option" where
  "ready_loop rdy first_head l =
     (case head l of
        None \<Rightarrow> Some (NoNodes, l)
      | Some node \<Rightarrow>
          if first_head = Some node then Some (FullCircle, l)
          else if rdy node then Some (Found node, l)
          else do {
            l \<leftarrow> rotate_list l;
            ready_loop rdy (case first_head of None \<Rightarrow> Some node | Some f \<Rightarrow> Some f) l
          })"

declare ready_loop.simps [code]

definition rr_next ::
    "RoundRobinSched \<Rightarrow> ('hw, 'cfg, 'w, 'ss) System \<Rightarrow> (SchedulingDecision \<times> RoundRobinSched) option" where
  "rr_next s sys = do {
     (r, l) \<leftarrow> ready_loop (slot_ready sys) None (rr_processes s);
     let s = s\<lparr>rr_processes := l\<rparr>;
     if r = FullCircle then Some (TrySleep, s)
     else do {
       let (timeslice, s) =
         (if last_rescheduled s then (time_remaining s, s)
          else (DEFAULT_TIMESLICE_US, s\<lparr>time_remaining := DEFAULT_TIMESLICE_US\<rparr>));
       _ \<leftarrow> (if timeslice \<noteq> 0 then Some () else None);
       (case r of
          Found i \<Rightarrow> do { p \<leftarrow> slot i sys; Some (RunProcess (process_id p) (Some timeslice), s) }
        | _ \<Rightarrow> None)
     }
   }"

definition rr_result :: "StoppedExecutingReason \<Rightarrow> u32 option \<Rightarrow> RoundRobinSched \<Rightarrow> RoundRobinSched option" where
  "rr_result result execution_time_us s = do {
     execution_time_us \<leftarrow> execution_time_us;
     let (reschedule, s) =
       (if result = KernelPreemption then
          (if time_remaining s > execution_time_us
           then (True, s\<lparr>time_remaining := time_remaining s - execution_time_us\<rparr>)
           else (False, s))
        else (False, s));
     let s = s\<lparr>last_rescheduled := reschedule\<rparr>;
     if \<not> reschedule then do { l \<leftarrow> rotate_list (rr_processes s); Some (s\<lparr>rr_processes := l\<rparr>) }
     else Some s
   }"

section \<open>Cooperative\<close>

record CooperativeSched =
  coop_processes :: "nat List"

definition coop_next ::
    "CooperativeSched \<Rightarrow> ('hw, 'cfg, 'w, 'ss) System \<Rightarrow> (SchedulingDecision \<times> CooperativeSched) option" where
  "coop_next s sys = do {
     (r, l) \<leftarrow> ready_loop (slot_ready sys) None (coop_processes s);
     let s = s\<lparr>coop_processes := l\<rparr>;
     (case r of
        FullCircle \<Rightarrow> Some (TrySleep, s)
      | Found i \<Rightarrow> do { p \<leftarrow> slot i sys; Some (RunProcess (process_id p) None, s) }
      | NoNodes \<Rightarrow> None)
   }"

definition coop_result :: "StoppedExecutingReason \<Rightarrow> u32 option \<Rightarrow> CooperativeSched \<Rightarrow> CooperativeSched option" where
  "coop_result result us s =
     (if result \<noteq> KernelPreemption then do { l \<leftarrow> rotate_list (coop_processes s); Some (s\<lparr>coop_processes := l\<rparr>) }
      else Some s)"

section \<open>Priority\<close>

record PrioritySched =
  running :: "ProcessId option"

definition first_ready :: "('hw, 'cfg, 'w, 'ss) System \<Rightarrow> ProcessId option" where
  "first_ready sys =
     Option.bind (List.find (slot_ready sys) (get_process_iter sys)) (\<lambda>i. map_option process_id (slot i sys))"

definition prio_next ::
    "PrioritySched \<Rightarrow> ('hw, 'cfg, 'w, 'ss) System \<Rightarrow> (SchedulingDecision \<times> PrioritySched) option" where
  "prio_next s sys =
     (let nxt = first_ready sys; s = s\<lparr>running := nxt\<rparr> in
      Some (case nxt of None \<Rightarrow> TrySleep | Some nxt \<Rightarrow> RunProcess nxt None, s))"

text \<open>\<open>kernel_work\<close>: there are pending interrupts or deferred calls.\<close>

definition prio_continue_process :: "bool \<Rightarrow> PrioritySched \<Rightarrow> ('hw, 'cfg, 'w, 'ss) System \<Rightarrow> bool" where
  "prio_continue_process kernel_work s sys \<longleftrightarrow>
     \<not> (kernel_work \<or>
        (case first_ready sys of
           None \<Rightarrow> False
         | Some ready_proc \<Rightarrow>
             (case running s of None \<Rightarrow> False | Some r \<Rightarrow> pid_index ready_proc < pid_index r)))"

definition prio_result :: "StoppedExecutingReason \<Rightarrow> u32 option \<Rightarrow> PrioritySched \<Rightarrow> PrioritySched option" where
  "prio_result result us s = Some (s\<lparr>running := None\<rparr>)"

section \<open>Multilevel feedback queue\<close>

text \<open>The three lists share the link cells of the nodes.\<close>

record 't MLFQSched =
  mlfq_heads :: "nat option list"
  mlfq_links :: "nat \<Rightarrow> nat option"
  us_used_this_queue :: "nat \<Rightarrow> u32"
  next_reset :: 't
  last_reset_check :: 't
  last_timeslice :: u32
  last_queue_idx :: nat

definition PRIORITY_REFRESH_PERIOD_MS :: u32 where
  "PRIORITY_REFRESH_PERIOD_MS = 5000"

definition NUM_QUEUES :: nat where
  "NUM_QUEUES = 3"

definition MLFQSched_new :: "'t Ticks \<Rightarrow> (nat \<Rightarrow> nat option) \<Rightarrow> 't MLFQSched" where
  "MLFQSched_new T links =
     \<lparr>mlfq_heads = [None, None, None], mlfq_links = links, us_used_this_queue = (\<lambda>_. 0),
      next_reset = ticks_from_u32 T 0, last_reset_check = ticks_from_u32 T 0, last_timeslice = 0, last_queue_idx = 0\<rparr>"

definition mlfq_queue :: "nat \<Rightarrow> 't MLFQSched \<Rightarrow> nat List" where
  "mlfq_queue k s = \<lparr>head_link = mlfq_heads s ! k, next_link = mlfq_links s\<rparr>"

definition set_mlfq_queue :: "nat \<Rightarrow> nat List \<Rightarrow> 't MLFQSched \<Rightarrow> 't MLFQSched" where
  "set_mlfq_queue k l s = s\<lparr>mlfq_heads := (mlfq_heads s)[k := head_link l], mlfq_links := next_link l\<rparr>"

definition get_timeslice_us :: "nat \<Rightarrow> u32 option" where
  "get_timeslice_us queue_idx =
     (if queue_idx = 0 then Some 10000
      else if queue_idx = 1 then Some 20000
      else if queue_idx = 2 then Some 50000
      else None)"

definition redeem_queue :: "nat \<Rightarrow> 't MLFQSched \<Rightarrow> 't MLFQSched option" where
  "redeem_queue k s =
     (case pop_head (mlfq_queue k s) of
        (Some node, l) \<Rightarrow>
          let s = set_mlfq_queue k l s in
          do { l \<leftarrow> push_tail node (mlfq_queue 0 s); Some (set_mlfq_queue 0 l s) }
      | (None, l) \<Rightarrow> Some (set_mlfq_queue k l s))"

definition redeem_all_procs :: "'t MLFQSched \<Rightarrow> 't MLFQSched option" where
  "redeem_all_procs s = do { s \<leftarrow> redeem_queue 1 s; redeem_queue 2 s }"

partial_function (option) bring_to_head :: "'n \<Rightarrow> 'n List \<Rightarrow> 'n List option" where
  "bring_to_head n l =
     (case pop_head l of
        (Some node, l) \<Rightarrow>
          if node = n then Some (push_head node l) else do { l \<leftarrow> push_tail node l; bring_to_head n l }
      | (None, l) \<Rightarrow> bring_to_head n l)"

declare bring_to_head.simps [code]

fun next_ready_from ::
    "(nat \<Rightarrow> bool) \<Rightarrow> nat list \<Rightarrow> 't MLFQSched \<Rightarrow> (nat option \<times> nat \<times> 't MLFQSched) option" where
  "next_ready_from rdy [] s = Some (None, 0, s)"
| "next_ready_from rdy (idx # rest) s = do {
     nxt \<leftarrow> iter_find rdy (mlfq_links s) (mlfq_heads s ! idx);
     (case nxt of
        None \<Rightarrow> next_ready_from rdy rest s
      | Some n \<Rightarrow> do { l \<leftarrow> bring_to_head n (mlfq_queue idx s); Some (Some n, idx, set_mlfq_queue idx l s) })
   }"

definition get_next_ready_process_node ::
    "(nat \<Rightarrow> bool) \<Rightarrow> 't MLFQSched \<Rightarrow> (nat option \<times> nat \<times> 't MLFQSched) option" where
  "get_next_ready_process_node rdy s = next_ready_from rdy [0..<NUM_QUEUES] s"

definition mlfq_next ::
    "'t Ticks \<Rightarrow> u32 \<Rightarrow> 't \<Rightarrow> 't MLFQSched \<Rightarrow> ('hw, 'cfg, 'w, 'ss) System \<Rightarrow>
      (SchedulingDecision \<times> 't MLFQSched) option" where
  "mlfq_next T hertz now s sys = do {
     s \<leftarrow> (if \<not> ticks_within_range T now (last_reset_check s) (next_reset s)
           then redeem_all_procs
             (s\<lparr>next_reset := ticks_wrapping_add T now (ticks_from_ms T hertz PRIORITY_REFRESH_PERIOD_MS)\<rparr>)
           else Some s);
     let s = s\<lparr>last_reset_check := now\<rparr>;
     (node, queue_idx, s) \<leftarrow> get_next_ready_process_node (slot_ready sys) s;
     (case node of
        None \<Rightarrow> Some (TrySleep, s)
      | Some i \<Rightarrow> do {
          full \<leftarrow> get_timeslice_us queue_idx;
          timeslice \<leftarrow> chk_sub full (us_used_this_queue s i);
          p \<leftarrow> slot i sys;
          Some (RunProcess (process_id p) (Some timeslice),
                s\<lparr>last_queue_idx := queue_idx, last_timeslice := timeslice\<rparr>)
        })
   }"

definition mlfq_result :: "StoppedExecutingReason \<Rightarrow> u32 option \<Rightarrow> 't MLFQSched \<Rightarrow> 't MLFQSched option" where
  "mlfq_result result execution_time_us s = do {
     execution_time_us \<leftarrow> execution_time_us;
     let queue_idx = last_queue_idx s;
     node \<leftarrow> head (mlfq_queue queue_idx s);
     used \<leftarrow> chk_sub (last_timeslice s) execution_time_us;
     let s = s\<lparr>us_used_this_queue := (us_used_this_queue s)(node := used)\<rparr>;
     let punish = (result = TimesliceExpired);
     let s = (if punish then s\<lparr>us_used_this_queue := (us_used_this_queue s)(node := 0)\<rparr> else s);
     let next_queue = (if punish then if queue_idx = NUM_QUEUES - 1 then queue_idx else queue_idx + 1 else queue_idx);
     let (popped, l) = pop_head (mlfq_queue queue_idx s);
     popped \<leftarrow> popped;
     let s = set_mlfq_queue queue_idx l s;
     l \<leftarrow> push_tail popped (mlfq_queue next_queue s);
     Some (set_mlfq_queue next_queue l s)
   }"

definition mlfq_continue_process :: bool where
  "mlfq_continue_process = True"

section \<open>Lemmas\<close>

subsection \<open>The search for a ready node\<close>

lemma rotate_list_holds: "holds l (x # xs) \<Longrightarrow> \<exists>l'. rotate_list l = Some l' \<and> holds l' (xs @ [x])"
  using ll.rotate_head [of l x xs] by (auto simp: rotate_list_def)

lemma ready_loop_found:
  assumes "holds l (as @ x # bs @ v # vs)" "list_all (\<lambda>a. \<not> rdy a) as" "rdy x"
  shows "\<exists>l'. ready_loop rdy (Some v) l = Some (Found x, l') \<and> holds l' (x # bs @ v # vs @ as)"
  using assms
proof (induction as arbitrary: l vs)
  case Nil
  then have "head l = Some x" "x \<noteq> v" by (simp_all add: head_holds) (auto simp: holds_def)
  then show ?case using Nil by (subst ready_loop.simps) auto
next
  case (Cons a as)
  then have "head l = Some a" "a \<noteq> v" by (simp_all add: head_holds) (auto simp: holds_def)
  moreover obtain l1 where l1: "rotate_list l = Some l1" "holds l1 (as @ x # bs @ v # vs @ [a])"
    using rotate_list_holds [of l a "as @ x # bs @ v # vs"] Cons(2) by auto
  ultimately show ?case using Cons(1) [OF l1(2)] Cons(3,4) by (subst ready_loop.simps) auto
qed

lemma ready_loop_circle:
  assumes "holds l (as @ v # vs)" "list_all (\<lambda>a. \<not> rdy a) as"
  shows "\<exists>l'. ready_loop rdy (Some v) l = Some (FullCircle, l') \<and> holds l' (v # vs @ as)"
  using assms
proof (induction as arbitrary: l vs)
  case Nil
  then have "head l = Some v" by (simp add: head_holds)
  then show ?case using Nil by (subst ready_loop.simps) auto
next
  case (Cons a as)
  then have "head l = Some a" "a \<noteq> v" by (simp_all add: head_holds) (auto simp: holds_def)
  moreover obtain l1 where l1: "rotate_list l = Some l1" "holds l1 (as @ v # vs @ [a])"
    using rotate_list_holds [of l a "as @ v # vs"] Cons(2) by auto
  ultimately show ?case using Cons(1) [OF l1(2)] Cons(3) by (subst ready_loop.simps) auto
qed

lemma ready_loop_start:
  assumes "holds l (x # xs)" "\<not> rdy x"
  shows "\<exists>l1. ready_loop rdy None l = ready_loop rdy (Some x) l1 \<and> holds l1 (xs @ [x])"
proof -
  obtain l1 where "rotate_list l = Some l1" "holds l1 (xs @ [x])" using rotate_list_holds [OF assms(1)] by auto
  then show ?thesis using assms by (subst ready_loop.simps) (auto simp: head_holds)
qed

text \<open>On a list of distinct nodes the search finds the first ready one and rotates it to the head.\<close>

lemma ready_loop_first:
  assumes "holds l (as @ x # bs)" "list_all (\<lambda>a. \<not> rdy a) as" "rdy x"
  shows "\<exists>l'. ready_loop rdy None l = Some (Found x, l') \<and> holds l' (x # bs @ as)"
proof (cases as)
  case Nil
  then show ?thesis using assms by (subst ready_loop.simps) (simp add: head_holds)
next
  case (Cons a as')
  then obtain l1 where "ready_loop rdy None l = ready_loop rdy (Some a) l1" "holds l1 (as' @ x # bs @ [a])"
    using ready_loop_start [of l a "as' @ x # bs" rdy] assms by auto
  then show ?thesis using ready_loop_found [of l1 as' x bs a "[]" rdy] Cons assms by auto
qed

lemma ready_loop_none:
  assumes "holds l xs" "xs \<noteq> []" "list_all (\<lambda>a. \<not> rdy a) xs"
  shows "\<exists>l'. ready_loop rdy None l = Some (FullCircle, l') \<and> holds l' xs"
proof -
  obtain x xs' where xs: "xs = x # xs'" using assms(2) by (cases xs) auto
  then obtain l1 where "ready_loop rdy None l = ready_loop rdy (Some x) l1" "holds l1 (xs' @ [x])"
    using ready_loop_start [of l x xs' rdy] assms by auto
  then show ?thesis using ready_loop_circle [of l1 xs' x "[]" rdy] xs assms by auto
qed

subsection \<open>Round robin\<close>

definition rr_inv :: "RoundRobinSched \<Rightarrow> nat list \<Rightarrow> bool" where
  "rr_inv s xs \<longleftrightarrow>
     holds (rr_processes s) xs \<and> xs \<noteq> [] \<and>
     (last_rescheduled s \<longrightarrow> 0 < time_remaining s \<and> time_remaining s \<le> DEFAULT_TIMESLICE_US)"

text \<open>The time that the process at the head may still run.\<close>

definition rr_left :: "RoundRobinSched \<Rightarrow> nat" where
  "rr_left s = (if last_rescheduled s then unat (time_remaining s) else unat DEFAULT_TIMESLICE_US)"

lemma rr_left_bounds: "rr_inv s xs \<Longrightarrow> 0 < rr_left s \<and> rr_left s \<le> 10000"
  by (auto simp: rr_inv_def rr_left_def DEFAULT_TIMESLICE_US_def word_less_nat_alt word_le_nat_alt)

lemma slot_readyE: "slot_ready sys i \<Longrightarrow> (\<And>p. slot i sys = Some p \<Longrightarrow> ready p \<Longrightarrow> thesis) \<Longrightarrow> thesis"
  by (auto simp: slot_ready_def split: option.splits)

lemma rr_next_found:
  assumes "rr_inv s (as @ x # bs)" "list_all (\<lambda>a. \<not> slot_ready sys a) as" "slot x sys = Some p" "ready p"
  shows "\<exists>t s'. rr_next s sys = Some (RunProcess (process_id p) (Some t), s') \<and> holds (rr_processes s') (x # bs @ as) \<and>
    unat t = rr_left s \<and> time_remaining s' = t"
proof -
  obtain l' where "ready_loop (slot_ready sys) None (rr_processes s) = Some (Found x, l')" "holds l' (x # bs @ as)"
    using ready_loop_first [of "rr_processes s" as x bs "slot_ready sys"] assms by (auto simp: rr_inv_def slot_ready_def)
  then show ?thesis using assms(1,3)
    by (auto simp: rr_next_def rr_inv_def rr_left_def DEFAULT_TIMESLICE_US_def)
qed

lemma rr_next_asleep:
  assumes "rr_inv s xs" "list_all (\<lambda>a. \<not> slot_ready sys a) xs"
  shows "\<exists>s'. rr_next s sys = Some (TrySleep, s') \<and> rr_inv s' xs \<and> rr_left s' = rr_left s"
proof -
  obtain l' where "ready_loop (slot_ready sys) None (rr_processes s) = Some (FullCircle, l')" "holds l' xs"
    using ready_loop_none [of "rr_processes s" xs "slot_ready sys"] assms by (auto simp: rr_inv_def)
  then show ?thesis using assms(1) by (auto simp: rr_next_def rr_inv_def rr_left_def)
qed

text \<open>After a turn the head keeps its place with less time left, or goes to the back.\<close>

lemma rr_result_step:
  assumes "holds (rr_processes s) (x # xs)" "0 < time_remaining s" "time_remaining s \<le> DEFAULT_TIMESLICE_US"
  shows "\<exists>s'. rr_result reason (Some t) s = Some s' \<and>
    (reason = KernelPreemption \<and> rr_inv s' (x # xs) \<and> rr_left s' = unat (time_remaining s) - unat t \<and>
       unat t < unat (time_remaining s) \<or>
     rr_inv s' (xs @ [x]) \<and> rr_left s' = 10000)"
proof (cases "reason = KernelPreemption \<and> time_remaining s > t")
  case True
  then have "unat (time_remaining s - t) = unat (time_remaining s) - unat t" "unat t < unat (time_remaining s)"
    by (simp_all add: unat_sub_if' word_less_nat_alt)
  then show ?thesis using True assms
    by (auto simp: rr_result_def rr_inv_def rr_left_def word_less_nat_alt word_le_nat_alt)
next
  case False
  obtain l' where "rotate_list (rr_processes s) = Some l'" "holds l' (xs @ [x])"
    using rotate_list_holds [OF assms(1)] by auto
  then show ?thesis using False
    by (auto simp: rr_result_def rr_inv_def rr_left_def DEFAULT_TIMESLICE_US_def)
qed

text \<open>
  The scheduler over several rounds of the kernel loop. Of each round the processes, the reason why the
  process stopped and the time it took are given; the result is the list of the processes that ran.
\<close>

fun rr_turns ::
    "RoundRobinSched \<Rightarrow> (('hw, 'cfg, 'w, 'ss) System \<times> StoppedExecutingReason \<times> u32) list \<Rightarrow>
      (ProcessId list \<times> RoundRobinSched) option" where
  "rr_turns s [] = Some ([], s)"
| "rr_turns s ((sys, reason, t) # ts) = do {
     (d, s) \<leftarrow> rr_next s sys;
     (case d of
        TrySleep \<Rightarrow> rr_turns s ts
      | RunProcess pid _ \<Rightarrow> do {
          s \<leftarrow> rr_result reason (Some t) s;
          (ps, s) \<leftarrow> rr_turns s ts;
          Some (pid # ps, s)
        })
   }"

lemma rr_turn_time:
  "rr_inv s xs \<Longrightarrow> unat (t :: u32) = rr_left s \<Longrightarrow> 0 < t \<and> t \<le> DEFAULT_TIMESLICE_US"
  using rr_left_bounds [of s xs] by (simp add: word_less_nat_alt word_le_nat_alt DEFAULT_TIMESLICE_US_def)

lemma rr_turn:
  assumes "rr_inv s (as @ x # bs)" "list_all (\<lambda>a. \<not> slot_ready sys a) as" "slot x sys = Some p" "ready p"
  shows "\<exists>s1 s2 t1. rr_next s sys = Some (RunProcess (process_id p) t1, s1) \<and> rr_result reason (Some t) s1 = Some s2 \<and>
    (reason = KernelPreemption \<and> rr_inv s2 (x # bs @ as) \<and> rr_left s2 = rr_left s - unat t \<and> unat t < rr_left s \<or>
     rr_inv s2 (bs @ as @ [x]) \<and> rr_left s2 = 10000)"
proof -
  obtain t1 s1 where s1: "rr_next s sys = Some (RunProcess (process_id p) (Some t1), s1)"
      "holds (rr_processes s1) (x # bs @ as)" "unat t1 = rr_left s" "time_remaining s1 = t1"
    using rr_next_found [OF assms] by auto
  then show ?thesis
    using rr_result_step [OF s1(2), of reason t] rr_turn_time [OF assms(1) s1(3)] by auto
qed

lemma rr_turns_return:
  "rr_inv s xs \<Longrightarrow> \<exists>ps s'. rr_turns s ts = Some (ps, s')"
proof (induction ts arbitrary: s xs)
  case (Cons r ts)
  obtain sys reason t where r: "r = (sys, reason, t)" by (cases r) auto
  show ?case
  proof (cases "list_all (\<lambda>a. \<not> slot_ready sys a) xs")
    case True
    then show ?thesis using rr_next_asleep [OF Cons(2) True] Cons(1) r by fastforce
  next
    case False
    then obtain as x bs where xs: "xs = as @ x # bs" "slot_ready sys x" "list_all (\<lambda>a. \<not> slot_ready sys a) as"
      using split_list_first_prop [of xs "slot_ready sys"] by (auto simp: list_all_iff)
    then obtain p where "slot x sys = Some p" "ready p" by (elim slot_readyE)
    from rr_turn [OF Cons(2) [unfolded xs(1)] xs(3) this, of reason t] show ?thesis
      using Cons(1) r by fastforce
  qed
qed simp

text \<open>
  A process that stays ready is run before the rounds exceed the time slices of the nodes before it:
  each round that runs another process brings it nearer to the head or uses up time of the head.
\<close>

lemma split_before:
  assumes "as @ i # bs = as1 @ x # rest" "x \<noteq> i" "i \<notin> set as1"
  shows "\<exists>as2. as = as1 @ x # as2 \<and> rest = as2 @ i # bs"
proof -
  consider us where "as = as1 @ us" "us @ i # bs = x # rest" | us where "as1 = as @ us" "i # bs = us @ x # rest"
    using assms(1) by (auto simp: append_eq_append_conv2)
  then show ?thesis
  proof cases
    case 1
    then show ?thesis using assms(2) by (cases us) auto
  next
    case 2
    then show ?thesis using assms(2,3) by (cases us) auto
  qed
qed

lemma rr_turns_Cons:
  "rr_next s sys = Some (RunProcess pid t1, s1) \<Longrightarrow> rr_result reason (Some t) s1 = Some s2 \<Longrightarrow>
   rr_turns s2 ts = Some (ps, s') \<Longrightarrow> rr_turns s ((sys, reason, t) # ts) = Some (pid # ps, s')"
  by simp

lemma rr_runs_ready:
  assumes "rr_inv s (as @ i # bs)" "length as * 10000 + rr_left s \<le> length ts"
    and "\<And>sys reason t. (sys, reason, t) \<in> set ts \<Longrightarrow> slot_ready sys i \<and> (reason = KernelPreemption \<longrightarrow> 0 < t)"
  shows "\<exists>ps s' sys p. rr_turns s ts = Some (ps, s') \<and> sys \<in> fst ` set ts \<and> slot i sys = Some p \<and> process_id p \<in> set ps"
  using assms
proof (induction ts arbitrary: s as bs)
  case Nil
  then show ?case using rr_left_bounds [OF Nil(1)] by simp
next
  case (Cons r ts)
  obtain sys reason t where r: "r = (sys, reason, t)" by (cases r) auto
  then have i: "slot_ready sys i" "reason = KernelPreemption \<longrightarrow> 0 < t" using Cons(4) [of sys reason t] by simp_all
  obtain as1 x rest where x: "as @ i # bs = as1 @ x # rest" "slot_ready sys x" "list_all (\<lambda>a. \<not> slot_ready sys a) as1"
    using split_list_first_prop [of "as @ i # bs" "slot_ready sys"] i(1) by (auto simp: list_all_iff)
  obtain p where p: "slot x sys = Some p" "ready p" using x(2) by (elim slot_readyE)
  obtain s1 s2 t1 where turn: "rr_next s sys = Some (RunProcess (process_id p) t1, s1)" "rr_result reason (Some t) s1 = Some s2"
      "reason = KernelPreemption \<and> rr_inv s2 (x # rest @ as1) \<and> rr_left s2 = rr_left s - unat t \<and> unat t < rr_left s \<or>
       rr_inv s2 (rest @ as1 @ [x]) \<and> rr_left s2 = 10000"
    using rr_turn [OF Cons(2) [unfolded x(1)] x(3) p, of reason t] by auto
  show ?case
  proof (cases "x = i")
    case True
    obtain ps s' where "rr_turns s2 ts = Some (ps, s')" using turn(3) rr_turns_return by metis
    from rr_turns_Cons [OF turn(1,2) this] show ?thesis
      unfolding r using p(1) True by (intro exI [of _ "process_id p # ps"] exI [of _ s'] exI [of _ sys] exI [of _ p]) simp
  next
    case False
    have "i \<notin> set as1" using i(1) x(3) by (auto simp: list_all_iff)
    then obtain as2 where as2: "as = as1 @ x # as2" "rest = as2 @ i # bs"
      using split_before [OF x(1)] False by auto
    have t: "0 < unat t" if "reason = KernelPreemption" using i(2) that by (simp add: word_less_nat_alt)
    have later: "slot_ready sys i \<and> (reason = KernelPreemption \<longrightarrow> 0 < t)" if "(sys, reason, t) \<in> set ts" for sys reason t
      by (rule Cons(4)) (simp add: that)
    have left: "0 < rr_left s" using rr_left_bounds [OF Cons(2)] by simp
    have "\<exists>as3 bs3. rr_inv s2 (as3 @ i # bs3) \<and> length as3 * 10000 + rr_left s2 \<le> length ts"
      using turn(3)
    proof
      assume "reason = KernelPreemption \<and> rr_inv s2 (x # rest @ as1) \<and> rr_left s2 = rr_left s - unat t \<and> unat t < rr_left s"
      then show ?thesis using Cons(3) t as2 by (intro exI [of _ "x # as2"] exI [of _ "bs @ as1"]) simp
    next
      assume "rr_inv s2 (rest @ as1 @ [x]) \<and> rr_left s2 = 10000"
      then show ?thesis using Cons(3) left as2 by (intro exI [of _ as2] exI [of _ "bs @ as1 @ [x]"]) simp
    qed
    then obtain as3 bs3 where as3: "rr_inv s2 (as3 @ i # bs3)" "length as3 * 10000 + rr_left s2 \<le> length ts" by auto
    have "\<exists>ps s' sys p. rr_turns s2 ts = Some (ps, s') \<and> sys \<in> fst ` set ts \<and> slot i sys = Some p \<and> process_id p \<in> set ps"
      by (rule Cons(1) [OF as3 later])
    then obtain ps s' sys' p' where ps: "rr_turns s2 ts = Some (ps, s')" "sys' \<in> fst ` set ts" "slot i sys' = Some p'"
        "process_id p' \<in> set ps"
      by (elim exE conjE)
    show ?thesis
      unfolding r using rr_turns_Cons [OF turn(1,2) ps(1)] ps(2-4)
      by (intro exI [of _ "process_id p # ps"] exI [of _ s'] exI [of _ sys'] exI [of _ p']) simp
  qed
qed

text \<open>The list that a board builds holds every slot once.\<close>

lemma finalize_holds:
  "rr_inv (RoundRobinComponent_finalize n links) (rev [0..<n])" if "0 < n"
proof -
  have "holds (rr_processes (fold (\<lambda>i s. s\<lparr>rr_processes := push_head i (rr_processes s)\<rparr>) [0..<n] (RoundRobinSched_new links))) (rev [0..<n])
     \<and> \<not> last_rescheduled (fold (\<lambda>i s. s\<lparr>rr_processes := push_head i (rr_processes s)\<rparr>) [0..<n] (RoundRobinSched_new links))" for n
    by (induction n) (simp_all add: RoundRobinSched_new_def List_new_def holds_def [of _ "[]"] push_head_holds)
  then show ?thesis using that by (simp add: RoundRobinComponent_finalize_def rr_inv_def)
qed

subsection \<open>Cooperative and priority\<close>

lemma coop_next_found:
  assumes "holds (coop_processes s) (as @ x # bs)" "list_all (\<lambda>a. \<not> slot_ready sys a) as" "slot x sys = Some p" "ready p"
  shows "\<exists>s'. coop_next s sys = Some (RunProcess (process_id p) None, s') \<and> holds (coop_processes s') (x # bs @ as)"
proof -
  obtain l' where "ready_loop (slot_ready sys) None (coop_processes s) = Some (Found x, l')" "holds l' (x # bs @ as)"
    using ready_loop_first [of "coop_processes s" as x bs "slot_ready sys"] assms by (auto simp: slot_ready_def)
  then show ?thesis using assms(3) by (auto simp: coop_next_def)
qed

text \<open>The priority scheduler runs the ready process with the smallest index.\<close>

lemma first_ready_least:
  assumes "first_ready sys = Some pid"
  shows "\<exists>i p. slot i sys = Some p \<and> process_id p = pid \<and> ready p \<and> (\<forall>j < i. \<not> slot_ready sys j)"
proof -
  obtain i p where i: "List.find (slot_ready sys) (get_process_iter sys) = Some i" "slot i sys = Some p" "process_id p = pid"
    using assms by (auto simp: first_ready_def bind_eq_Some_conv)
  let ?xs = "get_process_iter sys"
  obtain k where k: "k < length ?xs" "slot_ready sys i" "i = ?xs ! k" "\<forall>m < k. \<not> slot_ready sys (?xs ! m)"
    using i(1) by (auto simp: find_Some_iff)
  have sorted: "sorted_wrt (<) ?xs" by (simp add: get_process_iter_def sorted_wrt_filter)
  have "\<not> slot_ready sys j" if "j < i" for j
  proof
    assume j: "slot_ready sys j"
    then have "j \<in> set ?xs" by (auto simp: get_process_iter_def slot_ready_def split: option.splits dest: slot_less)
    then obtain m where m: "m < length ?xs" "j = ?xs ! m" by (auto simp: in_set_conv_nth)
    then have "k < m" using k that j by (metis linorder_neqE_nat order_less_irrefl)
    then show False using sorted_wrt_nth_less [OF sorted, of k m] m k that by simp
  qed
  then show ?thesis using i k(2) by (auto simp: slot_ready_def)
qed

lemma first_ready_none: "first_ready sys = None \<longleftrightarrow> (\<forall>i. \<not> slot_ready sys i)"
proof -
  have "slot_ready sys i \<Longrightarrow> i \<in> set (get_process_iter sys) \<and> slot i sys \<noteq> None" for i
    by (auto simp: get_process_iter_def slot_ready_def split: option.splits dest: slot_less)
  moreover have "List.find (slot_ready sys) (get_process_iter sys) = Some i \<Longrightarrow> slot_ready sys i" for i
    by (auto simp: find_Some_iff)
  moreover have "List.find (slot_ready sys) (get_process_iter sys) = None \<Longrightarrow> i \<in> set (get_process_iter sys) \<Longrightarrow> \<not> slot_ready sys i" for i
    by (simp add: find_None_iff)
  ultimately show ?thesis
    unfolding first_ready_def by (cases "List.find (slot_ready sys) (get_process_iter sys)") fastforce+
qed

subsection \<open>Multilevel feedback queue\<close>

text \<open>
  The time that \<open>mlfq_result\<close> records as used is what is left of the slice, and moving a process up
  keeps that record. A process of the lowest queue that ran for less than 40 ms makes the scheduler
  panic once it has been moved up.
\<close>

lemma redeem_lowest:
  assumes "mlfq_heads s = [None, None, Some i]" "mlfq_links s i = None"
  shows "redeem_all_procs s = Some (s\<lparr>mlfq_heads := [Some i, None, None], mlfq_links := (mlfq_links s)(i := None)\<rparr>)"
  using assms
  by (simp add: redeem_all_procs_def redeem_queue_def mlfq_queue_def set_mlfq_queue_def pop_head_def push_tail_def
      push_head_def iter_last.simps [of _ None] ListIterator_next_def)

lemma next_panics:
  assumes "mlfq_heads s = Some i # hs" "mlfq_links s i = None" "rdy i" "10000 < us_used_this_queue s i"
  shows "\<exists>s'. get_next_ready_process_node rdy s = Some (Some i, 0, s') \<and> us_used_this_queue s' = us_used_this_queue s"
proof -
  have "[0..<NUM_QUEUES] = 0 # [1, 2]" by (simp add: NUM_QUEUES_def upt_rec)
  moreover have "iter_find rdy (mlfq_links s) (Some i) = Some (Some i)"
    using assms(3) by (subst iter_find.simps) (simp add: ListIterator_next_def)
  moreover have "bring_to_head i (mlfq_queue 0 s) = Some (push_head i (mlfq_queue 0 s\<lparr>head_link := None\<rparr>))"
    using assms(1,2) by (subst bring_to_head.simps) (simp add: mlfq_queue_def pop_head_def)
  ultimately show ?thesis
    using assms by (simp add: get_next_ready_process_node_def set_mlfq_queue_def)
qed

lemma mlfq_refresh_panics:
  assumes "mlfq_heads s = [None, None, Some i]" "mlfq_links s i = None" "slot_ready sys i"
    "10000 < us_used_this_queue s i" "\<not> ticks_within_range T now (last_reset_check s) (next_reset s)"
  shows "mlfq_next T hertz now s sys = None"
proof -
  let ?s = "s\<lparr>next_reset := ticks_wrapping_add T now (ticks_from_ms T hertz PRIORITY_REFRESH_PERIOD_MS)\<rparr>"
  let ?r = "?s\<lparr>mlfq_heads := [Some i, None, None], mlfq_links := (mlfq_links s)(i := None)\<rparr>"
  have "redeem_all_procs ?s = Some ?r" using redeem_lowest [of ?s i] assms(1,2) by simp
  moreover obtain s' where "get_next_ready_process_node (slot_ready sys) (?r\<lparr>last_reset_check := now\<rparr>) = Some (Some i, 0, s')"
      "us_used_this_queue s' = us_used_this_queue s"
    using next_panics [of "?r\<lparr>last_reset_check := now\<rparr>" i "[None, None]" "slot_ready sys"] assms(3,4) by auto
  ultimately show ?thesis
    using assms(4,5) by (simp add: mlfq_next_def get_timeslice_us_def chk_sub_def word_less_nat_alt word_le_nat_alt)
qed

lemma mlfq_result_lowest:
  assumes "mlfq_heads s = [None, None, Some i]" "mlfq_links s i = None" "last_queue_idx s = 2"
    "last_timeslice s = 50000" "t < 40000" "reason \<noteq> TimesliceExpired"
  shows "\<exists>s'. mlfq_result reason (Some t) s = Some s' \<and> mlfq_heads s' = [None, None, Some i] \<and> mlfq_links s' i = None \<and>
    10000 < us_used_this_queue s' i"
proof -
  have "chk_sub (50000 :: u32) t = Some (50000 - t)" "10000 < 50000 - t"
    using assms(5) by (simp_all add: chk_sub_def word_less_nat_alt word_le_nat_alt unat_sub_if')
  then show ?thesis using assms
    by (simp add: mlfq_result_def mlfq_queue_def set_mlfq_queue_def head_def pop_head_def push_tail_def push_head_def
        iter_last.simps [of _ None] ListIterator_next_def Let_def)
qed

end
