(* ===== verification/GrantUse.thy ===== *)
theory GrantUse
  imports Dispatch
begin

text \<open>
  What a driver does when it uses its grant. Entering a grant, allocating it first where needed, runs
  methods of the process and writes memory, so it is made of the steps of the system as soon as the
  function the driver runs inside is. \<open>grant_wf\<close> are the sizes a declared grant has: the alignment is
  a power of two and the allocation does not come near the size of the address space.
\<close>

definition grant_wf :: "Grant \<Rightarrow> bool" where
  "grant_wf g \<longleftrightarrow>
     (\<exists>k sz. grant_t_align g = 2 ^ k \<and> k < 32 \<and> alloc_size g = Some sz \<and> unat sz + 2 ^ max k 2 \<le> 2 ^ 32)"

lemma new_grant_allocated:
  assumes "allocate_grant chip n d len (2 ^ k) p mc = Some (True, p', mc')" "k < 32" "unat len + 2 ^ max k 1 \<le> 2 ^ 32"
    "proc_ok p mc"
  shows "grant_is_allocated n p' = Some True" "enter_grant n p' = (Inr ptr, q) \<Longrightarrow> leave_grant n q = p'"
proof -
  obtain e base q' where e: "grant_get n p' = Some e" "grant_ptr e = base" "enter_grant n p' = (Inr base, q')"
      "leave_grant n q' = p'" "app_break p \<le> base"
    using enter_new_grant [OF assms(1-3)] by blast
  have "0 < unat (app_break p)" using assms(4) layout_okD [of p] by (auto simp: proc_ok_def layout_ok_def)
  then have "base \<noteq> 0" using e(5) by (auto simp: word_le_nat_alt)
  moreover have "is_running p'" using enter_grant_entered [OF e(3)] by blast
  ultimately show "grant_is_allocated n p' = Some True" using e(1,2) by (simp add: grant_is_allocated_def)
  show "enter_grant n p' = (Inr ptr, q) \<Longrightarrow> leave_grant n q = p'" using e(3,4) by simp
qed

lemma initialize_layout_num:
  "initialize_from_counts ptr u ro rw n m = (l, m') \<Longrightarrow> layout_grant_num l = n"
  by (auto simp: initialize_from_counts_def Let_def)

lemma new_inner_cases:
  assumes "new_inner chip g p mc = Some (r, p', mc')" "grant_wf g" "proc_ok p mc"
  obtains (refused) e where "r = Inl e" "p' = p" "mc' = mc"
  | (there) "r = Inr None" "p' = p" "mc' = mc" "grant_is_allocated (grant_grant_num g) p' = Some True"
  | (full) e where "r = Inl e" "proc_step chip (p, mc) (p', mc')"
  | (fresh) data mc1 m where "r = Inr (Some data)" "proc_step chip (p, mc) (p', mc1)" "mc' = mc1\<lparr>memory := m\<rparr>"
      "grant_is_allocated (grant_grant_num g) p' = Some True"
proof -
  obtain k sz where g: "grant_t_align g = 2 ^ k" "k < 32" "alloc_size g = Some sz" "unat sz + 2 ^ max k 2 \<le> 2 ^ 32"
    using assms(2) by (auto simp: grant_wf_def)
  have k2: "max k 2 < 32" "max (max k 2) 1 = max k 2" using g(2) by auto
  let ?n = "grant_grant_num g"
  show ?thesis
  proof (cases "grant_is_allocated ?n p")
    case None
    then show ?thesis using assms(1) refused by (auto simp: new_inner_def)
  next
    case (Some b)
    show ?thesis
    proof (cases b)
      case True
      then show ?thesis using assms(1) Some there by (auto simp: new_inner_def)
    next
      case False
      then obtain ok p1 mc1 where a: "allocate_grant chip ?n (grant_driver_num g) sz (2 ^ max k 2) p mc = Some (ok, p1, mc1)"
        using assms(1) Some g by (auto simp: new_inner_def grant_align_power bind_eq_Some_conv)
      have step: "proc_step chip (p, mc) (p1, mc1)"
        by (rule step_allocate_grant [OF a k2(1)]) (use g(4) k2(2) in simp)
      show ?thesis
      proof (cases "ok \<and> (\<exists>ptr q. enter_grant ?n p1 = (Inr ptr, q))")
        case True
        then obtain ptr q where en: "enter_grant ?n p1 = (Inr ptr, q)" and ok: "ok" by blast
        obtain l m where i: "initialize_from_counts ptr (grant_upcalls g) (grant_allow_ros g) (grant_allow_rws g) ?n (memory mc1) = (l, m)"
          by (cases "initialize_from_counts ptr (grant_upcalls g) (grant_allow_ros g) (grant_allow_rws g) ?n (memory mc1)") auto
        note n = new_grant_allocated [OF a [unfolded ok [THEN eqTrueI]] k2(1) _ assms(3), unfolded k2(2), OF g(4)]
        obtain data where "r = Inr (Some data)" "p' = p1" "mc' = mc1\<lparr>memory := m\<rparr>"
          using assms(1) Some False a g en ok i n(2) [OF en] initialize_layout_num [OF i]
          by (auto simp: new_inner_def grant_align_power bind_eq_Some_conv)
        then show ?thesis using step n(1) fresh by simp
      next
        case False
        have "\<exists>e. r = Inl e \<and> p' = p1 \<and> mc' = mc1"
          using assms(1) Some \<open>\<not> b\<close> a g False enter_grant_error [of ?n p1]
          by (cases "enter_grant ?n p1"; cases "fst (enter_grant ?n p1)")
            (auto simp: new_inner_def grant_align_power split: if_splits)
        then show ?thesis using step full by blast
      qed
    qed
  qed
qed

lemma on_proc_new_inner_steps:
  assumes "on_proc i (new_inner chip g) sys = Some (r, sys')" "grant_wf g" "sys_ok sys"
  shows "sys_steps chip sys sys' \<and>
    (\<forall>x. r = Inr x \<longrightarrow> (\<exists>p. slot i sys' = Some p \<and> grant_is_allocated (grant_grant_num g) p = Some True))"
proof -
  obtain p p' mc' where p: "slot i sys = Some p" "new_inner chip g p (machine sys) = Some (r, p', mc')"
    "sys' = (put_proc i p' sys)\<lparr>machine := mc'\<rparr>"
    using assms(1) by (rule on_procE)
  note i = slot_less [OF p(1)]
  from p(2) assms(2) sys_okD(1) [OF assms(3) p(1)] show ?thesis
  proof (cases rule: new_inner_cases)
    case (fresh data mc1 m)
    have "proc_steps chip (p, machine sys) (p', mc1)" using fresh(2) by blast
    from proc_steps_sys [OF this p(1)] have "sys_steps chip sys ((put_proc i p' sys)\<lparr>machine := mc1\<rparr>)" .
    also have "sys_steps chip ((put_proc i p' sys)\<lparr>machine := mc1\<rparr>) sys'"
      using memory_step [of chip "(put_proc i p' sys)\<lparr>machine := mc1\<rparr>" m] p(3) fresh(3) by simp
    finally show ?thesis using fresh(4) p(3) i by simp
  next
    case (full e)
    then have "proc_steps chip (p, machine sys) (p', mc')" by blast
    from proc_steps_sys [OF this p(1)] show ?thesis using p(3) full(1) by simp
  qed (use p(1,3) i put_proc_same [OF p(1)] in simp_all)
qed

context mpu_contract
begin

lemma ProcessGrant_new_runs:
  assumes "ProcessGrant_new chip g pid sys = Some (r, sys')" "grant_wf g" "mpu chip = M" "sys_ok sys"
  shows "sys_runs chip sys sys' \<and>
    (\<forall>i. r = Inr i \<longrightarrow> (\<exists>p. slot i sys' = Some p \<and> grant_is_allocated (grant_grant_num g) p = Some True))"
proof (cases "get_process pid sys")
  case None
  then show ?thesis using assms(1) by (auto simp: ProcessGrant_new_def)
next
  case (Some i)
  then obtain x sys1 where x: "on_proc i (new_inner chip g) sys = Some (x, sys1)"
    and r: "r = (case x of Inl e \<Rightarrow> Inl e | Inr _ \<Rightarrow> Inr i)"
    and "sys' = sys1 \<or> (\<exists>m. sys' = sys1\<lparr>machine := (machine sys1)\<lparr>memory := m\<rparr>\<rparr>)"
    using assms(1) unfolding ProcessGrant_new_def Some option.case
    by (elim bind_SomeE case_prod_SomeE) (auto split: sum.splits option.splits)
  then have "sys_steps chip sys1 sys'" "\<And>j. slot j sys' = slot j sys1" using memory_step by auto
  then show ?thesis
    using on_proc_new_inner_steps [OF x assms(2,4)] r steps_runs [OF rtranclp_trans assms(3)]
    by (auto split: sum.splits)
qed

lemma access_grant_runs:
  assumes "access_grant_with_allocator g i closure b sys = Some (x, sys')" "mpu chip = M"
    "slot i sys = Some p" "grant_is_allocated (grant_grant_num g) p = Some True"
    and c: "\<And>a kd s r s'. closure a kd s = Some (r, s') \<Longrightarrow> sys_runs chip s s'"
  shows "sys_runs chip sys sys'"
proof -
  let ?enter = "\<lambda>p mc. case enter_grant (grant_grant_num g) p of (r, p) \<Rightarrow> Some (r, p, mc)"
  obtain r1 sys1 where en: "on_proc i ?enter sys = Some (r1, sys1)"
    and rest: "sys' = sys1 \<or> (\<exists>a kd y sys2 n u. closure a kd sys1 = Some (y, sys2) \<and>
      on_proc i (\<lambda>p mc. Some ((), leave_grant n p, mc)) sys2 = Some (u, sys'))"
    using assms(1) unfolding access_grant_with_allocator_def Let_def by (elim monad_elims) (auto, blast)
  obtain r p' where "enter_grant (grant_grant_num g) p = (r, p')" "sys1 = (put_proc i p' sys)\<lparr>machine := machine sys\<rparr>"
    using en assms(3) by (auto elim!: on_procE split: prod.splits)
  moreover from step_enter_grant [OF assms(4) this(1)] have "proc_steps chip (p, machine sys) (p', machine sys)" by blast
  ultimately have "sys_steps chip sys sys1" using proc_steps_sys [OF _ assms(3)] by blast
  then have 1: "sys_runs chip sys sys1" by (rule steps_runs [OF _ assms(2)])
  have "sys_runs chip s s'" if "on_proc i (\<lambda>p mc. Some ((), leave_grant n p, mc)) s = Some (u, s')" for n u s s'
    using that by (intro steps_runs [OF _ assms(2)]) (erule on_proc_steps, auto intro: step_leave_grant)
  with rest have "sys_runs chip sys1 sys'" by (auto intro: sys_runs_trans c)
  with 1 show ?thesis by (rule sys_runs_trans)
qed

lemma Grant_enter_runs:
  assumes "Grant_enter chip g pid closure sys = Some (r, sys')" "mpu chip = M" "grant_wf g"
    and c: "\<And>a kd s r s'. closure a kd s = Some (r, s') \<Longrightarrow> sys_runs chip s s'"
  shows "sys_runs chip sys sys'"
proof (cases "sys_ok sys")
  case True
  obtain x sys1 where x: "ProcessGrant_new chip g pid sys = Some (x, sys1)"
    and rest: "sys' = sys1 \<or> (\<exists>i y. x = Inr i \<and> access_grant_with_allocator g i closure True sys1 = Some (y, sys'))"
    using assms(1) unfolding Grant_enter_def by (elim monad_elims) auto
  note new = ProcessGrant_new_runs [OF x assms(3,2) True]
  have "sys_runs chip sys1 sys'" if i: "x = Inr i" and a: "access_grant_with_allocator g i closure True sys1 = Some (y, sys')" for i y
  proof -
    obtain p where "slot i sys1 = Some p" "grant_is_allocated (grant_grant_num g) p = Some True" using new i by blast
    from access_grant_runs [OF a assms(2) this] show ?thesis using c by blast
  qed
  then have "sys_runs chip sys1 sys'" using rest by blast
  then show ?thesis using new by (auto intro: sys_runs_trans)
qed (simp add: sys_runs_def)

lemma grant_each_from_runs:
  assumes "mpu chip = M" and c: "\<And>pid acc a kd s r s'. fn pid acc a kd s = Some (r, s') \<Longrightarrow> sys_runs chip s s'"
  shows "grant_each_from g is fn acc sys = Some (r, sys') \<Longrightarrow> sys_runs chip sys sys'"
proof (induction "is" arbitrary: acc sys)
  case (Cons i "is")
  then consider "grant_each_from g is fn acc sys = Some (r, sys')"
    | p x sys1 acc1 where "slot i sys = Some p" "new_if_allocated g p"
        "access_grant_with_allocator g i (fn (process_id p) acc) True sys = Some (x, sys1)"
        "grant_each_from g is fn acc1 sys1 = Some (r, sys')"
    by (auto split: option.splits if_splits elim!: monad_elims)
  then show ?case
  proof cases
    case 2
    then have "grant_is_allocated (grant_grant_num g) p = Some True" by (auto simp: new_if_allocated_def split: option.splits)
    with 2 show ?thesis by (meson Cons.IH access_grant_runs assms sys_runs_trans)
  qed (rule Cons.IH)
qed simp

lemma Grant_each_runs:
  "Grant_each g fn acc sys = Some (r, sys') \<Longrightarrow> mpu chip = M \<Longrightarrow>
     (\<And>pid acc a kd s r s'. fn pid acc a kd s = Some (r, s') \<Longrightarrow> sys_runs chip s s') \<Longrightarrow> sys_runs chip sys sys'"
  unfolding Grant_each_def by (rule grant_each_from_runs)

end

end
