(* ===== verification/Capsules.thy ===== *)
theory Capsules
  imports GrantUse CortexM_Syscall
begin

text \<open>
  Two drivers of the tree, the LED driver (\<open>capsules/core/src/led.rs\<close>) and the button driver
  (\<open>capsules/core/src/button.rs\<close>), over the pin interface of \<open>kernel/src/hil/gpio.rs\<close> and the LED
  interface of \<open>kernel/src/hil/led.rs\<close>. The pins themselves are chip registers: a pin is a record of
  the functions of its trait on the state \<open>'w\<close> outside the kernel. The button driver keeps one word
  per process in its grant.

  \<open>drivers_of\<close> is the lookup table of a platform with these two drivers; it satisfies \<open>driver_table\<close>,
  so the dispatcher's lemmas hold with it.
\<close>

section \<open>Pins\<close>

datatype ActivationState = Inactive | Active

datatype ActivationMode = ActiveHigh | ActiveLow

datatype FloatingState = PullUp | PullDown | PullNone

record 'w Pin =
  pin_set :: "'w \<Rightarrow> 'w"
  pin_clear :: "'w \<Rightarrow> 'w"
  pin_toggle :: "'w \<Rightarrow> 'w"
  pin_read :: "'w \<Rightarrow> bool"
  pin_make_output :: "'w \<Rightarrow> 'w"
  pin_make_input :: "'w \<Rightarrow> 'w"
  pin_set_floating_state :: "FloatingState \<Rightarrow> 'w \<Rightarrow> 'w"
  pin_enable_interrupts :: "'w \<Rightarrow> 'w"
  pin_disable_interrupts :: "'w \<Rightarrow> 'w"
  pin_set_value :: "u32 \<Rightarrow> 'w \<Rightarrow> 'w"

definition read_activation :: "'w Pin \<Rightarrow> ActivationMode \<Rightarrow> 'w \<Rightarrow> ActivationState" where
  "read_activation pin mode w =
     (case (mode, pin_read pin w) of
        (ActiveHigh, True) \<Rightarrow> Active
      | (ActiveLow, False) \<Rightarrow> Active
      | (ActiveLow, True) \<Rightarrow> Inactive
      | (ActiveHigh, False) \<Rightarrow> Inactive)"

fun ActivationState_as_u32 :: "ActivationState \<Rightarrow> u32" where
  "ActivationState_as_u32 Inactive = 0"
| "ActivationState_as_u32 Active = 1"

definition on_world ::
    "('w \<Rightarrow> 'w) \<Rightarrow> ('hw, 'cfg, 'w, 'ss) System \<Rightarrow> ('hw, 'cfg, 'w, 'ss) System" where
  "on_world f sys = sys\<lparr>machine := (machine sys)\<lparr>world := f (world (machine sys))\<rparr>\<rparr>"

section \<open>LEDs\<close>

record 'w Led =
  led_init :: "'w \<Rightarrow> 'w"
  led_on :: "'w \<Rightarrow> 'w"
  led_off :: "'w \<Rightarrow> 'w"
  led_toggle :: "'w \<Rightarrow> 'w"
  led_read :: "'w \<Rightarrow> bool"

definition LedHigh :: "'w Pin \<Rightarrow> 'w Led" where
  "LedHigh pin =
     \<lparr>led_init = pin_make_output pin, led_on = pin_set pin, led_off = pin_clear pin, led_toggle = pin_toggle pin,
      led_read = pin_read pin\<rparr>"

definition LedLow :: "'w Pin \<Rightarrow> 'w Led" where
  "LedLow pin =
     \<lparr>led_init = pin_make_output pin, led_on = pin_clear pin, led_off = pin_set pin, led_toggle = pin_toggle pin,
      led_read = (\<lambda>w. \<not> pin_read pin w)\<rparr>"

definition LedDriver_new :: "'w Led list \<Rightarrow> 'w \<Rightarrow> 'w" where
  "LedDriver_new leds w = fold (\<lambda>led w. led_off led (led_init led w)) leds w"

definition led_command ::
    "'w Led list \<Rightarrow> usize \<Rightarrow> usize \<Rightarrow> usize \<Rightarrow> ProcessId \<Rightarrow> ('hw, 'cfg, 'w, 'ss) System \<Rightarrow>
      (CommandReturn \<times> ('hw, 'cfg, 'w, 'ss) System) option" where
  "led_command leds command_num data r3 pid sys =
     (let switch = (\<lambda>f. if unat data \<ge> length leds then Some (CommandReturn_failure INVAL, sys)
                        else do { led \<leftarrow> slice_get leds (unat data);
                                  Some (CommandReturn_success, on_world (f led) sys) }) in
      if command_num = 0 then Some (CommandReturn_success_u32 (of_nat (length leds)), sys)
      else if command_num = 1 then switch led_on
      else if command_num = 2 then switch led_off
      else if command_num = 3 then switch led_toggle
      else Some (CommandReturn_failure NOSUPPORT, sys))"

definition led_allocate_grant ::
    "ProcessId \<Rightarrow> ('hw, 'cfg, 'w, 'ss) System \<Rightarrow> ((process_error + unit) \<times> ('hw, 'cfg, 'w, 'ss) System) option" where
  "led_allocate_grant pid sys = Some (Inr (), sys)"

definition LedDriver :: "'w Led list \<Rightarrow> ('hw, 'cfg, 'w, 'ss) SyscallDriver" where
  "LedDriver leds =
     \<lparr>drv_command = led_command leds, drv_allow_userspace_readable = allow_userspace_readable_default,
      drv_allocate_grant = led_allocate_grant\<rparr>"

section \<open>Buttons\<close>

record 'w Button =
  btn_pins :: "('w Pin \<times> ActivationMode \<times> FloatingState) list"
  btn_apps :: Grant

definition UPCALL_NUM :: usize where
  "UPCALL_NUM = 0"

text \<open>A shift by the width of the word or more overflows.\<close>

definition button_bit :: "usize \<Rightarrow> u32 option" where
  "button_bit n = (if unat n < 32 then Some (push_bit (unat n) 1) else None)"

definition Button_new :: "'w Button \<Rightarrow> 'w \<Rightarrow> 'w" where
  "Button_new b w =
     fold (\<lambda>(i, pin, _, floating) w. pin_set_floating_state pin floating (pin_set_value pin (of_nat i) (pin_make_input pin w)))
       (enumerate 0 (btn_pins b)) w"

definition get_button_state :: "'w Button \<Rightarrow> u32 \<Rightarrow> 'w \<Rightarrow> ActivationState option" where
  "get_button_state b pin_num w = do {
     (pin, mode, _) \<leftarrow> slice_get (btn_pins b) (unat pin_num);
     Some (read_activation pin mode w)
   }"

definition write_map :: "usize \<Rightarrow> u32 \<Rightarrow> ('hw, 'cfg, 'w, 'ss) System \<Rightarrow> ('hw, 'cfg, 'w, 'ss) System" where
  "write_map a v sys = sys\<lparr>machine := (machine sys)\<lparr>memory := write_word a v (memory (machine sys))\<rparr>\<rparr>"

definition read_map :: "usize \<Rightarrow> ('hw, 'cfg, 'w, 'ss) System \<Rightarrow> u32" where
  "read_map a sys = read_word (memory (machine sys)) a"

definition waiting_processes ::
    "'w Button \<Rightarrow> usize \<Rightarrow> ('hw, 'cfg, 'w, 'ss) System \<Rightarrow> (nat \<times> ('hw, 'cfg, 'w, 'ss) System) option" where
  "waiting_processes b data sys =
     Grant_each (btn_apps b) (\<lambda>_ interrupt_count cntr _ sys. do {
       mask \<leftarrow> button_bit data;
       Some (if read_map cntr sys AND mask \<noteq> 0 then interrupt_count + 1 else interrupt_count, sys)
     }) 0 sys"

definition button_command ::
    "('hw, 'cfg, 'w, 'ss) Chip \<Rightarrow> 'w Button \<Rightarrow> usize \<Rightarrow> usize \<Rightarrow> usize \<Rightarrow> ProcessId \<Rightarrow> ('hw, 'cfg, 'w, 'ss) System \<Rightarrow>
      (CommandReturn \<times> ('hw, 'cfg, 'w, 'ss) System) option" where
  "button_command chip b command_num data r3 pid sys =
     (let unwrap = (\<lambda>r. case r of Inr c \<Rightarrow> c | Inl err \<Rightarrow> CommandReturn_failure (ErrorCode_from_process_error err)) in
      if command_num = 0 then Some (CommandReturn_success_u32 (of_nat (length (btn_pins b))), sys)
      else if command_num = 1 then
        (if unat data < length (btn_pins b) then do {
           (r, sys) \<leftarrow> Grant_enter chip (btn_apps b) pid (\<lambda>cntr _ sys. do {
             mask \<leftarrow> button_bit data;
             let sys = write_map cntr (read_map cntr sys OR mask) sys;
             (pin, _) \<leftarrow> slice_get (btn_pins b) (unat data);
             Some (CommandReturn_success, on_world (pin_enable_interrupts pin) sys)
           }) sys;
           Some (unwrap r, sys)
         }
         else Some (CommandReturn_failure INVAL, sys))
      else if command_num = 2 then
        (if unat data \<ge> length (btn_pins b) then Some (CommandReturn_failure INVAL, sys)
         else do {
           (r, sys) \<leftarrow> Grant_enter chip (btn_apps b) pid (\<lambda>cntr _ sys. do {
             mask \<leftarrow> button_bit data;
             Some (CommandReturn_success, write_map cntr (read_map cntr sys AND NOT mask) sys)
           }) sys;
           (n, sys) \<leftarrow> waiting_processes b data sys;
           (pin, _) \<leftarrow> slice_get (btn_pins b) (unat data);
           Some (unwrap r, if n = 0 then on_world (pin_disable_interrupts pin) sys else sys)
         })
      else if command_num = 3 then
        (if unat data \<ge> length (btn_pins b) then Some (CommandReturn_failure INVAL, sys)
         else do {
           button_state \<leftarrow> get_button_state b data (world (machine sys));
           Some (CommandReturn_success_u32 (ActivationState_as_u32 button_state), sys)
         })
      else Some (CommandReturn_failure NOSUPPORT, sys))"

definition button_allocate_grant ::
    "('hw, 'cfg, 'w, 'ss) Chip \<Rightarrow> 'w Button \<Rightarrow> ProcessId \<Rightarrow> ('hw, 'cfg, 'w, 'ss) System \<Rightarrow>
      ((process_error + unit) \<times> ('hw, 'cfg, 'w, 'ss) System) option" where
  "button_allocate_grant chip b pid sys = Grant_enter chip (btn_apps b) pid (\<lambda>_ _ sys. Some ((), sys)) sys"

definition button_fired ::
    "'w Button \<Rightarrow> u32 \<Rightarrow> ('hw, 'cfg, 'w, 'ss) System \<Rightarrow> ('hw, 'cfg, 'w, 'ss) System option" where
  "button_fired b pin_num sys = do {
     button_state \<leftarrow> get_button_state b pin_num (world (machine sys));
     (interrupt_count, sys) \<leftarrow> Grant_each (btn_apps b) (\<lambda>_ interrupt_count cntr upcalls sys. do {
       mask \<leftarrow> button_bit pin_num;
       if read_map cntr sys AND mask \<noteq> 0 then do {
         (_, sys) \<leftarrow> gkd_schedule_upcall upcalls UPCALL_NUM (pin_num, ActivationState_as_u32 button_state, 0) sys;
         Some (interrupt_count + (1 :: nat), sys)
       } else Some (interrupt_count, sys)
     }) 0 sys;
     (pin, _) \<leftarrow> slice_get (btn_pins b) (unat pin_num);
     Some (if interrupt_count = 0 then on_world (pin_disable_interrupts pin) sys else sys)
   }"

definition ButtonDriver :: "('hw, 'cfg, 'w, 'ss) Chip \<Rightarrow> 'w Button \<Rightarrow> ('hw, 'cfg, 'w, 'ss) SyscallDriver" where
  "ButtonDriver chip b =
     \<lparr>drv_command = button_command chip b, drv_allow_userspace_readable = allow_userspace_readable_default,
      drv_allocate_grant = button_allocate_grant chip b\<rparr>"

section \<open>A platform with both\<close>

definition cortexm_chip ::
    "nat \<Rightarrow> usize \<Rightarrow> 'w switch_to_user \<Rightarrow> usize \<Rightarrow> usize \<Rightarrow> (cortexm_hw, CortexMConfig, 'w, CortexMStoredState) Chip" where
  "cortexm_chip num_regions min_size user task_size process_size =
     \<lparr>mpu = cortexm_mpu num_regions min_size, ukb = cortexm_ukb user, size_of_Task = task_size,
      size_of_ProcessStandard = process_size\<rparr>"

definition button_grant :: "usize \<Rightarrow> Grant" where
  "button_grant grant_num =
     \<lparr>grant_driver_num = 3, grant_grant_num = grant_num, grant_t_default = [0, 0, 0, 0], grant_t_align = 4,
      grant_upcalls = 1, grant_allow_ros = 0, grant_allow_rws = 0\<rparr>"

definition drivers_of ::
    "('hw, 'cfg, 'w, 'ss) Chip \<Rightarrow> 'w Led list \<Rightarrow> ('w Pin \<times> ActivationMode \<times> FloatingState) list \<Rightarrow> usize \<Rightarrow>
      usize \<Rightarrow> ('hw, 'cfg, 'w, 'ss) SyscallDriver option" where
  "drivers_of chip leds pins grant_num driver_num =
     (if driver_num = 2 then Some (LedDriver leds)
      else if driver_num = 3 then Some (ButtonDriver chip \<lparr>btn_pins = pins, btn_apps = button_grant grant_num\<rparr>)
      else None)"

section \<open>The drivers meet the contract\<close>

lemma on_world_step: "sys_steps chip sys (on_world f sys)"
  using sys_outside [of chip sys "f (world (machine sys))" "memory (machine sys)" "mpu_hw (machine sys)"]
  by (auto simp: on_world_def)

lemma write_map_step: "sys_steps chip sys (write_map a v sys)"
  unfolding write_map_def by (rule memory_step)

lemma schedule_steps: "schedule u a b c p = Some (r, p') \<Longrightarrow> proc_steps chip (p, mc) (p', mc)"
  unfolding schedule_def by (elim monad_elims) (auto intro: step_enqueue_task split: sum.splits)

lemma gkd_schedule_steps: "gkd_schedule_upcall kd n r sys = Some (x, sys') \<Longrightarrow> sys_steps chip sys sys'"
  unfolding gkd_schedule_upcall_def
  by (auto split: option.splits elim!: on_proc_steps simp: bind_eq_Some_conv Let_def intro: schedule_steps)

lemma button_grant_wf: "grant_wf (button_grant n)"
proof -
  have "alloc_size (button_grant n) = Some 16"
    by (simp add: button_grant_def alloc_size_def grant_t_size_def) code_simp
  then show ?thesis
    unfolding grant_wf_def by (intro exI [of _ 2] exI [of _ 16]) (simp add: button_grant_def)
qed

lemma led_command_steps: "led_command leds n d r pid sys = Some (x, sys') \<Longrightarrow> sys_steps chip sys sys'"
  unfolding led_command_def Let_def by (auto split: if_splits simp: bind_eq_Some_conv on_world_step)

context mpu_contract
begin

lemma after_runs:
  assumes "sys_runs chip sys sys1" "mpu chip = M"
  shows "sys_runs chip sys (on_world f sys1)" "sys_runs chip sys (write_map a v sys1)"
    "gkd_schedule_upcall kd n r sys1 = Some (x, sys2) \<Longrightarrow> sys_runs chip sys sys2"
  using steps_runs [OF on_world_step assms(2)] steps_runs [OF write_map_step assms(2)]
    steps_runs [OF gkd_schedule_steps assms(2)] sys_runs_trans [OF assms(1)] by blast+

lemma waiting_runs: "waiting_processes b d sys = Some (n, sys') \<Longrightarrow> mpu chip = M \<Longrightarrow> sys_runs chip sys sys'"
  unfolding waiting_processes_def by (erule Grant_each_runs) (auto simp: bind_eq_Some_conv)

lemma button_command_runs:
  assumes "button_command chip b n d r pid sys = Some (x, sys')" "mpu chip = M" "grant_wf (btn_apps b)"
  shows "sys_runs chip sys sys'"
proof -
  let ?set = "\<lambda>cntr _ sys. do {
      mask \<leftarrow> button_bit d;
      let sys = write_map cntr (read_map cntr sys OR mask) sys;
      (pin, _) \<leftarrow> slice_get (btn_pins b) (unat d);
      Some (CommandReturn_success, on_world (pin_enable_interrupts pin) sys) }"
  let ?clear = "\<lambda>cntr _ sys. do {
      mask \<leftarrow> button_bit d;
      Some (CommandReturn_success, write_map cntr (read_map cntr sys AND NOT mask) sys) }"
  have set: "sys_runs chip s s'" if "Grant_enter chip (btn_apps b) pid ?set s = Some (y, s')" for y s s'
    using that assms(2,3)
    by (rule Grant_enter_runs) (auto simp: bind_eq_Some_conv Let_def intro!: after_runs(1,2) assms(2))
  have clear: "sys_runs chip s s'" if "Grant_enter chip (btn_apps b) pid ?clear s = Some (y, s')" for y s s'
    using that assms(2,3) by (rule Grant_enter_runs) (auto simp: bind_eq_Some_conv intro!: after_runs(1,2) assms(2))
  show ?thesis
    using assms(1) unfolding button_command_def Let_def
    by (elim monad_elims)
      (auto dest!: set [unfolded Let_def] clear dest: sys_runs_trans [OF _ waiting_runs [OF _ assms(2)]]
        intro!: after_runs(1) assms(2))
qed

lemma button_allocate_runs:
  "button_allocate_grant chip b pid sys = Some (x, sys') \<Longrightarrow> mpu chip = M \<Longrightarrow> grant_wf (btn_apps b) \<Longrightarrow> sys_runs chip sys sys'"
  unfolding button_allocate_grant_def by (erule Grant_enter_runs) auto

lemma button_fired_runs:
  assumes "button_fired b n sys = Some sys'" "mpu chip = M"
  shows "sys_runs chip sys sys'"
proof -
  obtain state k sys1 where each: "Grant_each (btn_apps b) (\<lambda>_ interrupt_count cntr upcalls sys. do {
       mask \<leftarrow> button_bit n;
       if read_map cntr sys AND mask \<noteq> 0 then do {
         (_, sys) \<leftarrow> gkd_schedule_upcall upcalls UPCALL_NUM (n, ActivationState_as_u32 state, 0) sys;
         Some (interrupt_count + (1 :: nat), sys)
       } else Some (interrupt_count, sys)
     }) 0 sys = Some (k, sys1)" and "sys' = sys1 \<or> (\<exists>f. sys' = on_world f sys1)"
    using assms(1) unfolding button_fired_def by (elim monad_elims) (auto split: if_splits)
  moreover have "sys_runs chip sys sys1"
    using each assms(2) by (rule Grant_each_runs) (auto simp: bind_eq_Some_conv split: if_splits dest: after_runs(3) [OF sys_runs_refl assms(2)])
  ultimately show ?thesis by (auto intro: after_runs(1) assms(2))
qed

end

lemma drivers_ofE:
  assumes "drivers_of chip leds pins n m = Some d"
  obtains (led) "d = LedDriver leds" | (button) "d = ButtonDriver chip \<lparr>btn_pins = pins, btn_apps = button_grant n\<rparr>"
  using assms by (auto simp: drivers_of_def split: if_splits)

lemma cortexm_chip_mpu [simp]: "mpu (cortexm_chip k m user a b) = cortexm_mpu k m"
  by (simp add: cortexm_chip_def)

lemma drivers_run:
  assumes "drivers_of chip leds pins n m = Some d" "mpu chip = cortexm_mpu k l"
  shows "drv_command d c x y pid sys = Some (r, sys') \<Longrightarrow> sys_runs chip sys sys'"
    "drv_allow_userspace_readable d pid w buf sys = Some (r', sys') \<Longrightarrow> sys_runs chip sys sys'"
    "drv_allocate_grant d pid sys = Some (r'', sys') \<Longrightarrow> sys_runs chip sys sys'"
proof -
  show "sys_runs chip sys sys'" if "drv_command d c x y pid sys = Some (r, sys')"
    using assms(1)
  proof (cases rule: drivers_ofE)
    case led
    then show ?thesis using that cm_contract.steps_runs [OF led_command_steps assms(2)] by (simp add: LedDriver_def)
  next
    case button
    then show ?thesis using that cm_contract.button_command_runs [OF _ assms(2)] button_grant_wf
      by (simp add: ButtonDriver_def)
  qed
  show "sys_runs chip sys sys'" if "drv_allow_userspace_readable d pid w buf sys = Some (r', sys')"
    using assms(1) that
    by (cases rule: drivers_ofE) (auto simp: LedDriver_def ButtonDriver_def allow_userspace_readable_default_def)
  show "sys_runs chip sys sys'" if "drv_allocate_grant d pid sys = Some (r'', sys')"
    using assms(1)
  proof (cases rule: drivers_ofE)
    case led
    then show ?thesis using that by (simp add: LedDriver_def led_allocate_grant_def)
  next
    case button
    then show ?thesis using that cm_contract.button_allocate_runs [OF _ assms(2)] button_grant_wf
      by (simp add: ButtonDriver_def)
  qed
qed

interpretation board: driver_table "cortexm_mpu k m" "cortexm_chip k m user a b"
  "drivers_of (cortexm_chip k m user a b) leds pins n" for k m user a b leds pins n
  by unfold_locales (simp, (erule (1) drivers_run [OF _ cortexm_chip_mpu])+)

end
