(* ===== verification/ProcessBuffers.thy ===== *)
theory ProcessBuffers
  imports KernelState
begin

text \<open>
  Access to memory that a process has shared: the methods of the process buffers and process slices of
  \<open>kernel/src/processbuffer.rs\<close>. A slice is a base address and a length; its cells live in the memory
  of the machine, so that two slices over the same bytes see each other's writes. The lemmas show that
  copying in and out are inverse, that a write stays within its slice, and that sub-slices and chunks
  are views of the bytes of the whole.
\<close>

section \<open>Buffers\<close>

record ProcessSlice =
  sl_ptr :: usize
  sl_len :: usize

text \<open>An empty slice has the dangling pointer of a byte, which is its alignment.\<close>

definition raw_processbuf_to_processslice :: "usize \<Rightarrow> usize \<Rightarrow> ProcessSlice" where
  "raw_processbuf_to_processslice ptr len =
     (if len = 0 then \<lparr>sl_ptr = 1, sl_len = 0\<rparr> else \<lparr>sl_ptr = ptr, sl_len = len\<rparr>)"

definition ProcessBuffer_default :: ProcessBuffer where
  "ProcessBuffer_default = \<lparr>buf_ptr = 0, buf_len = 0, buf_process_id = None\<rparr>"

definition processbuffer_len :: "ProcessBuffer \<Rightarrow> ('hw, 'cfg, 'w, 'ss) System \<Rightarrow> usize" where
  "processbuffer_len b sys =
     (case buf_process_id b of
        None \<Rightarrow> 0
      | Some pid \<Rightarrow> (case get_process pid sys of None \<Rightarrow> 0 | Some _ \<Rightarrow> buf_len b))"

definition processbuffer_ptr :: "ProcessBuffer \<Rightarrow> usize" where
  "processbuffer_ptr b = (if buf_len b = 0 then 0 else buf_ptr b)"

definition processbuffer_enter ::
    "ProcessBuffer \<Rightarrow> (ProcessSlice \<Rightarrow> ram \<Rightarrow> 'r option) \<Rightarrow> ('hw, 'cfg, 'w, 'ss) System \<Rightarrow> (process_error + 'r) option" where
  "processbuffer_enter b fn sys =
     (case buf_process_id b of
        None \<Rightarrow> Some (Inl NoSuchApp)
      | Some pid \<Rightarrow>
          (case get_process pid sys of
             None \<Rightarrow> Some (Inl NoSuchApp)
           | Some _ \<Rightarrow> do {
               r \<leftarrow> fn (raw_processbuf_to_processslice (buf_ptr b) (buf_len b)) (memory (machine sys));
               Some (Inr r)
             }))"

definition processbuffer_mut_enter ::
    "ProcessBuffer \<Rightarrow> (ProcessSlice \<Rightarrow> ram \<Rightarrow> ('r \<times> ram) option) \<Rightarrow> ('hw, 'cfg, 'w, 'ss) System \<Rightarrow>
      ((process_error + 'r) \<times> ('hw, 'cfg, 'w, 'ss) System) option" where
  "processbuffer_mut_enter b fn sys =
     (case buf_process_id b of
        None \<Rightarrow> Some (Inl NoSuchApp, sys)
      | Some pid \<Rightarrow>
          (case get_process pid sys of
             None \<Rightarrow> Some (Inl NoSuchApp, sys)
           | Some _ \<Rightarrow> do {
               (r, m) \<leftarrow> fn (raw_processbuf_to_processslice (buf_ptr b) (buf_len b)) (memory (machine sys));
               Some (Inr r, sys\<lparr>machine := (machine sys)\<lparr>memory := m\<rparr>\<rparr>)
             }))"

section \<open>Slices\<close>

definition cell_addr :: "ProcessSlice \<Rightarrow> nat \<Rightarrow> usize" where
  "cell_addr s i = sl_ptr s + of_nat i"

definition process_slice_len :: "ProcessSlice \<Rightarrow> nat" where
  "process_slice_len s = unat (sl_len s)"

text \<open>Indexing out of range panics.\<close>

definition process_slice_index :: "ram \<Rightarrow> ProcessSlice \<Rightarrow> nat \<Rightarrow> u8 option" where
  "process_slice_index m s idx = (if idx < process_slice_len s then Some (m (cell_addr s idx)) else None)"

definition copy_to_slice_or_err :: "ram \<Rightarrow> ProcessSlice \<Rightarrow> u8 list \<Rightarrow> ErrorCode + u8 list" where
  "copy_to_slice_or_err m s dest =
     (if process_slice_len s \<noteq> length dest then Inl SIZE
      else Inr (fold (\<lambda>i dest. dest[i := m (cell_addr s i)]) [0..<process_slice_len s] dest))"

definition copy_to_slice :: "ram \<Rightarrow> ProcessSlice \<Rightarrow> u8 list \<Rightarrow> u8 list option" where
  "copy_to_slice m s dest = (case copy_to_slice_or_err m s dest of Inl _ \<Rightarrow> None | Inr dest \<Rightarrow> Some dest)"

definition copy_from_slice_or_err :: "ProcessSlice \<Rightarrow> u8 list \<Rightarrow> ram \<Rightarrow> (ErrorCode + unit) \<times> ram" where
  "copy_from_slice_or_err s src m =
     (if process_slice_len s \<noteq> length src then (Inl SIZE, m)
      else (Inr (), fold (\<lambda>(x, i) m. m(cell_addr s i := x)) (zip src [0..<process_slice_len s]) m))"

definition copy_from_slice :: "ProcessSlice \<Rightarrow> u8 list \<Rightarrow> ram \<Rightarrow> ram option" where
  "copy_from_slice s src m =
     (case copy_from_slice_or_err s src m of (Inl _, _) \<Rightarrow> None | (Inr _, m) \<Rightarrow> Some m)"

definition process_slice_get :: "ProcessSlice \<Rightarrow> nat \<Rightarrow> nat \<Rightarrow> ProcessSlice option" where
  "process_slice_get s i j =
     (if i \<le> j \<and> j \<le> process_slice_len s then Some \<lparr>sl_ptr = cell_addr s i, sl_len = of_nat (j - i)\<rparr> else None)"

definition process_slice_get_from :: "ProcessSlice \<Rightarrow> nat \<Rightarrow> ProcessSlice option" where
  "process_slice_get_from s i =
     (if i \<le> process_slice_len s then Some \<lparr>sl_ptr = cell_addr s i, sl_len = of_nat (process_slice_len s - i)\<rparr> else None)"

definition process_slice_get_to :: "ProcessSlice \<Rightarrow> nat \<Rightarrow> ProcessSlice option" where
  "process_slice_get_to s j = (if j \<le> process_slice_len s then Some \<lparr>sl_ptr = sl_ptr s, sl_len = of_nat j\<rparr> else None)"

text \<open>The indexing operators with a range; \<open>None\<close> is a panic.\<close>

definition process_slice_index_range :: "ProcessSlice \<Rightarrow> nat \<Rightarrow> nat \<Rightarrow> ProcessSlice option" where
  "process_slice_index_range s i j =
     (if i \<le> j \<and> j \<le> process_slice_len s then Some \<lparr>sl_ptr = cell_addr s i, sl_len = of_nat (j - i)\<rparr> else None)"

definition process_slice_index_to :: "ProcessSlice \<Rightarrow> nat \<Rightarrow> ProcessSlice option" where
  "process_slice_index_to s j = process_slice_index_range s 0 j"

definition process_slice_index_from :: "ProcessSlice \<Rightarrow> nat \<Rightarrow> ProcessSlice option" where
  "process_slice_index_from s i = process_slice_index_range s i (process_slice_len s)"

text \<open>\<open>chunks\<close> of a size: all of that size, but for the last, which holds the rest.\<close>

function chunks_from :: "ProcessSlice \<Rightarrow> nat \<Rightarrow> nat \<Rightarrow> ProcessSlice list" where
  "chunks_from s n i =
     (if n = 0 \<or> process_slice_len s \<le> i then []
      else
        (let j = min (i + n) (process_slice_len s) in
         \<lparr>sl_ptr = cell_addr s i, sl_len = of_nat (j - i)\<rparr> # chunks_from s n j))"
  by pat_completeness auto

termination
  by (relation "measure (\<lambda>(s, n, i). process_slice_len s - i)") auto

definition process_slice_chunks :: "ProcessSlice \<Rightarrow> nat \<Rightarrow> ProcessSlice list option" where
  "process_slice_chunks s chunk_size = (if chunk_size = 0 then None else Some (chunks_from s chunk_size 0))"

section \<open>Lemmas\<close>

declare chunks_from.simps [simp del]

definition slice_bytes :: "ram \<Rightarrow> ProcessSlice \<Rightarrow> u8 list" where
  "slice_bytes m s = map (\<lambda>i. m (cell_addr s i)) [0..<process_slice_len s]"

definition slice_fits :: "ProcessSlice \<Rightarrow> bool" where
  "slice_fits s \<longleftrightarrow> unat (sl_ptr s) + unat (sl_len s) \<le> 2 ^ 32"

lemma slice_bytes_length [simp]: "length (slice_bytes m s) = process_slice_len s"
  by (simp add: slice_bytes_def)

lemma cell_addr_unat: "slice_fits s \<Longrightarrow> i < process_slice_len s \<Longrightarrow> unat (cell_addr s i) = unat (sl_ptr s) + i"
  unfolding cell_addr_def by (rule unat_add_small) (simp add: slice_fits_def process_slice_len_def)

lemma cell_addr_inj:
  "slice_fits s \<Longrightarrow> i < process_slice_len s \<Longrightarrow> j < process_slice_len s \<Longrightarrow> cell_addr s i = cell_addr s j \<longleftrightarrow> i = j"
  by (metis cell_addr_unat add_left_cancel)

text \<open>Copying out gives the bytes of the slice.\<close>

lemma copy_out_fold:
  "k \<le> length dest \<Longrightarrow> fold (\<lambda>i dest. dest[i := f i]) [0..<k] dest = map f [0..<k] @ drop k dest"
proof (induction k)
  case (Suc k)
  have "fold (\<lambda>i dest. dest[i := f i]) [0..<Suc k] dest = (map f [0..<k] @ drop k dest)[k := f k]"
    using Suc by simp
  also have "drop k dest = dest ! k # drop (Suc k) dest" using Suc(2) by (simp add: Cons_nth_drop_Suc)
  finally show ?case by (simp add: list_update_append)
qed simp

lemma copy_to_slice_bytes:
  "copy_to_slice_or_err m s dest = (if length dest = process_slice_len s then Inr (slice_bytes m s) else Inl SIZE)"
  by (auto simp: copy_to_slice_or_err_def slice_bytes_def copy_out_fold)

text \<open>Copying in writes the cells of the slice in order and nothing else.\<close>

lemma copy_in_fold:
  assumes "slice_fits s" "length src = process_slice_len s" "k \<le> process_slice_len s"
  shows "fold (\<lambda>(x, i) m. m(cell_addr s i := x)) (zip (take k src) [0..<k]) m a =
    (if unat (sl_ptr s) \<le> unat a \<and> unat a < unat (sl_ptr s) + k then src ! (unat a - unat (sl_ptr s)) else m a)"
  using assms(3)
proof (induction k)
  case (Suc k)
  then have k: "k < process_slice_len s" by simp
  have "zip (take (Suc k) src) [0..<Suc k] = zip (take k src) [0..<k] @ [(src ! k, k)]"
    using k assms(2) by (simp add: take_Suc_conv_app_nth)
  moreover have "a = cell_addr s k \<longleftrightarrow> unat a = unat (sl_ptr s) + k"
    using cell_addr_unat [OF assms(1) k] by (auto simp: word_unat_eq_iff)
  ultimately show ?case using Suc by auto
qed auto

lemma copy_from_slice_writes:
  assumes "copy_from_slice_or_err s src m = (Inr (), m')" "slice_fits s"
  shows "length src = process_slice_len s"
    "m' a = (if unat (sl_ptr s) \<le> unat a \<and> unat a < unat (sl_ptr s) + process_slice_len s
             then src ! (unat a - unat (sl_ptr s)) else m a)"
proof -
  show l: "length src = process_slice_len s"
    using assms(1) by (auto simp: copy_from_slice_or_err_def split: if_splits)
  show "m' a = (if unat (sl_ptr s) \<le> unat a \<and> unat a < unat (sl_ptr s) + process_slice_len s
             then src ! (unat a - unat (sl_ptr s)) else m a)"
    using copy_in_fold [OF assms(2) l order_refl, of m a] assms(1) l
    by (auto simp: copy_from_slice_or_err_def split: if_splits)
qed

lemma copy_from_slice_bytes:
  assumes "copy_from_slice_or_err s src m = (Inr (), m')" "slice_fits s"
  shows "slice_bytes m' s = src"
  using copy_from_slice_writes [OF assms] cell_addr_unat [OF assms(2)]
  by (auto simp: slice_bytes_def intro!: nth_equalityI)

text \<open>Sub-slices are views of the bytes.\<close>

lemma process_slice_len_of_nat: "k \<le> process_slice_len s \<Longrightarrow> process_slice_len \<lparr>sl_ptr = p, sl_len = of_nat k\<rparr> = k"
  using unat_less_2p [of "sl_len s"] by (simp add: process_slice_len_def unat_of_nat)

lemma sub_slice_bytes:
  assumes "i + k \<le> process_slice_len s"
  shows "slice_bytes m \<lparr>sl_ptr = cell_addr s i, sl_len = of_nat k\<rparr> = take k (drop i (slice_bytes m s))"
proof -
  have "process_slice_len \<lparr>sl_ptr = cell_addr s i, sl_len = of_nat k\<rparr> = k"
    using assms by (intro process_slice_len_of_nat [of _ s]) simp
  then show ?thesis using assms
    by (auto simp: slice_bytes_def cell_addr_def add.assoc intro!: nth_equalityI)
qed

lemma process_slice_get_bytes:
  "map_option (slice_bytes m) (process_slice_get s i j) = slice_range (slice_bytes m s) i j"
  by (simp add: process_slice_get_def slice_range_def sub_slice_bytes del: of_nat_diff)

lemma process_slice_get_from_bytes:
  "map_option (slice_bytes m) (process_slice_get_from s i) = slice_from (slice_bytes m s) i"
  by (simp add: process_slice_get_from_def slice_from_def sub_slice_bytes del: of_nat_diff)

lemma chunks_from_bytes:
  "0 < n \<Longrightarrow> concat (map (slice_bytes m) (chunks_from s n i)) = drop i (slice_bytes m s)"
proof (induction s n i rule: chunks_from.induct)
  case (1 s n i)
  show ?case
  proof (cases "process_slice_len s \<le> i")
    case True
    then show ?thesis by (subst chunks_from.simps) simp
  next
    case False
    let ?j = "min (i + n) (process_slice_len s)"
    have "slice_bytes m \<lparr>sl_ptr = cell_addr s i, sl_len = of_nat (?j - i)\<rparr> = take (?j - i) (drop i (slice_bytes m s))"
      using False by (intro sub_slice_bytes) simp
    moreover have "concat (map (slice_bytes m) (chunks_from s n ?j)) = drop (?j - i) (drop i (slice_bytes m s))"
      using 1 False by simp
    ultimately show ?thesis
      using False 1(2) by (subst chunks_from.simps) (simp add: Let_def del: drop_drop of_nat_diff)
  qed
qed

text \<open>
  What the kernel writes through a buffer that a process shared stays within the memory that the process
  owned when it shared the buffer.
\<close>

lemma shared_slice_owned:
  assumes "build_readwrite_process_buffer addr len p = (Inr b, p')" "s = raw_processbuf_to_processslice (buf_ptr b) (buf_len b)"
  shows "slice_fits s"
    "unat (sl_ptr s) \<le> a \<Longrightarrow> a < unat (sl_ptr s) + process_slice_len s \<Longrightarrow> unat (mem_start p) \<le> a \<and> a < unat (app_break p)"
  using assms in_app_owned_iff [of addr len p] unat_less_2p [of "app_break p"]
  by (auto simp: build_readwrite_process_buffer_def raw_processbuf_to_processslice_def slice_fits_def process_slice_len_def
      ProcessBuffer_new_def Let_def unat_gt_0 mem_start_def split: if_splits)

lemma shared_write_confined:
  assumes "build_readwrite_process_buffer addr len p = (Inr b, p')"
    and "processbuffer_mut_enter b (\<lambda>s m. Some (copy_from_slice_or_err s src m)) sys = Some (r, sys')"
    and "\<not> (unat (mem_start p) \<le> unat a \<and> unat a < unat (app_break p))"
  shows "memory (machine sys') a = memory (machine sys) a"
proof (cases "r = Inr (Inr ())")
  case True
  define s where "s = raw_processbuf_to_processslice (buf_ptr b) (buf_len b)"
  have "copy_from_slice_or_err s src (memory (machine sys)) = (Inr (), memory (machine sys'))"
    using assms(2) True by (auto simp: processbuffer_mut_enter_def s_def split: option.splits elim!: monad_elims)
  from copy_from_slice_writes(2) [OF this shared_slice_owned(1) [OF assms(1) s_def], of a] show ?thesis
    using shared_slice_owned(2) [OF assms(1) s_def, of "unat a"] assms(3) by (auto split: if_splits)
next
  case False
  then show ?thesis using assms(2)
    by (auto simp: processbuffer_mut_enter_def copy_from_slice_or_err_def split: option.splits if_splits elim!: monad_elims)
qed

end
