(* ===== verification/Ipc.thy ===== *)
theory Ipc
  imports Capsules ProcessBuffers
begin

text \<open>
  Communication between processes: \<open>kernel/src/ipc.rs\<close>. The driver finds a service by its name and
  notifies services and clients by putting a task into their queue; when the kernel takes the task out,
  \<open>ipc_schedule_upcall\<close> gives the receiver access to the buffer shared by the sender and schedules its
  upcall. The lemmas show that every operation runs in steps of the system, and that a process that
  notifies itself makes the kernel panic.
\<close>

section \<open>The driver\<close>

definition IPC_DRIVER_NUM :: usize where
  "IPC_DRIVER_NUM = 0x10000"

definition ro_allow_SEARCH :: usize where
  "ro_allow_SEARCH = 0"

definition ro_allow_COUNT :: u8 where
  "ro_allow_COUNT = 1"

text \<open>The grant holds no data of its own.\<close>

definition IPC_new :: "u8 \<Rightarrow> usize \<Rightarrow> usize \<Rightarrow> Grant" where
  "IPC_new num_procs driver_num grant_num =
     \<lparr>grant_driver_num = driver_num, grant_grant_num = grant_num, grant_t_default = [], grant_t_align = 1,
      grant_upcalls = num_procs, grant_allow_ros = ro_allow_COUNT, grant_allow_rws = num_procs\<rparr>"

definition processid_index :: "ProcessId \<Rightarrow> ('hw, 'cfg, 'w, 'ss) System \<Rightarrow> usize option" where
  "processid_index pid sys = (if processid_is_valid pid sys then Some (pid_index pid) else None)"

text \<open>Access of the receiver to the buffer of the sender, and its upcall.\<close>

definition share_and_schedule ::
    "('hw, 'cfg, 'w, 'ss) Chip \<Rightarrow> ProcessId \<Rightarrow> ProcessId \<Rightarrow> usize \<Rightarrow> usize \<Rightarrow> IPCUpcallType \<Rightarrow>
      GrantKernelData \<Rightarrow> GrantKernelData \<Rightarrow> ('hw, 'cfg, 'w, 'ss) System \<Rightarrow> (unit \<times> ('hw, 'cfg, 'w, 'ss) System) option" where
  "share_and_schedule chip schedule_on called_from schedule_on_id called_from_id cb_type schedule_on_data called_from_data sys = do {
     (len, ptr, sys) \<leftarrow>
       (case get_readwrite_processbuffer called_from_data schedule_on_id called_from of
          Inr buf \<Rightarrow> do {
            (_, sys) \<leftarrow> process_map_or None schedule_on (\<lambda>i sys.
              on_proc i (\<lambda>p mc. do {
                (r, p) \<leftarrow> add_mpu_region chip (processbuffer_ptr buf) (processbuffer_len buf sys)
                            (processbuffer_len buf sys) p;
                Some (r, p, mc) }) sys) sys;
            Some (processbuffer_len buf sys, processbuffer_ptr buf, sys)
          }
        | Inl _ \<Rightarrow> Some (0, 0, sys));
     let to_schedule = (case cb_type of ServiceUpcall \<Rightarrow> schedule_on_id | ClientUpcall \<Rightarrow> called_from_id);
     (_, sys) \<leftarrow> gkd_schedule_upcall schedule_on_data to_schedule (called_from_id, len, ptr) sys;
     Some ((), sys)
   }"

definition ipc_schedule_upcall ::
    "('hw, 'cfg, 'w, 'ss) Chip \<Rightarrow> Grant \<Rightarrow> ProcessId \<Rightarrow> ProcessId \<Rightarrow> IPCUpcallType \<Rightarrow> ('hw, 'cfg, 'w, 'ss) System \<Rightarrow>
      ((process_error + unit) \<times> ('hw, 'cfg, 'w, 'ss) System) option" where
  "ipc_schedule_upcall chip data schedule_on called_from cb_type sys =
     (case (processid_index schedule_on sys, processid_index called_from sys) of
        (Some schedule_on_id, Some called_from_id) \<Rightarrow> do {
          (r, sys) \<leftarrow> Grant_enter chip data schedule_on (\<lambda>_ schedule_on_data sys.
            Grant_enter chip data called_from (\<lambda>_ called_from_data sys.
              share_and_schedule chip schedule_on called_from schedule_on_id called_from_id cb_type
                schedule_on_data called_from_data sys) sys) sys;
          Some (case r of Inl e \<Rightarrow> Inl e | Inr r \<Rightarrow> r, sys)
        }
      | _ \<Rightarrow> Some (Inl NoSuchApp, sys))"

definition ipc_discover ::
    "('hw, 'cfg, 'w, 'ss) Chip \<Rightarrow> Grant \<Rightarrow> ProcessId \<Rightarrow> ('hw, 'cfg, 'w, 'ss) System \<Rightarrow>
      (CommandReturn \<times> ('hw, 'cfg, 'w, 'ss) System) option" where
  "ipc_discover chip data pid sys = do {
     (r, sys) \<leftarrow> Grant_enter chip data pid (\<lambda>_ kernel_data sys. do {
       r \<leftarrow> (case get_readonly_processbuffer kernel_data ro_allow_SEARCH pid of
           Inl e \<Rightarrow> Some (Inl e)
         | Inr search \<Rightarrow> processbuffer_enter search (\<lambda>buf m.
             Some (case process_until (\<lambda>p.
                 let s = process_name p in
                 if length s = process_slice_len buf \<and>
                    list_all (\<lambda>(c1, i). c1 = m (cell_addr buf i)) (zip s [0..<process_slice_len buf])
                 then map_option CommandReturn_success_u32 (processid_index (process_id p) sys)
                 else None) (procs sys) of
               Some ret \<Rightarrow> ret
             | None \<Rightarrow> CommandReturn_failure NODEVICE)) sys);
       Some (case r of Inr ret \<Rightarrow> ret | Inl _ \<Rightarrow> CommandReturn_failure INVAL, sys)
     }) sys;
     Some (case r of Inr ret \<Rightarrow> ret | Inl _ \<Rightarrow> CommandReturn_failure NOMEM, sys)
   }"

definition ipc_notify ::
    "IPCUpcallType \<Rightarrow> usize \<Rightarrow> ProcessId \<Rightarrow> ('hw, 'cfg, 'w, 'ss) System \<Rightarrow>
      (CommandReturn \<times> ('hw, 'cfg, 'w, 'ss) System) option" where
  "ipc_notify cb_type target_id pid sys =
     (case process_until (\<lambda>p. case processid_index (process_id p) sys of
                                 Some i \<Rightarrow> if i = target_id then Some (process_id p) else None
                               | None \<Rightarrow> None) (procs sys) of
        None \<Rightarrow> Some (CommandReturn_failure INVAL, sys)
      | Some otherapp \<Rightarrow>
          process_map_or (CommandReturn_failure INVAL) otherapp (\<lambda>i sys. do {
            (ret, sys) \<leftarrow> on_proc i (\<lambda>p mc. do { (r, p) \<leftarrow> enqueue_task (IPC pid cb_type) p; Some (r, p, mc) }) sys;
            Some (case ret of Inr _ \<Rightarrow> CommandReturn_success | Inl e \<Rightarrow> CommandReturn_failure e, sys)
          }) sys)"

definition ipc_command ::
    "('hw, 'cfg, 'w, 'ss) Chip \<Rightarrow> Grant \<Rightarrow> usize \<Rightarrow> usize \<Rightarrow> usize \<Rightarrow> ProcessId \<Rightarrow> ('hw, 'cfg, 'w, 'ss) System \<Rightarrow>
      (CommandReturn \<times> ('hw, 'cfg, 'w, 'ss) System) option" where
  "ipc_command chip data command_number target_id r3 pid sys =
     (if command_number = 0 then Some (CommandReturn_success, sys)
      else if command_number = 1 then ipc_discover chip data pid sys
      else if command_number = 2 then ipc_notify ServiceUpcall target_id pid sys
      else if command_number = 3 then ipc_notify ClientUpcall target_id pid sys
      else Some (CommandReturn_failure NOSUPPORT, sys))"

definition ipc_allocate_grant ::
    "('hw, 'cfg, 'w, 'ss) Chip \<Rightarrow> Grant \<Rightarrow> ProcessId \<Rightarrow> ('hw, 'cfg, 'w, 'ss) System \<Rightarrow>
      ((process_error + unit) \<times> ('hw, 'cfg, 'w, 'ss) System) option" where
  "ipc_allocate_grant chip data pid sys = Grant_enter chip data pid (\<lambda>_ _ sys. Some ((), sys)) sys"

definition IPCDriver :: "('hw, 'cfg, 'w, 'ss) Chip \<Rightarrow> Grant \<Rightarrow> ('hw, 'cfg, 'w, 'ss) SyscallDriver" where
  "IPCDriver chip data =
     \<lparr>drv_command = ipc_command chip data, drv_allow_userspace_readable = allow_userspace_readable_default,
      drv_allocate_grant = ipc_allocate_grant chip data\<rparr>"

section \<open>Lemmas\<close>

lemma processid_index_own: "get_process (process_id p) sys = Some i \<Longrightarrow> processid_index (process_id p) sys = Some (pid_index (process_id p))"
  by (simp add: processid_index_def processid_is_valid_iff)

subsection \<open>A process that notifies itself\<close>

lemma new_inner_existing:
  "grant_is_allocated (grant_grant_num g) p = Some True \<Longrightarrow> new_inner chip g p mc = Some (Inr None, p, mc)"
  by (simp add: new_inner_def)

lemma Grant_enter_allocated:
  assumes "get_process pid sys = Some i" "slot i sys = Some p" "grant_is_allocated (grant_grant_num g) p = Some True"
  shows "Grant_enter chip g pid closure sys =
    do { (x, sys) \<leftarrow> access_grant_with_allocator g i closure True sys; x \<leftarrow> x; Some (Inr x, sys) }"
  using assms new_inner_existing [OF assms(3), of chip "machine sys"] put_proc_same [OF assms(2)]
  by (simp add: Grant_enter_def ProcessGrant_new_def on_proc_def)

lemma or_one_nonzero [simp]: "(x :: usize) OR 1 \<noteq> 0"
proof
  assume "x OR 1 = 0"
  then have "bit (x OR 1) 0 = bit (0 :: usize) 0" by simp
  then show False by (simp add: bit_or_iff)
qed

lemma enter_grant_marks:
  assumes "enter_grant n p = (Inr ptr, p')"
  shows "process_id p' = process_id p" "grant_is_allocated n p' = Some True" "fst (enter_grant n p') = Inl AlreadyInUse"
  using assms
  by (auto simp: enter_grant_def grant_is_allocated_def grant_get_def grant_set_def is_running_def slice_get_def
      split: if_splits option.splits)

lemma enter_twice_panics:
  assumes "get_process (process_id p) sys = Some i" "slot i sys = Some p" "grant_is_allocated (grant_grant_num g) p = Some True"
  shows "Grant_enter chip g (process_id p) (\<lambda>a kd sys. Grant_enter chip g (process_id p) (inner a kd) sys) sys = None"
proof (cases "enter_grant (grant_grant_num g) p")
  case (Pair r p')
  show ?thesis
  proof (cases r)
    case (Inl e)
    then show ?thesis using assms Pair by (simp add: Grant_enter_allocated access_grant_with_allocator_def on_proc_def)
  next
    case (Inr ptr)
    note e = enter_grant_marks [OF Pair [unfolded Inr]]
    let ?sys = "(put_proc i p' sys)\<lparr>machine := machine sys\<rparr>"
    have s: "slot i ?sys = Some p'" using slot_less [OF assms(2)] by simp
    have g: "get_process (process_id p) ?sys = Some i"
      using assms(1,2) s e(1) by (auto simp: get_process_def ProcessId_eq_def split: option.splits if_splits)
    have "Grant_enter chip g (process_id p) (inner a kd) ?sys = None" for a kd
      using Grant_enter_allocated [OF g s e(2), of chip "inner a kd"] e(3) s
      by (auto simp: access_grant_with_allocator_def on_proc_def split: prod.splits)
    then show ?thesis
      using Grant_enter_allocated [OF assms, of chip "\<lambda>a kd sys. Grant_enter chip g (process_id p) (inner a kd) sys"] assms(2) Pair Inr
      by (auto simp: access_grant_with_allocator_def on_proc_def bind_eq_None_conv Let_def)
  qed
qed

lemma self_notify_panics:
  assumes "get_process (process_id p) sys = Some i" "slot i sys = Some p" "grant_is_allocated (grant_grant_num g) p = Some True"
  shows "ipc_schedule_upcall chip g (process_id p) (process_id p) cb_type sys = None"
  using enter_twice_panics [OF assms, of chip "\<lambda>_ kd _ kd'. share_and_schedule chip (process_id p) (process_id p)
      (pid_index (process_id p)) (pid_index (process_id p)) cb_type kd kd'"]
  by (simp add: ipc_schedule_upcall_def processid_index_own [OF assms(1)])

subsection \<open>The operations run in steps of the system\<close>

lemma on_proc_enqueue_steps:
  "on_proc i (\<lambda>p mc. do { (r, p) \<leftarrow> enqueue_task t p; Some (r, p, mc) }) sys = Some (r, sys') \<Longrightarrow> sys_steps chip sys sys'"
  by (erule on_proc_steps) (auto simp: bind_eq_Some_conv intro: step_enqueue_task)

lemma on_proc_region_steps:
  "on_proc i (\<lambda>p mc. do { (r, p) \<leftarrow> add_mpu_region chip a n k p; Some (r, p, mc) }) sys = Some (r, sys') \<Longrightarrow> sys_steps chip sys sys'"
  by (erule on_proc_steps) (auto simp: bind_eq_Some_conv intro: step_add_region)

lemma share_and_schedule_steps:
  assumes "share_and_schedule chip so cf so_id cf_id t kd kd' sys = Some (r, sys')"
  shows "sys_steps chip sys sys'"
proof -
  obtain len ptr sys1 x where x: "gkd_schedule_upcall kd (case t of ServiceUpcall \<Rightarrow> so_id | ClientUpcall \<Rightarrow> cf_id) (cf_id, len, ptr) sys1 = Some (x, sys')"
    and "sys1 = sys \<or> (\<exists>i a n k y. on_proc i (\<lambda>p mc. do { (r, p) \<leftarrow> add_mpu_region chip a n k p; Some (r, p, mc) }) sys = Some (y, sys1))"
    using assms unfolding share_and_schedule_def Let_def
    by (elim monad_elims) (auto simp: process_map_or_def split: sum.splits option.splits elim!: monad_elims, blast+)
  then have "sys_steps chip sys sys1" using on_proc_region_steps by auto
  with gkd_schedule_steps [OF x] show ?thesis by (rule rtranclp_trans [rotated])
qed

lemma ipc_notify_steps: "ipc_notify t target pid sys = Some (r, sys') \<Longrightarrow> sys_steps chip sys sys'"
  unfolding ipc_notify_def process_map_or_def
  by (auto split: option.splits elim!: monad_elims intro: on_proc_enqueue_steps)

context mpu_contract
begin

lemma ipc_schedule_upcall_runs:
  assumes "ipc_schedule_upcall chip g so cf t sys = Some (r, sys')" "mpu chip = M" "grant_wf g"
  shows "sys_runs chip sys sys'"
proof -
  consider "sys' = sys" | so_id cf_id x where "Grant_enter chip g so (\<lambda>_ kd sys. Grant_enter chip g cf (\<lambda>_ kd' sys.
      share_and_schedule chip so cf so_id cf_id t kd kd' sys) sys) sys = Some (x, sys')"
    using assms(1) unfolding ipc_schedule_upcall_def by (auto split: option.splits elim!: monad_elims)
  then show ?thesis
  proof cases
    case 2
    then show ?thesis
      by (rule Grant_enter_runs [OF _ assms(2,3)], elim Grant_enter_runs [OF _ assms(2,3)])
        (rule steps_runs [OF share_and_schedule_steps assms(2)])
  qed simp
qed

lemma ipc_command_runs:
  assumes "ipc_command chip g n target r3 pid sys = Some (r, sys')" "mpu chip = M" "grant_wf g"
  shows "sys_runs chip sys sys'"
  using assms(1) steps_runs [OF ipc_notify_steps assms(2)]
  unfolding ipc_command_def ipc_discover_def
  by (auto split: if_splits elim!: monad_elims Grant_enter_runs [OF _ assms(2,3)])

lemma ipc_allocate_runs:
  "ipc_allocate_grant chip g pid sys = Some (r, sys') \<Longrightarrow> mpu chip = M \<Longrightarrow> grant_wf g \<Longrightarrow> sys_runs chip sys sys'"
  unfolding ipc_allocate_grant_def by (erule Grant_enter_runs) auto

end

end
