(* ===== verification/DeferredCalls.thy ===== *)
theory DeferredCalls
  imports Prelude
begin

text \<open>
  Deferred calls: \<open>kernel/src/deferred_call.rs\<close>. The three static variables are one record; a handler is
  a value of type \<open>'h\<close> that the parameter \<open>run\<close> executes. The lemmas show that pending calls are
  served once each, in the order of their index, and that \<open>is_pending\<close> never reports one.
\<close>

section \<open>Deferred calls\<close>

record 'h DeferredCalls =
  dc_ctr :: usize
  dc_bitmask :: u32
  dc_defcalls :: "'h option list"

definition DeferredCall_new :: "'h DeferredCalls \<Rightarrow> (usize \<times> 'h DeferredCalls) option" where
  "DeferredCall_new dc = do { idx \<leftarrow> chk_add (dc_ctr dc) 1; Some (idx, dc\<lparr>dc_ctr := idx\<rparr>) }"

definition deferred_register :: "usize \<Rightarrow> 'h \<Rightarrow> 'h DeferredCalls \<Rightarrow> 'h DeferredCalls" where
  "deferred_register idx handler dc =
     (if unat idx \<ge> length (dc_defcalls dc) then dc
      else dc\<lparr>dc_defcalls := (dc_defcalls dc)[unat idx := Some handler]\<rparr>)"

text \<open>A shift by 32 or more overflows.\<close>

definition shift_one :: "usize \<Rightarrow> u32 option" where
  "shift_one idx = (if unat idx < 32 then Some (push_bit (unat idx) 1) else None)"

definition deferred_set :: "usize \<Rightarrow> 'h DeferredCalls \<Rightarrow> 'h DeferredCalls option" where
  "deferred_set idx dc = do { b \<leftarrow> shift_one idx; Some (dc\<lparr>dc_bitmask := dc_bitmask dc OR b\<rparr>) }"

definition is_pending :: "usize \<Rightarrow> 'h DeferredCalls \<Rightarrow> bool option" where
  "is_pending idx dc = do { b \<leftarrow> shift_one idx; Some (dc_bitmask dc AND b = 1) }"

definition trailing_zeros :: "u32 \<Rightarrow> nat" where
  "trailing_zeros w = length (takeWhile (\<lambda>i. \<not> bit w i) [0..<32])"

definition service_next_pending ::
    "('h \<Rightarrow> 'h DeferredCalls \<Rightarrow> 's \<Rightarrow> ('h DeferredCalls \<times> 's) option) \<Rightarrow> 'h DeferredCalls \<Rightarrow> 's \<Rightarrow>
      (nat option \<times> 'h DeferredCalls \<times> 's) option" where
  "service_next_pending run dc s =
     (let val = dc_bitmask dc in
      if val = 0 then Some (None, dc, s)
      else
        let b = trailing_zeros val;
            dc = dc\<lparr>dc_bitmask := val AND NOT (push_bit b 1)\<rparr> in do {
        handler \<leftarrow> slice_get (dc_defcalls dc) b;
        (case handler of
           None \<Rightarrow> Some (None, dc, s)
         | Some h \<Rightarrow> do { (dc, s) \<leftarrow> run h dc s; Some (Some b, dc, s) })
      })"

definition deferred_has_tasks :: "'h DeferredCalls \<Rightarrow> bool" where
  "deferred_has_tasks dc \<longleftrightarrow> dc_bitmask dc \<noteq> 0"

definition verify_setup :: "'h DeferredCalls \<Rightarrow> unit option" where
  "verify_setup dc =
     (if unat (dc_ctr dc) \<ge> length (dc_defcalls dc) \<or>
         length (filter (\<lambda>opt. opt \<noteq> None) (dc_defcalls dc)) \<noteq> unat (dc_ctr dc)
      then None else Some ())"

text \<open>The loop of \<open>Scheduler::execute_kernel_work\<close>, which stops when an interrupt is pending.\<close>

partial_function (option) service_loop ::
    "('h \<Rightarrow> 'h DeferredCalls \<Rightarrow> 's \<Rightarrow> ('h DeferredCalls \<times> 's) option) \<Rightarrow> ('s \<Rightarrow> bool) \<Rightarrow>
      'h DeferredCalls \<Rightarrow> 's \<Rightarrow> ('h DeferredCalls \<times> 's) option" where
  "service_loop run interrupted dc s =
     (if deferred_has_tasks dc \<and> \<not> interrupted s then do {
        (_, dc, s) \<leftarrow> service_next_pending run dc s;
        service_loop run interrupted dc s
      } else Some (dc, s))"

declare service_loop.simps [code]

section \<open>Lemmas\<close>

text \<open>A new call gets an index from 1 on, and for such an index \<open>is_pending\<close> compares with a bit that is not 1.\<close>

lemma DeferredCall_new_idx: "DeferredCall_new dc = Some (idx, dc') \<Longrightarrow> 1 \<le> unat idx"
  by (auto simp: DeferredCall_new_def bind_eq_Some_conv checked_arith)

lemma and_shift_one: "0 < k \<Longrightarrow> w AND push_bit k 1 \<noteq> (1 :: u32)"
proof
  assume "0 < k" "w AND push_bit k 1 = 1"
  then have "bit (w AND push_bit k 1) 0 = bit (1 :: u32) 0" by simp
  with \<open>0 < k\<close> show False by (simp add: bit_simps)
qed

lemma is_pending_new:
  assumes "DeferredCall_new dc = Some (idx, dc')"
  shows "is_pending idx any \<noteq> Some True"
  using DeferredCall_new_idx [OF assms] and_shift_one [of "unat idx"]
  by (auto simp: is_pending_def shift_one_def bind_eq_Some_conv)

subsection \<open>The order of service\<close>

definition pending_bits :: "u32 \<Rightarrow> nat list" where
  "pending_bits w = filter (bit w) [0..<32]"

lemma pending_bits_zero: "pending_bits w = [] \<longleftrightarrow> w = 0"
proof
  assume "pending_bits w = []"
  then have "\<not> bit w n" if "n < 32" for n using that by (auto simp: pending_bits_def filter_empty_conv)
  then show "w = 0" by (intro bit_word_eqI) simp
qed (simp add: pending_bits_def)

lemma takeWhile_first:
  assumes "filter P xs = y # ys"
  shows "\<exists>as bs. xs = as @ y # bs \<and> takeWhile (\<lambda>x. \<not> P x) xs = as \<and> filter P bs = ys \<and> P y"
  using assms
proof (induction xs)
  case (Cons x xs)
  show ?case
  proof (cases "P x")
    case True
    then show ?thesis using Cons(2) by (intro exI [of _ "[]"] exI [of _ xs]) auto
  next
    case False
    then obtain as bs where "xs = as @ y # bs" "takeWhile (\<lambda>x. \<not> P x) xs = as" "filter P bs = ys" "P y"
      using Cons by auto
    then show ?thesis using False by (intro exI [of _ "x # as"] exI [of _ bs]) auto
  qed
qed simp

lemma pending_bits_Cons:
  assumes "pending_bits w = k # ks"
  shows "trailing_zeros w = k" "pending_bits (w AND NOT (push_bit k 1)) = ks" "k < 32"
proof -
  obtain as bs where s: "[0..<32] = as @ k # bs" "takeWhile (\<lambda>i. \<not> bit w i) [0..<32] = as" "filter (bit w) bs = ks" "bit w k"
    using takeWhile_first [of "bit w" "[0..<32]" k ks] assms by (auto simp: pending_bits_def)
  have len: "length as < 32" using arg_cong [OF s(1), of length] by simp
  then have k: "k = length as" using arg_cong [OF s(1), of "\<lambda>xs. xs ! length as"] by simp
  show "trailing_zeros w = k" using s(2) k by (simp add: trailing_zeros_def)
  show "k < 32" using len k by simp
  have d: "distinct (as @ k # bs)" using s(1) by (metis distinct_upt)
  have b: "bit (w AND NOT (push_bit k 1)) n \<longleftrightarrow> bit w n \<and> n \<noteq> k" if "n < 32" for n
    using that by (auto simp: bit_simps)
  have "filter (bit (w AND NOT (push_bit k 1))) [0..<32] = filter (\<lambda>n. bit w n \<and> n \<noteq> k) [0..<32]"
    using b by (intro filter_cong) auto
  also have "\<dots> = filter (\<lambda>n. n \<noteq> k) (filter (bit w) [0..<32])" by (simp add: conj_commute)
  also have "filter (bit w) [0..<32] = k # ks" using assms by (simp add: pending_bits_def)
  also have "filter (\<lambda>n. n \<noteq> k) (k # ks) = ks" using d s(3) by (auto intro!: filter_True)
  finally show "pending_bits (w AND NOT (push_bit k 1)) = ks" by (simp add: pending_bits_def)
qed

text \<open>
  With handlers that only record themselves, every pending call that has a handler is served once, lowest
  index first, and nothing stays pending.
\<close>

lemma service_loop_order:
  assumes "length (dc_defcalls dc) = 32"
  shows "service_loop (\<lambda>h dc log. Some (dc, log @ [h])) (\<lambda>_. False) dc log =
    Some (dc\<lparr>dc_bitmask := 0\<rparr>, log @ List.map_filter (\<lambda>k. dc_defcalls dc ! k) (pending_bits (dc_bitmask dc)))"
  using assms
proof (induction "pending_bits (dc_bitmask dc)" arbitrary: dc log)
  case Nil
  then have "dc_bitmask dc = 0" using pending_bits_zero by metis
  then show ?case using Nil
    by (subst service_loop.simps) (simp add: deferred_has_tasks_def List.map_filter_def pending_bits_zero)
next
  case (Cons k ks)
  note k = pending_bits_Cons [OF Cons(2) [symmetric]]
  have nz: "dc_bitmask dc \<noteq> 0" using Cons(2) pending_bits_zero [of "dc_bitmask dc"] by auto
  let ?dc = "dc\<lparr>dc_bitmask := dc_bitmask dc AND NOT (push_bit k 1)\<rparr>"
  have IH: "service_loop (\<lambda>h dc log. Some (dc, log @ [h])) (\<lambda>_. False) ?dc log =
      Some (dc\<lparr>dc_bitmask := 0\<rparr>, log @ List.map_filter (\<lambda>k. dc_defcalls dc ! k) ks)" for log
    using Cons(1) [of ?dc log] k(2) Cons(3) by simp
  show ?case
    using nz k IH Cons(3) Cons(2) [symmetric]
    by (subst service_loop.simps)
      (cases "dc_defcalls dc ! k"; simp add: deferred_has_tasks_def service_next_pending_def Let_def slice_get_def List.map_filter_def)
qed

end
