(* ===== verification/KernelLoop.thy ===== *)
theory KernelLoop
  imports Checker Scheduler Ipc DeferredCalls
begin

text \<open>
  The main loop of the kernel: \<open>do_process\<close>, \<open>kernel_loop_operation\<close> and \<open>kernel_loop\<close> of
  \<open>kernel/src/kernel.rs\<close>, with the scheduler interface of \<open>kernel/src/scheduler.rs\<close> and the scheduler
  timers of \<open>kernel/src/platform/scheduler_timer.rs\<close>. What the traits of the platform leave to a board
  (interrupt handlers, fault hooks, the watchdog, sleep) are fields of a record. \<open>None\<close> is a panic, or a
  process that never gives control back. The lemmas show that one round of the loop keeps the invariant
  of the system.
\<close>

section \<open>Scheduler timers\<close>

record 'w SchedulerTimer =
  st_start :: "u32 \<Rightarrow> 'w \<Rightarrow> 'w option"
  st_reset :: "'w \<Rightarrow> 'w"
  st_arm :: "'w \<Rightarrow> 'w"
  st_disarm :: "'w \<Rightarrow> 'w"
  st_get_remaining_us :: "'w \<Rightarrow> (u32 option \<times> 'w) option"

definition null_timer :: "'w SchedulerTimer" where
  "null_timer =
     \<lparr>st_start = (\<lambda>_ w. Some w), st_reset = (\<lambda>w. w), st_arm = (\<lambda>w. w), st_disarm = (\<lambda>w. w),
      st_get_remaining_us = (\<lambda>w. Some (Some 10000, w))\<rparr>"

definition VirtualSchedulerTimer :: "'t Ticks \<Rightarrow> u32 \<Rightarrow> ('t, 'w) AlarmOps \<Rightarrow> 'w SchedulerTimer" where
  "VirtualSchedulerTimer T hertz A =
     \<lparr>st_start = (\<lambda>us w.
        let tics = ucast ((ucast hertz * ucast us :: u64) div 1000000);
            (reference, w) = alarm_now A w in
        Some (alarm_set_alarm A reference (ticks_from_u32 T tics) w)),
      st_reset = alarm_disarm A,
      st_arm = (\<lambda>w. w),
      st_disarm = (\<lambda>w. w),
      st_get_remaining_us = (\<lambda>w. do {
        let alarm = alarm_get_alarm A w;
        let (now, w) = alarm_now A w;
        let diff = (ucast (ticks_into_u32 T (ticks_wrapping_sub T alarm now)) :: u64);
        if diff \<ge> ucast hertz \<or> diff = 0 then Some (None, w)
        else do {
          us \<leftarrow> chk_div (diff * 1000000) (ucast hertz :: u64);
          Some (Some (ucast us), w)
        } })\<rparr>"

section \<open>The platform\<close>

record ('hw, 'cfg, 'w, 'ss, 's) Scheduler =
  sched_next :: "'s \<Rightarrow> ('hw, 'cfg, 'w, 'ss) System \<Rightarrow> (SchedulingDecision \<times> 's) option"
  sched_result :: "StoppedExecutingReason \<Rightarrow> u32 option \<Rightarrow> 's \<Rightarrow> 's option"
  sched_do_kernel_work_now :: "bool \<Rightarrow> 's \<Rightarrow> bool"
  sched_continue_process :: "bool \<Rightarrow> 's \<Rightarrow> ('hw, 'cfg, 'w, 'ss) System \<Rightarrow> bool"

definition do_kernel_work_now_default :: "bool \<Rightarrow> 's \<Rightarrow> bool" where
  "do_kernel_work_now_default kernel_work s = kernel_work"

definition continue_process_default :: "bool \<Rightarrow> 's \<Rightarrow> ('hw, 'cfg, 'w, 'ss) System \<Rightarrow> bool" where
  "continue_process_default kernel_work s sys \<longleftrightarrow> \<not> kernel_work"

definition round_robin :: "('hw, 'cfg, 'w, 'ss, RoundRobinSched) Scheduler" where
  "round_robin =
     \<lparr>sched_next = rr_next, sched_result = rr_result, sched_do_kernel_work_now = do_kernel_work_now_default,
      sched_continue_process = continue_process_default\<rparr>"

definition cooperative :: "('hw, 'cfg, 'w, 'ss, CooperativeSched) Scheduler" where
  "cooperative =
     \<lparr>sched_next = coop_next, sched_result = coop_result, sched_do_kernel_work_now = do_kernel_work_now_default,
      sched_continue_process = continue_process_default\<rparr>"

definition priority :: "('hw, 'cfg, 'w, 'ss, PrioritySched) Scheduler" where
  "priority =
     \<lparr>sched_next = prio_next, sched_result = prio_result, sched_do_kernel_work_now = do_kernel_work_now_default,
      sched_continue_process = prio_continue_process\<rparr>"

record ('hw, 'cfg, 'w, 'ss, 'h) Platform =
  kp_filter :: "('cfg, 'ss) ProcessStandard \<Rightarrow> Syscall \<Rightarrow> ErrorCode + unit"
  kp_fault_hook :: "nat \<Rightarrow> ('hw, 'cfg, 'w, 'ss) System \<Rightarrow> ((unit + unit) \<times> ('hw, 'cfg, 'w, 'ss) System) option"
  kp_context_switch_hook :: "nat \<Rightarrow> ('hw, 'cfg, 'w, 'ss) System \<Rightarrow> ('hw, 'cfg, 'w, 'ss) System option"
  kp_scheduler_timer :: "'w SchedulerTimer"
  kp_id_differ :: "('cfg, 'ss) ProcessStandard \<Rightarrow> ('cfg, 'ss) ProcessStandard \<Rightarrow> bool"
  kp_ipc :: "Grant option"
  kp_enable_app_mpu :: "'hw \<Rightarrow> 'hw"
  kp_disable_app_mpu :: "'hw \<Rightarrow> 'hw"
  kp_has_pending_interrupts :: "'w \<Rightarrow> bool"
  kp_service_pending_interrupts :: "('hw, 'cfg, 'w, 'ss) System \<Rightarrow> ('hw, 'cfg, 'w, 'ss) System option"
  kp_deferred_calls :: "'w \<Rightarrow> 'h DeferredCalls"
  kp_put_deferred_calls :: "'h DeferredCalls \<Rightarrow> 'w \<Rightarrow> 'w"
  kp_handle_deferred_call :: "'h \<Rightarrow> ('hw, 'cfg, 'w, 'ss) System \<Rightarrow> ('hw, 'cfg, 'w, 'ss) System option"
  kp_sleep :: "'w \<Rightarrow> 'w"
  kp_watchdog_setup :: "'w \<Rightarrow> 'w"
  kp_watchdog_tickle :: "'w \<Rightarrow> 'w"
  kp_watchdog_suspend :: "'w \<Rightarrow> 'w"
  kp_watchdog_resume :: "'w \<Rightarrow> 'w"

definition has_kernel_work :: "('hw, 'cfg, 'w, 'ss, 'h) Platform \<Rightarrow> ('hw, 'cfg, 'w, 'ss) System \<Rightarrow> bool" where
  "has_kernel_work kp sys \<longleftrightarrow>
     kp_has_pending_interrupts kp (world (machine sys)) \<or> deferred_has_tasks (kp_deferred_calls kp (world (machine sys)))"

definition run_deferred ::
    "('hw, 'cfg, 'w, 'ss, 'h) Platform \<Rightarrow> 'h \<Rightarrow> 'h DeferredCalls \<Rightarrow> ('hw, 'cfg, 'w, 'ss) System \<Rightarrow>
      ('h DeferredCalls \<times> ('hw, 'cfg, 'w, 'ss) System) option" where
  "run_deferred kp h dc sys = do {
     sys \<leftarrow> kp_handle_deferred_call kp h (on_world (kp_put_deferred_calls kp dc) sys);
     Some (kp_deferred_calls kp (world (machine sys)), sys)
   }"

definition execute_kernel_work ::
    "('hw, 'cfg, 'w, 'ss, 'h) Platform \<Rightarrow> ('hw, 'cfg, 'w, 'ss) System \<Rightarrow> ('hw, 'cfg, 'w, 'ss) System option" where
  "execute_kernel_work kp sys = do {
     sys \<leftarrow> kp_service_pending_interrupts kp sys;
     (dc, sys) \<leftarrow> service_loop (run_deferred kp) (\<lambda>sys. kp_has_pending_interrupts kp (world (machine sys)))
                   (kp_deferred_calls kp (world (machine sys))) sys;
     Some (on_world (kp_put_deferred_calls kp dc) sys)
   }"

definition on_hw :: "('hw \<Rightarrow> 'hw) \<Rightarrow> ('hw, 'cfg, 'w, 'ss) System \<Rightarrow> ('hw, 'cfg, 'w, 'ss) System" where
  "on_hw f sys = sys\<lparr>machine := (machine sys)\<lparr>mpu_hw := f (mpu_hw (machine sys))\<rparr>\<rparr>"

definition remaining_us ::
    "'w SchedulerTimer \<Rightarrow> ('hw, 'cfg, 'w, 'ss) System \<Rightarrow> (u32 option \<times> ('hw, 'cfg, 'w, 'ss) System) option" where
  "remaining_us timer sys = do {
     (us, w) \<leftarrow> st_get_remaining_us timer (world (machine sys));
     Some (us, on_world (\<lambda>_. w) sys)
   }"

section \<open>Running a process\<close>

definition MIN_QUANTA_THRESHOLD_US :: u32 where
  "MIN_QUANTA_THRESHOLD_US = 500"

definition timeslice_expired ::
    "nat \<Rightarrow> ('hw, 'cfg, 'w, 'ss) System \<Rightarrow> (StoppedExecutingReason \<times> ('hw, 'cfg, 'w, 'ss) System) option" where
  "timeslice_expired i sys = do {
     sys \<leftarrow> run_proc i (\<lambda>p mc. do { p \<leftarrow> debug_timeslice_expired p; Some (p, mc) }) sys;
     Some (TimesliceExpired, sys)
   }"

text \<open>The switch to a process that is running, and back.\<close>

definition switch_and_return ::
    "('hw, 'cfg, 'w, 'ss) Chip \<Rightarrow> ('hw, 'cfg, 'w, 'ss, 'h) Platform \<Rightarrow> 'w SchedulerTimer \<Rightarrow> nat \<Rightarrow>
      ('hw, 'cfg, 'w, 'ss) System \<Rightarrow> (ContextSwitchReason option \<times> ('hw, 'cfg, 'w, 'ss) System) option" where
  "switch_and_return chip kp timer i sys = do {
     sys \<leftarrow> kp_context_switch_hook kp i sys;
     sys \<leftarrow> run_proc i (\<lambda>p mc. Some (setup_mpu chip p mc)) sys;
     let sys = on_world (st_arm timer) (on_hw (kp_enable_app_mpu kp) sys);
     (reason, sys) \<leftarrow> on_proc i (switch_to chip) sys;
     Some (reason, on_hw (kp_disable_app_mpu kp) (on_world (st_disarm timer) sys))
   }"

text \<open>What a running process came back with. \<open>Inl\<close> leaves the loop, \<open>Inr\<close> goes round again.\<close>

definition handle_switch ::
    "('hw, 'cfg, 'w, 'ss) Chip \<Rightarrow> (usize \<Rightarrow> ('hw, 'cfg, 'w, 'ss) SyscallDriver option) \<Rightarrow> ('hw, 'cfg, 'w, 'ss, 'h) Platform \<Rightarrow>
      'w SchedulerTimer \<Rightarrow> nat \<Rightarrow> ContextSwitchReason option \<Rightarrow> ('hw, 'cfg, 'w, 'ss) System \<Rightarrow>
      ((StoppedExecutingReason + unit) \<times> ('hw, 'cfg, 'w, 'ss) System) option" where
  "handle_switch chip drivers kp timer i reason sys =
     (case reason of
        Some Fault \<Rightarrow> do {
          (r, sys) \<leftarrow> kp_fault_hook kp i sys;
          sys \<leftarrow> (case r of Inl _ \<Rightarrow> run_proc i (set_fault_state chip) sys | Inr _ \<Rightarrow> Some sys);
          Some (Inr (), sys)
        }
      | Some (SyscallFired syscall) \<Rightarrow> do {
          sys \<leftarrow> handle_syscall chip drivers (kp_filter kp) i syscall sys;
          Some (Inr (), sys)
        }
      | Some Interrupted \<Rightarrow> do {
          (us, sys) \<leftarrow> remaining_us timer sys;
          (case us of
             None \<Rightarrow> do { (r, sys) \<leftarrow> timeslice_expired i sys; Some (Inl r, sys) }
           | Some _ \<Rightarrow> Some (Inr (), sys))
        }
      | None \<Rightarrow> do { sys \<leftarrow> run_proc i (set_fault_state chip) sys; Some (Inr (), sys) })"

definition run_pending_task ::
    "('hw, 'cfg, 'w, 'ss) Chip \<Rightarrow> ('hw, 'cfg, 'w, 'ss, 'h) Platform \<Rightarrow> nat \<Rightarrow> ('hw, 'cfg, 'w, 'ss) System \<Rightarrow>
      ((StoppedExecutingReason + unit) \<times> ('hw, 'cfg, 'w, 'ss) System) option" where
  "run_pending_task chip kp i sys = do {
     (task, sys) \<leftarrow> on_proc i (\<lambda>p mc. do { (t, p) \<leftarrow> dequeue_task p; Some (t, p, mc) }) sys;
     (case task of
        None \<Rightarrow> Some (Inl NoWorkLeft, sys)
      | Some (FunctionCall ccb) \<Rightarrow> do { sys \<leftarrow> run_proc i (proc_set_process_function chip ccb) sys; Some (Inr (), sys) }
      | Some (IPC otherapp ipc_type) \<Rightarrow> do {
          ipc \<leftarrow> kp_ipc kp;
          p \<leftarrow> slot i sys;
          (_, sys) \<leftarrow> ipc_schedule_upcall chip ipc (process_id p) otherapp ipc_type sys;
          Some (Inr (), sys)
        })
   }"

definition start_or_terminate ::
    "('hw, 'cfg, 'w, 'ss, 'h) Platform \<Rightarrow> nat \<Rightarrow> ('hw, 'cfg, 'w, 'ss) System \<Rightarrow>
      ((StoppedExecutingReason + unit) \<times> ('hw, 'cfg, 'w, 'ss) System) option" where
  "start_or_terminate kp i sys = do {
     p \<leftarrow> slot i sys;
     sys \<leftarrow> (if is_runnable p (procs sys) (kp_id_differ kp)
            then run_proc i (\<lambda>p mc. do { (_, p) \<leftarrow> enqueue_init_task p; Some (p, mc) }) sys
            else run_proc i (\<lambda>p mc. Some (terminate None p, mc)) sys);
     Some (Inr (), sys)
   }"

text \<open>One round of the loop of \<open>do_process\<close>.\<close>

definition process_round ::
    "('hw, 'cfg, 'w, 'ss) Chip \<Rightarrow> (usize \<Rightarrow> ('hw, 'cfg, 'w, 'ss) SyscallDriver option) \<Rightarrow> ('hw, 'cfg, 'w, 'ss, 'h) Platform \<Rightarrow>
      ('hw, 'cfg, 'w, 'ss, 's) Scheduler \<Rightarrow> 's \<Rightarrow> 'w SchedulerTimer \<Rightarrow> nat \<Rightarrow> ('hw, 'cfg, 'w, 'ss) System \<Rightarrow>
      ((StoppedExecutingReason + unit) \<times> ('hw, 'cfg, 'w, 'ss) System) option" where
  "process_round chip drivers kp scheduler s timer i sys = do {
     (us, sys) \<leftarrow> remaining_us timer sys;
     if (case us of Some us \<Rightarrow> us \<le> MIN_QUANTA_THRESHOLD_US | None \<Rightarrow> True)
     then do { (r, sys) \<leftarrow> timeslice_expired i sys; Some (Inl r, sys) }
     else if \<not> sched_continue_process scheduler (has_kernel_work kp sys) s sys then Some (Inl KernelPreemption, sys)
     else do {
       p \<leftarrow> slot i sys;
       if \<not> ready p then Some (Inl NoWorkLeft, sys)
       else
         (case pstate p of
            Running \<Rightarrow> do {
              (reason, sys) \<leftarrow> switch_and_return chip kp timer i sys;
              handle_switch chip drivers kp timer i reason sys
            }
          | Yielded \<Rightarrow> run_pending_task chip kp i sys
          | CredentialsApproved \<Rightarrow> start_or_terminate kp i sys
          | StoppedRunning \<Rightarrow> Some (Inl Stopped, sys)
          | StoppedYielded \<Rightarrow> Some (Inl Stopped, sys)
          | _ \<Rightarrow> None)
     }
   }"

partial_function (option) process_loop ::
    "('hw, 'cfg, 'w, 'ss) Chip \<Rightarrow> (usize \<Rightarrow> ('hw, 'cfg, 'w, 'ss) SyscallDriver option) \<Rightarrow> ('hw, 'cfg, 'w, 'ss, 'h) Platform \<Rightarrow>
      ('hw, 'cfg, 'w, 'ss, 's) Scheduler \<Rightarrow> 's \<Rightarrow> 'w SchedulerTimer \<Rightarrow> nat \<Rightarrow> ('hw, 'cfg, 'w, 'ss) System \<Rightarrow>
      (StoppedExecutingReason \<times> ('hw, 'cfg, 'w, 'ss) System) option" where
  "process_loop chip drivers kp scheduler s timer i sys = do {
     (r, sys) \<leftarrow> process_round chip drivers kp scheduler s timer i sys;
     (case r of
        Inl reason \<Rightarrow> Some (reason, sys)
      | Inr _ \<Rightarrow> process_loop chip drivers kp scheduler s timer i sys)
   }"

declare process_loop.simps [code]

definition do_process ::
    "('hw, 'cfg, 'w, 'ss) Chip \<Rightarrow> (usize \<Rightarrow> ('hw, 'cfg, 'w, 'ss) SyscallDriver option) \<Rightarrow> ('hw, 'cfg, 'w, 'ss, 'h) Platform \<Rightarrow>
      ('hw, 'cfg, 'w, 'ss, 's) Scheduler \<Rightarrow> 's \<Rightarrow> nat \<Rightarrow> u32 option \<Rightarrow> ('hw, 'cfg, 'w, 'ss) System \<Rightarrow>
      ((StoppedExecutingReason \<times> u32 option) \<times> ('hw, 'cfg, 'w, 'ss) System) option" where
  "do_process chip drivers kp scheduler s i timeslice_us sys = do {
     let timer = (if timeslice_us = None then null_timer else kp_scheduler_timer kp);
     let sys = on_world (st_reset timer) sys;
     sys \<leftarrow> (case timeslice_us of
         None \<Rightarrow> Some sys
       | Some timeslice \<Rightarrow> do { w \<leftarrow> st_start timer timeslice (world (machine sys)); Some (on_world (\<lambda>_. w) sys) });
     (return_reason, sys) \<leftarrow> process_loop chip drivers kp scheduler s timer i sys;
     (time_executed_us, sys) \<leftarrow> (case timeslice_us of
         None \<Rightarrow> Some (None, sys)
       | Some timeslice \<Rightarrow>
           if return_reason = TimesliceExpired then Some (Some timeslice, sys)
           else do {
             (us, sys) \<leftarrow> remaining_us timer sys;
             (case us of
                Some remaining \<Rightarrow> do { t \<leftarrow> chk_sub timeslice remaining; Some (Some t, sys) }
              | None \<Rightarrow> Some (Some timeslice, sys))
           });
     Some ((return_reason, time_executed_us), on_world (st_reset timer) sys)
   }"

section \<open>The loop\<close>

definition kernel_loop_operation ::
    "('hw, 'cfg, 'w, 'ss) Chip \<Rightarrow> (usize \<Rightarrow> ('hw, 'cfg, 'w, 'ss) SyscallDriver option) \<Rightarrow> ('hw, 'cfg, 'w, 'ss, 'h) Platform \<Rightarrow>
      ('hw, 'cfg, 'w, 'ss, 's) Scheduler \<Rightarrow> bool \<Rightarrow> 's \<times> ('hw, 'cfg, 'w, 'ss) System \<Rightarrow>
      ('s \<times> ('hw, 'cfg, 'w, 'ss) System) option" where
  "kernel_loop_operation chip drivers kp scheduler no_sleep = (\<lambda>(s, sys). do {
     let sys = on_world (kp_watchdog_tickle kp) sys;
     if sched_do_kernel_work_now scheduler (has_kernel_work kp sys) s then do {
       sys \<leftarrow> execute_kernel_work kp sys;
       Some (s, sys)
     }
     else do {
       (decision, s) \<leftarrow> sched_next scheduler s sys;
       (case decision of
          RunProcess pid timeslice_us \<Rightarrow>
            (case get_process pid sys of
               None \<Rightarrow> Some (s, sys)
             | Some i \<Rightarrow> do {
                 ((reason, time_executed), sys) \<leftarrow> do_process chip drivers kp scheduler s i timeslice_us sys;
                 s \<leftarrow> sched_result scheduler reason time_executed s;
                 Some (s, sys)
               })
        | TrySleep \<Rightarrow>
            Some (s, if \<not> no_sleep \<and> \<not> has_kernel_work kp sys
                     then on_world (kp_watchdog_resume kp \<circ> kp_sleep kp \<circ> kp_watchdog_suspend kp) sys
                     else sys))
     }
   })"

text \<open>The main loop does not return; this is its state after a number of rounds.\<close>

fun kernel_loop_rounds ::
    "('hw, 'cfg, 'w, 'ss) Chip \<Rightarrow> (usize \<Rightarrow> ('hw, 'cfg, 'w, 'ss) SyscallDriver option) \<Rightarrow> ('hw, 'cfg, 'w, 'ss, 'h) Platform \<Rightarrow>
      ('hw, 'cfg, 'w, 'ss, 's) Scheduler \<Rightarrow> nat \<Rightarrow> 's \<times> ('hw, 'cfg, 'w, 'ss) System \<Rightarrow>
      ('s \<times> ('hw, 'cfg, 'w, 'ss) System) option" where
  "kernel_loop_rounds chip drivers kp scheduler 0 st = Some st"
| "kernel_loop_rounds chip drivers kp scheduler (Suc n) st = do {
     st \<leftarrow> kernel_loop_operation chip drivers kp scheduler False st;
     kernel_loop_rounds chip drivers kp scheduler n st
   }"

definition kernel_loop ::
    "('hw, 'cfg, 'w, 'ss) Chip \<Rightarrow> (usize \<Rightarrow> ('hw, 'cfg, 'w, 'ss) SyscallDriver option) \<Rightarrow> ('hw, 'cfg, 'w, 'ss, 'h) Platform \<Rightarrow>
      ('hw, 'cfg, 'w, 'ss, 's) Scheduler \<Rightarrow> nat \<Rightarrow> 's \<times> ('hw, 'cfg, 'w, 'ss) System \<Rightarrow>
      ('s \<times> ('hw, 'cfg, 'w, 'ss) System) option" where
  "kernel_loop chip drivers kp scheduler rounds = (\<lambda>(s, sys). do {
     let sys = on_world (kp_watchdog_setup kp) sys;
     _ \<leftarrow> verify_setup (kp_deferred_calls kp (world (machine sys)));
     kernel_loop_rounds chip drivers kp scheduler rounds (s, sys)
   })"

section \<open>Lemmas\<close>

lemma on_hw_step: "sys_steps chip sys (on_hw f sys)"
  using sys_outside [of chip sys "world (machine sys)" "memory (machine sys)" "f (mpu_hw (machine sys))"]
  by (auto simp: on_hw_def)

text \<open>
  A process runs on a Cortex-M chip only while the unit is on and its registers hold the process's own
  configuration; the unit is off when the kernel is back.
\<close>

lemma switch_protected:
  assumes "switch_and_return chip kp timer i sys = Some (reason, sys')" "mpu chip = cortexm_mpu k m"
    "kp_context_switch_hook kp = (\<lambda>_ sys. Some sys)" "kp_enable_app_mpu kp = cm_enable_app_mpu" "kp_disable_app_mpu kp = cm_disable_app_mpu"
    "slot i sys = Some p" "mpu_config p = Some c" "config_wf c" "cache_ok (mpu_hw (machine sys)) c"
  shows "(\<exists>sys1 sys2. on_proc i (switch_to chip) sys1 = Some (reason, sys2) \<and> hw_matches (mpu_hw (machine sys1)) c \<and>
      Field_read CTRL_ENABLE (ctrl_reg (mpu_hw (machine sys1))) = 1) \<and>
    Field_read CTRL_ENABLE (ctrl_reg (mpu_hw (machine sys'))) = 0"
proof -
  obtain hw c' where conf: "cm_configure_mpu (mpu_hw (machine sys)) c = (hw, c')" by fastforce
  from assms(1) obtain sys0 sys2 where
    sys0: "run_proc i (\<lambda>p mc. Some (setup_mpu chip p mc)) sys = Some sys0"
    and sw: "on_proc i (switch_to chip) (on_world (st_arm timer) (on_hw cm_enable_app_mpu sys0)) = Some (reason, sys2)"
    and sys': "sys' = on_hw cm_disable_app_mpu (on_world (st_disarm timer) sys2)"
    unfolding switch_and_return_def Let_def assms(3-5) by (elim monad_elims) auto
  have "mpu_hw (machine sys0) = hw"
    using sys0 assms(2,6,7) conf
    by (auto simp: run_proc_def on_proc_def setup_mpu_def cortexm_mpu_def put_proc_def elim!: monad_elims)
  then have "hw_matches (mpu_hw (machine sys0)) c"
    using configure_loads [OF assms(8,9) conf] by (simp add: hw_matches_def)
  then show ?thesis using sw sys' by (auto simp: on_world_def on_hw_def app_mpu_ctrl)
qed

text \<open>A process that runs a notification of its own sending panics the kernel.\<close>

lemma self_notified_panics:
  assumes "slot i sys = Some p" "get_process (process_id p) sys = Some i" "kp_ipc kp = Some g"
    "grant_is_allocated (grant_grant_num g) p = Some True" "dequeue_task p = Some (Some (IPC (process_id p) t), p1)"
  shows "run_pending_task chip kp i sys = None"
proof -
  have p1: "process_id p1 = process_id p" "grant_is_allocated (grant_grant_num g) p1 = Some True"
    using assms(4,5)
    by (auto simp: dequeue_task_def grant_is_allocated_def grant_get_def is_running_def split: option.splits elim!: monad_elims)
  let ?sys = "(put_proc i p1 sys)\<lparr>machine := machine sys\<rparr>"
  have s: "slot i ?sys = Some p1" using slot_less [OF assms(1)] by simp
  have "get_process (process_id p1) ?sys = Some i"
    using assms(1,2) s p1(1) by (auto simp: get_process_def ProcessId_eq_def split: option.splits if_splits)
  from self_notify_panics [OF this s p1(2)] show ?thesis
    using assms(1,3,5) s p1(1) by (simp add: run_pending_task_def on_proc_def)
qed

lemma service_next_keeps:
  assumes "service_next_pending run dc s = Some (r, dc', s')" "R s s" "\<And>h dc dc' s'. run h dc s = Some (dc', s') \<Longrightarrow> R s s'"
  shows "R s s'"
  using assms by (auto simp: service_next_pending_def Let_def split: if_splits option.splits elim!: monad_elims)

lemma service_loop_keeps:
  assumes "service_loop run interrupted dc s = Some (dc', s')"
    and refl: "\<And>s. R s s" and trans: "\<And>a b c. R a b \<Longrightarrow> R b c \<Longrightarrow> R a c"
    and step: "\<And>h dc s dc' s'. run h dc s = Some (dc', s') \<Longrightarrow> R s s'"
  shows "R s s'"
proof -
  have "(\<forall>h dc a dc' b. run h dc a = Some (dc', b) \<longrightarrow> R a b) \<longrightarrow> R s (snd y)"
    if "service_loop run interrupted dc s = Some y" for y
  proof (rule service_loop.raw_induct [OF _ that], goal_cases)
    case (1 rec run interrupted dc s y)
    show ?case
    proof (intro impI)
      assume steps: "\<forall>h dc a dc' b. run h dc a = Some (dc', b) \<longrightarrow> R a b"
      consider "y = (dc, s)" | r dc1 s1 where "service_next_pending run dc s = Some (r, dc1, s1)" "rec run interrupted dc1 s1 = Some y"
        using 1(2) by (auto split: if_splits elim!: monad_elims)
      then show "R s (snd y)"
      proof cases
        case 2
        have "R s s1" using service_next_keeps [OF 2(1), of R] refl steps by blast
        moreover have "R s1 (snd y)" using 1(1) [OF 2(2)] steps by blast
        ultimately show ?thesis by (rule trans)
      qed (simp add: refl)
    qed
  qed
  with assms(1) step show ?thesis by fastforce
qed

text \<open>
  What a board promises of the parts that it provides: they change the system only in steps of the
  system.
\<close>

locale kernel_platform = driver_table M chip drivers
  for M :: "('hw, 'cfg) MPU" and chip :: "('hw, 'cfg, 'w, 'ss) Chip" and drivers +
  fixes kp :: "('hw, 'cfg, 'w, 'ss, 'h) Platform"
  assumes fault_hook_runs: "kp_fault_hook kp i sys = Some (r, sys') \<Longrightarrow> sys_runs chip sys sys'"
    and switch_hook_runs: "kp_context_switch_hook kp i sys = Some sys' \<Longrightarrow> sys_runs chip sys sys'"
    and interrupts_run: "kp_service_pending_interrupts kp sys = Some sys' \<Longrightarrow> sys_runs chip sys sys'"
    and deferred_runs: "kp_handle_deferred_call kp h sys = Some sys' \<Longrightarrow> sys_runs chip sys sys'"
    and ipc_wf: "kp_ipc kp = Some g \<Longrightarrow> grant_wf g"
begin

lemma world_runs: "sys_runs chip sys (on_world f sys)"
  by (rule runs_of_steps [OF on_world_step])

lemma hw_runs: "sys_runs chip sys (on_hw f sys)"
  by (rule runs_of_steps [OF on_hw_step])

lemma remaining_runs: "remaining_us timer sys = Some (us, sys') \<Longrightarrow> sys_runs chip sys sys'"
  by (auto simp: remaining_us_def elim!: monad_elims intro: world_runs)

lemma run_proc_runs:
  assumes "run_proc i f sys = Some sys'" "\<And>p mc p' mc'. f p mc = Some (p', mc') \<Longrightarrow> proc_steps chip (p, mc) (p', mc')"
  shows "sys_runs chip sys sys'"
  by (rule runs_of_steps, rule run_proc_steps [OF assms(1)]) (rule assms(2))

lemma timeslice_runs: "timeslice_expired i sys = Some (r, sys') \<Longrightarrow> sys_runs chip sys sys'"
  unfolding timeslice_expired_def
  by (elim monad_elims) (auto elim!: run_proc_runs monad_elims intro: step_timeslice)

lemma fault_runs: "run_proc i (set_fault_state chip) sys = Some sys' \<Longrightarrow> sys_runs chip sys sys'"
  by (erule run_proc_runs) (auto intro: step_fault)

lemma switch_and_return_runs:
  assumes "switch_and_return chip kp timer i sys = Some (reason, sys')"
  shows "sys_runs chip sys sys'"
proof -
  obtain sys1 sys2 sys3 where s: "kp_context_switch_hook kp i sys = Some sys1"
      "run_proc i (\<lambda>p mc. Some (setup_mpu chip p mc)) sys1 = Some sys2"
      "on_proc i (switch_to chip) (on_world (st_arm timer) (on_hw (kp_enable_app_mpu kp) sys2)) = Some (reason, sys3)"
      "sys' = on_hw (kp_disable_app_mpu kp) (on_world (st_disarm timer) sys3)"
    using assms unfolding switch_and_return_def Let_def by (elim monad_elims) auto
  have "sys_runs chip sys sys1" by (rule switch_hook_runs [OF s(1)])
  also have "sys_runs chip sys1 sys2" by (rule run_proc_runs [OF s(2)]) (auto intro: step_setup_mpu)
  also have "sys_runs chip sys2 (on_world (st_arm timer) (on_hw (kp_enable_app_mpu kp) sys2))"
    by (rule sys_runs_trans [OF hw_runs world_runs])
  also have "sys_runs chip \<dots> sys3" by (rule runs_of_steps, rule on_proc_steps [OF s(3)]) (auto intro: step_switch)
  also have "sys_runs chip sys3 sys'" unfolding s(4) by (rule sys_runs_trans [OF world_runs hw_runs])
  finally show ?thesis .
qed

lemma handle_switch_runs:
  assumes "handle_switch chip drivers kp timer i reason sys = Some (r, sys')"
  shows "sys_runs chip sys sys'"
  using assms unfolding handle_switch_def
  by (auto split: option.splits ContextSwitchReason.splits sum.splits elim!: monad_elims
      dest: fault_hook_runs handle_syscall_runs fault_runs remaining_runs timeslice_runs intro: sys_runs_trans)

lemma run_pending_task_runs:
  assumes "run_pending_task chip kp i sys = Some (r, sys')"
  shows "sys_runs chip sys sys'"
proof -
  obtain t sys1 where t: "on_proc i (\<lambda>p mc. do { (t, p) \<leftarrow> dequeue_task p; Some (t, p, mc) }) sys = Some (t, sys1)"
    and rest: "sys' = sys1 \<or> (\<exists>ccb. run_proc i (proc_set_process_function chip ccb) sys1 = Some sys') \<or>
      (\<exists>g pid other ty x. kp_ipc kp = Some g \<and> ipc_schedule_upcall chip g pid other ty sys1 = Some (x, sys'))"
    using assms unfolding run_pending_task_def
    by (elim monad_elims) (auto split: option.splits Task.splits elim!: monad_elims, blast+)
  have "sys_runs chip sys sys1"
    by (rule runs_of_steps, rule on_proc_steps [OF t]) (auto elim!: monad_elims intro: step_dequeue)
  moreover have "sys_runs chip sys1 sys'" if "run_proc i (proc_set_process_function chip ccb) sys1 = Some sys'" for ccb
    using that by (rule run_proc_runs) (auto intro: step_set_function)
  ultimately show ?thesis
    using rest ipc_schedule_upcall_runs [OF _ chip_mpu ipc_wf] by (auto intro: sys_runs_trans)
qed

lemma start_or_terminate_runs:
  assumes "start_or_terminate kp i sys = Some (r, sys')"
  shows "sys_runs chip sys sys'"
proof -
  have "sys_runs chip sys sys'" if "run_proc i (\<lambda>p mc. do { (_, p) \<leftarrow> enqueue_init_task p; Some (p, mc) }) sys = Some sys'"
    using that by (rule run_proc_runs) (auto elim!: monad_elims intro: step_init)
  moreover have "sys_runs chip sys sys'" if "run_proc i (\<lambda>p mc. Some (terminate None p, mc)) sys = Some sys'"
    using that by (rule run_proc_runs) (auto intro: step_terminate)
  ultimately show ?thesis using assms unfolding start_or_terminate_def
    by (elim monad_elims) (auto split: if_splits elim!: monad_elims)
qed

lemma process_round_runs:
  assumes "process_round chip drivers kp scheduler s timer i sys = Some (r, sys')"
  shows "sys_runs chip sys sys'"
proof -
  obtain us sys1 where us: "remaining_us timer sys = Some (us, sys1)"
    and "sys' = sys1 \<or> (\<exists>x. timeslice_expired i sys1 = Some (x, sys')) \<or>
      (\<exists>reason sys2. switch_and_return chip kp timer i sys1 = Some (reason, sys2) \<and>
        handle_switch chip drivers kp timer i reason sys2 = Some (r, sys')) \<or>
      run_pending_task chip kp i sys1 = Some (r, sys') \<or> start_or_terminate kp i sys1 = Some (r, sys')"
    using assms unfolding process_round_def
    by (elim monad_elims) (auto split: if_splits State.splits elim!: monad_elims)
  then have "sys_runs chip sys1 sys'"
    by (auto dest: timeslice_runs switch_and_return_runs handle_switch_runs run_pending_task_runs start_or_terminate_runs
        intro: sys_runs_trans)
  with remaining_runs [OF us] show ?thesis by (rule sys_runs_trans)
qed

lemma process_loop_runs:
  assumes "process_loop chip drivers kp scheduler s timer i sys = Some (r, sys')"
  shows "sys_runs chip sys sys'"
proof -
  let ?P = "\<lambda>c d k sc s t i sys y. c = chip \<and> d = drivers \<and> k = kp \<longrightarrow> sys_runs chip sys (snd y)"
  have "?P chip drivers kp scheduler s timer i sys (r, sys')"
  proof (rule process_loop.raw_induct [OF _ assms, of ?P], goal_cases)
    case (1 rec c d k sc s t i sys y)
    show ?case
    proof (intro impI, elim conjE)
      assume [simp]: "c = chip" "d = drivers" "k = kp"
      obtain r sys1 where round: "process_round chip drivers kp sc s t i sys = Some (r, sys1)"
        and rest: "(\<exists>reason. y = (reason, sys1)) \<or> rec chip drivers kp sc s t i sys1 = Some y"
        using 1(2) by (auto split: sum.splits elim!: monad_elims)
      from rest have "sys_runs chip sys1 (snd y)" using 1(1) [of chip drivers kp sc s t i sys1 y] by auto
      with process_round_runs [OF round] show "sys_runs chip sys (snd y)" by (rule sys_runs_trans)
    qed
  qed
  then show ?thesis by simp
qed

lemma do_process_runs:
  assumes "do_process chip drivers kp scheduler s i timeslice sys = Some (r, sys')"
  shows "sys_runs chip sys sys'"
proof -
  obtain timer sys1 reason sys2 sys3 where s: "sys1 = on_world (st_reset timer) sys \<or> (\<exists>w. sys1 = on_world (\<lambda>_. w) (on_world (st_reset timer) sys))"
      "process_loop chip drivers kp scheduler s timer i sys1 = Some (reason, sys2)"
      "sys3 = sys2 \<or> (\<exists>us. remaining_us timer sys2 = Some (us, sys3))" "sys' = on_world (st_reset timer) sys3"
    using assms unfolding do_process_def Let_def
    by (elim monad_elims) (auto split: option.splits if_splits elim!: monad_elims, blast+)
  have "sys_runs chip sys sys1" using s(1) by (auto intro: sys_runs_trans world_runs)
  also have "sys_runs chip sys1 sys2" by (rule process_loop_runs [OF s(2)])
  also have "sys_runs chip sys2 sys3" using s(3) remaining_runs by auto
  also have "sys_runs chip sys3 sys'" unfolding s(4) by (rule world_runs)
  finally show ?thesis .
qed

lemma execute_kernel_work_runs:
  assumes "execute_kernel_work kp sys = Some sys'"
  shows "sys_runs chip sys sys'"
proof -
  obtain sys1 dc sys2 where s: "kp_service_pending_interrupts kp sys = Some sys1"
      "service_loop (run_deferred kp) (\<lambda>sys. kp_has_pending_interrupts kp (world (machine sys)))
        (kp_deferred_calls kp (world (machine sys1))) sys1 = Some (dc, sys2)"
      "sys' = on_world (kp_put_deferred_calls kp dc) sys2"
    using assms unfolding execute_kernel_work_def by (elim monad_elims) auto
  have "sys_runs chip sys sys1" by (rule interrupts_run [OF s(1)])
  also have "sys_runs chip sys1 sys2"
    using s(2) by (rule service_loop_keeps [where R = "sys_runs chip"])
      (auto simp: run_deferred_def elim!: monad_elims intro: sys_runs_trans world_runs deferred_runs)
  also have "sys_runs chip sys2 sys'" unfolding s(3) by (rule world_runs)
  finally show ?thesis .
qed

lemma kernel_loop_operation_runs:
  assumes "kernel_loop_operation chip drivers kp scheduler no_sleep (s, sys) = Some (s', sys')"
  shows "sys_runs chip sys sys'"
proof -
  let ?sys = "on_world (kp_watchdog_tickle kp) sys"
  have "sys' = ?sys \<or> execute_kernel_work kp ?sys = Some sys' \<or> (\<exists>f. sys' = on_world f ?sys) \<or>
      (\<exists>s i t r. do_process chip drivers kp scheduler s i t ?sys = Some (r, sys'))"
    using assms unfolding kernel_loop_operation_def Let_def
    by (auto split: if_splits SchedulingDecision.splits option.splits elim!: monad_elims)
  then have "sys_runs chip ?sys sys'"
    by (auto dest: execute_kernel_work_runs do_process_runs intro: world_runs)
  with world_runs show ?thesis by (rule sys_runs_trans)
qed

lemma kernel_loop_rounds_run:
  "kernel_loop_rounds chip drivers kp scheduler n (s, sys) = Some (s', sys') \<Longrightarrow> sys_runs chip sys sys'"
proof (induction n arbitrary: s sys)
  case (Suc n)
  then obtain s1 sys1 where "kernel_loop_operation chip drivers kp scheduler False (s, sys) = Some (s1, sys1)"
      "kernel_loop_rounds chip drivers kp scheduler n (s1, sys1) = Some (s', sys')"
    by (auto elim!: monad_elims)
  then show ?case by (rule sys_runs_trans [OF kernel_loop_operation_runs Suc(1)])
qed simp

lemma kernel_loop_runs:
  assumes "kernel_loop chip drivers kp scheduler n (s, sys) = Some (s', sys')"
  shows "sys_runs chip sys sys'"
proof -
  have "kernel_loop_rounds chip drivers kp scheduler n (s, on_world (kp_watchdog_setup kp) sys) = Some (s', sys')"
    using assms unfolding kernel_loop_def Let_def by (auto elim!: monad_elims)
  from sys_runs_trans [OF world_runs kernel_loop_rounds_run [OF this]] show ?thesis .
qed

end

section \<open>A board\<close>

text \<open>
  A Cortex-M board with LEDs, buttons and communication between four processes. \<open>fired\<close> is the pin whose
  interrupt is pending, \<open>ack\<close> clears it; no deferred calls have a client, and faults are left to the
  policy of the process.
\<close>

definition board_ipc :: "usize \<Rightarrow> Grant" where
  "board_ipc grant_num = IPC_new 4 IPC_DRIVER_NUM grant_num"

definition board_drivers ::
    "('hw, 'cfg, 'w, 'ss) Chip \<Rightarrow> 'w Led list \<Rightarrow> ('w Pin \<times> ActivationMode \<times> FloatingState) list \<Rightarrow>
      usize \<Rightarrow> ('hw, 'cfg, 'w, 'ss) SyscallDriver option" where
  "board_drivers chip leds pins driver_num =
     (if driver_num = IPC_DRIVER_NUM then Some (IPCDriver chip (board_ipc 1)) else drivers_of chip leds pins 0 driver_num)"

definition board_platform ::
    "('w Pin \<times> ActivationMode \<times> FloatingState) list \<Rightarrow> ('w \<Rightarrow> u32 option) \<Rightarrow> ('w \<Rightarrow> 'w) \<Rightarrow> 'w SchedulerTimer \<Rightarrow>
      ('w \<Rightarrow> unit DeferredCalls) \<Rightarrow> (unit DeferredCalls \<Rightarrow> 'w \<Rightarrow> 'w) \<Rightarrow>
      (cortexm_hw, 'cfg, 'w, 'ss, unit) Platform" where
  "board_platform pins fired ack timer get_dc put_dc =
     \<lparr>kp_filter = filter_syscall_default_allow, kp_fault_hook = (\<lambda>_ sys. Some (Inl (), sys)), kp_context_switch_hook = (\<lambda>_ sys. Some sys),
      kp_scheduler_timer = timer, kp_id_differ = different_identifier (null_policy :: (unit, 'cfg, 'ss) CredentialsCheckingPolicy), kp_ipc = Some (board_ipc 1),
      kp_enable_app_mpu = cm_enable_app_mpu, kp_disable_app_mpu = cm_disable_app_mpu,
      kp_has_pending_interrupts = (\<lambda>w. fired w \<noteq> None),
      kp_service_pending_interrupts = (\<lambda>sys.
        case fired (world (machine sys)) of
          None \<Rightarrow> Some sys
        | Some n \<Rightarrow> button_fired \<lparr>btn_pins = pins, btn_apps = button_grant 0\<rparr> n (on_world ack sys)),
      kp_deferred_calls = get_dc, kp_put_deferred_calls = put_dc, kp_handle_deferred_call = (\<lambda>_ sys. Some sys),
      kp_sleep = (\<lambda>w. w), kp_watchdog_setup = (\<lambda>w. w), kp_watchdog_tickle = (\<lambda>w. w), kp_watchdog_suspend = (\<lambda>w. w),
      kp_watchdog_resume = (\<lambda>w. w)\<rparr>"

lemma board_ipc_wf: "grant_wf (board_ipc n)"
proof -
  have "alloc_size (board_ipc n) = Some 76"
    by (simp add: board_ipc_def IPC_new_def alloc_size_def grant_t_size_def ro_allow_COUNT_def) code_simp
  then show ?thesis
    unfolding grant_wf_def by (intro exI [of _ 0] exI [of _ 76]) (simp add: board_ipc_def IPC_new_def)
qed

lemma board_drivers_run:
  assumes "board_drivers chip leds pins n = Some d" "mpu chip = cortexm_mpu k l"
  shows "drv_command d c a b pid sys = Some (r, sys') \<Longrightarrow> sys_runs chip sys sys'"
    "drv_allow_userspace_readable d pid w buf sys = Some (r', sys') \<Longrightarrow> sys_runs chip sys sys'"
    "drv_allocate_grant d pid sys = Some (r'', sys') \<Longrightarrow> sys_runs chip sys sys'"
  using assms drivers_run [OF _ assms(2)] cm_contract.ipc_command_runs [OF _ assms(2) board_ipc_wf]
    cm_contract.ipc_allocate_runs [OF _ assms(2) board_ipc_wf]
  by (auto simp: board_drivers_def IPCDriver_def allow_userspace_readable_default_def split: if_splits)

lemma board_interrupt_runs:
  assumes "kp_service_pending_interrupts (board_platform pins fired ack timer get_dc put_dc) sys = Some sys'"
    "mpu chip = cortexm_mpu k m"
  shows "sys_runs chip sys sys'"
proof -
  have "sys_runs chip sys sys'" if "button_fired b n (on_world ack sys) = Some sys'" for b n
    by (rule sys_runs_trans [OF cm_contract.steps_runs [OF on_world_step assms(2)] cm_contract.button_fired_runs [OF that assms(2)]])
  then show ?thesis using assms(1) by (auto simp: board_platform_def split: option.splits)
qed

interpretation main_loop: kernel_platform "cortexm_mpu k m" "cortexm_chip k m user a b"
  "board_drivers (cortexm_chip k m user a b) leds pins" "board_platform pins fired ack timer get_dc put_dc"
  for k m user a b leds pins fired ack timer get_dc put_dc
  by unfold_locales
    (simp, (erule (1) board_drivers_run [OF _ cortexm_chip_mpu])+, simp add: board_platform_def, simp add: board_platform_def,
      erule board_interrupt_runs [OF _ cortexm_chip_mpu], simp add: board_platform_def,
      auto simp: board_platform_def board_ipc_wf)

end
