(* ===== verification/VirtualAlarm.thy ===== *)
theory VirtualAlarm
  imports LinkedList Ticks
begin

text \<open>
  The virtual alarms of \<open>capsules/core/src/virtualizers/virtual_alarm.rs\<close>, which share one hardware
  alarm. A virtual alarm is an address; the cells of all of them, the multiplexer and the world of the
  hardware are one state, because a client called from a firing alarm may set any of them again. The
  lemmas show that the count of enabled alarms is the number of armed ones, so that its decrement cannot
  underflow, and that the hardware is always left set to the alarm with the least time to go.
\<close>

section \<open>State\<close>

record 't TickDtReference =
  tdr_reference :: 't
  tdr_dt :: 't
  tdr_extended :: bool

definition reference_plus_dt :: "'t Ticks \<Rightarrow> 't TickDtReference \<Rightarrow> 't" where
  "reference_plus_dt T d = ticks_wrapping_add T (tdr_reference d) (tdr_dt d)"

record ('t, 'c) VirtualMuxAlarm =
  va_dt_reference :: "'t TickDtReference"
  va_armed :: bool
  va_client :: "'c option"

record ('t, 'c, 'w) MuxAlarm =
  virtual_alarms :: "nat List"
  valarms :: "nat \<Rightarrow> ('t, 'c) VirtualMuxAlarm"
  mux_enabled :: usize
  mux_firing :: bool
  next_tick_vals :: "('t \<times> 't) option"
  mux_hw :: 'w

definition VirtualMuxAlarm_new :: "'t Ticks \<Rightarrow> ('t, 'c) VirtualMuxAlarm" where
  "VirtualMuxAlarm_new T =
     (let zero = ticks_from_u32 T 0 in
      \<lparr>va_dt_reference = \<lparr>tdr_reference = zero, tdr_dt = zero, tdr_extended = False\<rparr>, va_armed = False, va_client = None\<rparr>)"

definition MuxAlarm_new :: "'t Ticks \<Rightarrow> 'w \<Rightarrow> ('t, 'c, 'w) MuxAlarm" where
  "MuxAlarm_new T w =
     \<lparr>virtual_alarms = List_new (\<lambda>_. None), valarms = (\<lambda>_. VirtualMuxAlarm_new T), mux_enabled = 0, mux_firing = False,
      next_tick_vals = None, mux_hw = w\<rparr>"

definition on_valarm ::
    "nat \<Rightarrow> (('t, 'c) VirtualMuxAlarm \<Rightarrow> ('t, 'c) VirtualMuxAlarm) \<Rightarrow> ('t, 'c, 'w) MuxAlarm \<Rightarrow> ('t, 'c, 'w) MuxAlarm" where
  "on_valarm i f m = m\<lparr>valarms := (valarms m)(i := f (valarms m i))\<rparr>"

section \<open>The multiplexer and its hardware\<close>

definition mux_set_alarm :: "('t, 'w) AlarmOps \<Rightarrow> 't \<Rightarrow> 't \<Rightarrow> ('t, 'c, 'w) MuxAlarm \<Rightarrow> ('t, 'c, 'w) MuxAlarm" where
  "mux_set_alarm A reference dt m =
     m\<lparr>next_tick_vals := Some (reference, dt), mux_hw := alarm_set_alarm A reference dt (mux_hw m)\<rparr>"

definition mux_disarm :: "('t, 'w) AlarmOps \<Rightarrow> ('t, 'c, 'w) MuxAlarm \<Rightarrow> ('t, 'c, 'w) MuxAlarm" where
  "mux_disarm A m = m\<lparr>next_tick_vals := None, mux_hw := alarm_disarm A (mux_hw m)\<rparr>"

definition mux_now :: "('t, 'w) AlarmOps \<Rightarrow> ('t, 'c, 'w) MuxAlarm \<Rightarrow> 't \<times> ('t, 'c, 'w) MuxAlarm" where
  "mux_now A m = (case alarm_now A (mux_hw m) of (now, w) \<Rightarrow> (now, m\<lparr>mux_hw := w\<rparr>))"

section \<open>A virtual alarm\<close>

definition va_setup :: "nat \<Rightarrow> ('t, 'c, 'w) MuxAlarm \<Rightarrow> ('t, 'c, 'w) MuxAlarm" where
  "va_setup i m = m\<lparr>virtual_alarms := push_head i (virtual_alarms m)\<rparr>"

definition va_set_alarm_client :: "'c \<Rightarrow> nat \<Rightarrow> ('t, 'c, 'w) MuxAlarm \<Rightarrow> ('t, 'c, 'w) MuxAlarm" where
  "va_set_alarm_client c i m = on_valarm i (\<lambda>v. v\<lparr>va_armed := False, va_client := Some c\<rparr>) m"

definition va_disarm :: "('t, 'w) AlarmOps \<Rightarrow> nat \<Rightarrow> ('t, 'c, 'w) MuxAlarm \<Rightarrow> ('t, 'c, 'w) MuxAlarm option" where
  "va_disarm A i m =
     (if \<not> va_armed (valarms m i) then Some m
      else do {
        let m = on_valarm i (\<lambda>v. v\<lparr>va_armed := False\<rparr>) m;
        enabled \<leftarrow> chk_sub (mux_enabled m) 1;
        let m = m\<lparr>mux_enabled := enabled\<rparr>;
        Some (if enabled = 0 then m\<lparr>mux_hw := alarm_disarm A (mux_hw m)\<rparr> else m)
      })"

text \<open>A delay of more than half of the counter's range is waited for in two parts.\<close>

definition split_dt :: "'t Ticks \<Rightarrow> 't \<Rightarrow> 't \<Rightarrow> 't \<Rightarrow> 't TickDtReference" where
  "split_dt T minimum_dt reference dt =
     (let half_max = ticks_half_max_value T in
      if ticks_less T (ticks_wrapping_add T half_max minimum_dt) dt
      then \<lparr>tdr_reference = reference, tdr_dt = ticks_wrapping_sub T dt half_max, tdr_extended = True\<rparr>
      else \<lparr>tdr_reference = reference, tdr_dt = dt, tdr_extended = False\<rparr>)"

definition fires_sooner :: "'t Ticks \<Rightarrow> ('t, 'w) AlarmOps \<Rightarrow> 't \<Rightarrow> 't \<Rightarrow> ('t, 'c, 'w) MuxAlarm \<Rightarrow> ('t, 'c, 'w) MuxAlarm" where
  "fires_sooner T A reference dt m =
     (let cur_alarm = alarm_get_alarm A (mux_hw m);
          (now, m) = mux_now A m;
          expiration = ticks_wrapping_add T reference dt in
      if \<not> ticks_within_range T cur_alarm reference expiration
         \<and> (case next_tick_vals m of
              None \<Rightarrow> True
            | Some (next_reference, next_dt) \<Rightarrow>
                ticks_within_range T now next_reference (ticks_wrapping_add T next_reference next_dt))
      then mux_set_alarm A reference dt m else m)"

definition va_set_alarm ::
    "'t Ticks \<Rightarrow> ('t, 'w) AlarmOps \<Rightarrow> nat \<Rightarrow> 't \<Rightarrow> 't \<Rightarrow> ('t, 'c, 'w) MuxAlarm \<Rightarrow> ('t, 'c, 'w) MuxAlarm option" where
  "va_set_alarm T A i reference dt m = do {
     let enabled = mux_enabled m;
     let dt_reference = split_dt T (alarm_minimum_dt A (mux_hw m)) reference dt;
     let m = on_valarm i (\<lambda>v. v\<lparr>va_dt_reference := dt_reference\<rparr>) m;
     let dt = tdr_dt dt_reference;
     m \<leftarrow> (if \<not> va_armed (valarms m i)
          then do { e \<leftarrow> chk_add enabled 1; Some (on_valarm i (\<lambda>v. v\<lparr>va_armed := True\<rparr>) (m\<lparr>mux_enabled := e\<rparr>)) }
          else Some m);
     Some (if enabled = 0 then mux_set_alarm A reference dt m
           else if \<not> mux_firing m then fires_sooner T A reference dt m
           else m)
   }"

definition va_get_alarm :: "'t Ticks \<Rightarrow> nat \<Rightarrow> ('t, 'c, 'w) MuxAlarm \<Rightarrow> 't" where
  "va_get_alarm T i m =
     (let dt_reference = va_dt_reference (valarms m i);
          extension = (if tdr_extended dt_reference then ticks_half_max_value T else ticks_from_u32 T 0) in
      ticks_wrapping_add T (reference_plus_dt T dt_reference) extension)"

section \<open>Firing\<close>

definition va_expired :: "'t Ticks \<Rightarrow> 't \<Rightarrow> ('t, 'c) VirtualMuxAlarm \<Rightarrow> bool" where
  "va_expired T now v \<longleftrightarrow>
     va_armed v \<and> \<not> ticks_within_range T now (tdr_reference (va_dt_reference v)) (reference_plus_dt T (va_dt_reference v))"

text \<open>What happens to an alarm that is due; \<open>client\<close> runs the callback of a client.\<close>

definition va_fire ::
    "'t Ticks \<Rightarrow> ('c \<Rightarrow> ('t, 'c, 'w) MuxAlarm \<Rightarrow> ('t, 'c, 'w) MuxAlarm option) \<Rightarrow> nat \<Rightarrow> ('t, 'c, 'w) MuxAlarm \<Rightarrow>
      ('t, 'c, 'w) MuxAlarm option" where
  "va_fire T client i m =
     (let dt_ref = va_dt_reference (valarms m i) in
      if tdr_extended dt_ref
      then Some (on_valarm i (\<lambda>v. v\<lparr>va_dt_reference :=
             \<lparr>tdr_reference = reference_plus_dt T dt_ref, tdr_dt = ticks_half_max_value T, tdr_extended = False\<rparr>\<rparr>) m)
      else do {
        let m = on_valarm i (\<lambda>v. v\<lparr>va_armed := False\<rparr>) m;
        enabled \<leftarrow> chk_sub (mux_enabled m) 1;
        let m = m\<lparr>mux_enabled := enabled\<rparr>;
        (case va_client (valarms m i) of None \<Rightarrow> Some m | Some c \<Rightarrow> client c m)
      })"

partial_function (option) fire_loop ::
    "'t Ticks \<Rightarrow> ('t, 'w) AlarmOps \<Rightarrow> ('c \<Rightarrow> ('t, 'c, 'w) MuxAlarm \<Rightarrow> ('t, 'c, 'w) MuxAlarm option) \<Rightarrow> nat option \<Rightarrow>
      ('t, 'c, 'w) MuxAlarm \<Rightarrow> ('t, 'c, 'w) MuxAlarm option" where
  "fire_loop T A client cur m =
     (case ListIterator_next (next_link (virtual_alarms m)) cur of
        (None, _) \<Rightarrow> Some m
      | (Some i, cur) \<Rightarrow> do {
          let (now, m) = mux_now A m;
          m \<leftarrow> (if va_expired T now (valarms m i) then va_fire T client i m else Some m);
          fire_loop T A client cur m
        })"

declare fire_loop.simps [code]

fun min_by_key :: "('k \<Rightarrow> 'k \<Rightarrow> bool) \<Rightarrow> ('a \<Rightarrow> 'k) \<Rightarrow> 'a list \<Rightarrow> 'a option" where
  "min_by_key lt key [] = None"
| "min_by_key lt key (x # xs) = Some (foldl (\<lambda>best y. if lt (key y) (key best) then y else best) x xs)"

definition ticks_to_go :: "'t Ticks \<Rightarrow> 't \<Rightarrow> ('t, 'c) VirtualMuxAlarm \<Rightarrow> 't" where
  "ticks_to_go T now v =
     (let due = va_dt_reference v in
      if \<not> ticks_within_range T now (tdr_reference due) (reference_plus_dt T due) then ticks_from_u32 T 0
      else ticks_wrapping_sub T (reference_plus_dt T due) now)"

definition mux_alarm ::
    "'t Ticks \<Rightarrow> ('t, 'w) AlarmOps \<Rightarrow> ('c \<Rightarrow> ('t, 'c, 'w) MuxAlarm \<Rightarrow> ('t, 'c, 'w) MuxAlarm option) \<Rightarrow>
      ('t, 'c, 'w) MuxAlarm \<Rightarrow> ('t, 'c, 'w) MuxAlarm option" where
  "mux_alarm T A client m = do {
     let m = m\<lparr>mux_firing := True\<rparr>;
     m \<leftarrow> fire_loop T A client (head_link (virtual_alarms m)) m;
     let m = m\<lparr>mux_firing := False\<rparr>;
     let (now, m) = mux_now A m;
     nodes \<leftarrow> iter_collect (next_link (virtual_alarms m)) (head_link (virtual_alarms m));
     let armed = filter (\<lambda>i. va_armed (valarms m i)) nodes;
     Some (case min_by_key (ticks_less T) (\<lambda>i. ticks_to_go T now (valarms m i)) armed of
         Some i \<Rightarrow> (let d = va_dt_reference (valarms m i) in mux_set_alarm A (tdr_reference d) (tdr_dt d) m)
       | None \<Rightarrow> mux_disarm A m)
   }"

section \<open>The count of enabled alarms\<close>

definition armed_count :: "nat list \<Rightarrow> ('t, 'c, 'w) MuxAlarm \<Rightarrow> nat" where
  "armed_count xs m = length (filter (\<lambda>i. va_armed (valarms m i)) xs)"

text \<open>\<open>xs\<close> are the alarms that were set up, the one set up last first.\<close>

definition mux_inv :: "nat list \<Rightarrow> ('t, 'c, 'w) MuxAlarm \<Rightarrow> bool" where
  "mux_inv xs m \<longleftrightarrow> holds (virtual_alarms m) xs \<and> unat (mux_enabled m) = armed_count xs m \<and> length xs < 2 ^ 32"

lemma armed_count_on:
  assumes "distinct xs" "i \<in> set xs"
  shows "armed_count xs (on_valarm i f m) + (if va_armed (valarms m i) then 1 else 0) =
    armed_count xs m + (if va_armed (f (valarms m i)) then 1 else 0)"
proof -
  obtain as bs where xs: "xs = as @ i # bs" using assms(2) split_list by metis
  have "filter (\<lambda>j. va_armed (valarms (on_valarm i f m) j)) ys = filter (\<lambda>j. va_armed (valarms m j)) ys" if "i \<notin> set ys" for ys
    using that by (intro filter_cong) (auto simp: on_valarm_def)
  then show ?thesis using assms(1) unfolding xs armed_count_def by (simp add: on_valarm_def)
qed

lemma armed_count_le: "armed_count xs m \<le> length xs"
  by (simp add: armed_count_def)

lemma armed_count_updates [simp]:
  "armed_count xs (m\<lparr>mux_enabled := e\<rparr>) = armed_count xs m" "armed_count xs (m\<lparr>mux_firing := b\<rparr>) = armed_count xs m"
  "armed_count xs (m\<lparr>mux_hw := w\<rparr>) = armed_count xs m" "armed_count xs (m\<lparr>next_tick_vals := v\<rparr>) = armed_count xs m"
  "armed_count xs (m\<lparr>virtual_alarms := l\<rparr>) = armed_count xs m"
  by (simp_all add: armed_count_def)

lemma on_valarm_fields [simp]:
  "virtual_alarms (on_valarm i f m) = virtual_alarms m" "mux_enabled (on_valarm i f m) = mux_enabled m"
  "mux_firing (on_valarm i f m) = mux_firing m" "mux_hw (on_valarm i f m) = mux_hw m"
  "valarms (on_valarm i f m) i = f (valarms m i)" "j \<noteq> i \<Longrightarrow> valarms (on_valarm i f m) j = valarms m j"
  by (simp_all add: on_valarm_def)

text \<open>The hardware operations change neither the alarms nor the count.\<close>

lemma hardware_fields [simp]:
  "mux_inv xs (mux_set_alarm A r d m) = mux_inv xs m" "mux_inv xs (mux_disarm A m) = mux_inv xs m"
  "mux_inv xs (snd (mux_now A m)) = mux_inv xs m" "mux_inv xs (m\<lparr>mux_firing := b\<rparr>) = mux_inv xs m"
  "mux_inv xs (m\<lparr>mux_hw := w\<rparr>) = mux_inv xs m" "mux_inv xs (m\<lparr>next_tick_vals := v\<rparr>) = mux_inv xs m" "mux_inv xs (fires_sooner T A r d m) = mux_inv xs m"
  by (auto simp: mux_inv_def mux_set_alarm_def mux_disarm_def mux_now_def fires_sooner_def Let_def split: prod.splits)

lemma va_disarm_inv:
  assumes "mux_inv xs m" "i \<in> set xs"
  shows "\<exists>m'. va_disarm A i m = Some m' \<and> mux_inv xs m' \<and> \<not> va_armed (valarms m' i)"
proof (cases "va_armed (valarms m i)")
  case True
  let ?m = "on_valarm i (\<lambda>v. v\<lparr>va_armed := False\<rparr>) m"
  have count: "armed_count xs ?m + 1 = armed_count xs m"
    using armed_count_on [of xs i "\<lambda>v. v\<lparr>va_armed := False\<rparr>" m] assms True by (simp add: mux_inv_def holds_def)
  then have "1 \<le> mux_enabled m" using assms(1) by (simp add: mux_inv_def word_le_nat_alt)
  then show ?thesis using assms(1) True count
    by (auto simp: va_disarm_def mux_inv_def Let_def chk_sub_def unat_sub word_le_nat_alt)
qed (use assms in \<open>simp add: va_disarm_def\<close>)

lemma hardware_valarms [simp]:
  "valarms (mux_set_alarm A r d m) = valarms m" "valarms (mux_disarm A m) = valarms m" "valarms (snd (mux_now A m)) = valarms m"
  "valarms (fires_sooner T A r d m) = valarms m"
  by (auto simp: mux_set_alarm_def mux_disarm_def mux_now_def fires_sooner_def Let_def split: prod.splits)

lemma rearm_inv:
  assumes "mux_inv xs m" "i \<in> set xs" "va_armed (f (valarms m i)) = va_armed (valarms m i)"
  shows "mux_inv xs (on_valarm i f m)"
  using armed_count_on [of xs i f m] assms by (simp add: mux_inv_def holds_def split: if_splits)

lemma arm_inv:
  assumes "mux_inv xs m" "i \<in> set xs" "\<not> va_armed (valarms m i)"
  shows "\<exists>e. chk_add (mux_enabled m) 1 = Some e \<and> mux_inv xs (on_valarm i (\<lambda>v. v\<lparr>va_armed := True\<rparr>) (m\<lparr>mux_enabled := e\<rparr>))"
proof -
  have "armed_count xs m < length xs" unfolding armed_count_def by (rule length_filter_less) (use assms in auto)
  then have le: "unat (mux_enabled m) + 1 < 2 ^ 32" using assms(1) by (simp add: mux_inv_def)
  then have "unat (mux_enabled m + 1) = unat (mux_enabled m) + 1" by (simp add: unat_word_ariths)
  moreover have "armed_count xs (on_valarm i (\<lambda>v. v\<lparr>va_armed := True\<rparr>) (m\<lparr>mux_enabled := mux_enabled m + 1\<rparr>)) = armed_count xs m + 1"
    using armed_count_on [of xs i "\<lambda>v. v\<lparr>va_armed := True\<rparr>" "m\<lparr>mux_enabled := mux_enabled m + 1\<rparr>"] assms
    by (simp add: mux_inv_def holds_def)
  ultimately show ?thesis using assms(1) le by (simp add: chk_add_def mux_inv_def)
qed

lemma va_set_alarm_inv:
  assumes "mux_inv xs m" "i \<in> set xs"
  shows "\<exists>m'. va_set_alarm T A i reference dt m = Some m' \<and> mux_inv xs m' \<and> va_armed (valarms m' i)"
proof -
  let ?m = "on_valarm i (\<lambda>v. v\<lparr>va_dt_reference := split_dt T (alarm_minimum_dt A (mux_hw m)) reference dt\<rparr>) m"
  have inv: "mux_inv xs ?m" by (rule rearm_inv [OF assms]) simp
  show ?thesis
  proof (cases "va_armed (valarms m i)")
    case True
    then show ?thesis using inv by (simp add: va_set_alarm_def Let_def)
  next
    case False
    then show ?thesis using arm_inv [OF inv assms(2)] by (auto simp: va_set_alarm_def Let_def)
  qed
qed

lemma va_setup_inv:
  assumes "mux_inv xs m" "i \<notin> set xs" "\<not> va_armed (valarms m i)" "Suc (length xs) < 2 ^ 32"
  shows "mux_inv (i # xs) (va_setup i m)"
  using assms push_head_holds [of "virtual_alarms m" xs i] by (simp add: mux_inv_def va_setup_def armed_count_def)

text \<open>Replacing the client of an alarm that is armed leaves the count too high.\<close>

lemma va_set_alarm_client_inv:
  assumes "mux_inv xs m" "i \<in> set xs"
  shows "mux_inv xs (va_set_alarm_client c i m) \<longleftrightarrow> \<not> va_armed (valarms m i)"
  using assms armed_count_on [of xs i "\<lambda>v. v\<lparr>va_armed := False, va_client := Some c\<rparr>" m]
  by (auto simp: mux_inv_def va_set_alarm_client_def holds_def)

section \<open>Firing keeps the count and finds the next alarm\<close>

lemma va_fire_inv:
  assumes "mux_inv xs m" "i \<in> set xs" "va_armed (valarms m i)"
    and client: "\<And>c m. mux_inv xs m \<Longrightarrow> \<exists>m'. client c m = Some m' \<and> mux_inv xs m'"
  shows "\<exists>m'. va_fire T client i m = Some m' \<and> mux_inv xs m'"
proof (cases "tdr_extended (va_dt_reference (valarms m i))")
  case True
  then show ?thesis using rearm_inv [OF assms(1,2)] by (simp add: va_fire_def Let_def)
next
  case False
  let ?off = "\<lambda>v. v\<lparr>va_armed := False\<rparr>"
  have count: "armed_count xs (on_valarm i ?off m) + 1 = armed_count xs m"
    using armed_count_on [of xs i ?off m] assms(1-3) by (simp add: mux_inv_def holds_def)
  then have le: "1 \<le> mux_enabled m" using assms(1) by (simp add: mux_inv_def word_le_nat_alt)
  then have "mux_inv xs ((on_valarm i ?off m)\<lparr>mux_enabled := mux_enabled m - 1\<rparr>)"
    using assms(1) count by (simp add: mux_inv_def unat_sub)
  then show ?thesis using False le client by (simp add: va_fire_def Let_def chk_sub_def split: option.splits)
qed

lemma chain_start: "chain l p xs \<Longrightarrow> chain l' p' xs \<Longrightarrow> p = p'"
  by (cases xs) auto

lemma fire_loop_inv:
  assumes "chain (next_link (virtual_alarms m)) cur bs" "xs = as @ bs" "mux_inv xs m"
    and client: "\<And>c m. mux_inv xs m \<Longrightarrow> \<exists>m'. client c m = Some m' \<and> mux_inv xs m'"
  shows "\<exists>m'. fire_loop T A client cur m = Some m' \<and> mux_inv xs m'"
  using assms(1-3)
proof (induction bs arbitrary: as cur m)
  case Nil
  then show ?case by (subst fire_loop.simps) (simp add: ListIterator_next_def)
next
  case (Cons i bs)
  obtain now m1 where now: "mux_now A m = (now, m1)" by fastforce
  then have m1: "mux_inv xs m1" using Cons.prems(3) hardware_fields(3) [of xs A m] by simp
  have "\<exists>m2. (if va_expired T now (valarms m1 i) then va_fire T client i m1 else Some m1) = Some m2 \<and> mux_inv xs m2"
  proof (cases "va_expired T now (valarms m1 i)")
    case True
    then have "i \<in> set xs" "va_armed (valarms m1 i)" using Cons.prems(2) by (simp_all add: va_expired_def)
    then show ?thesis using va_fire_inv [OF m1 _ _ client] True by simp
  qed (use m1 in simp)
  then obtain m2 where m2: "(if va_expired T now (valarms m1 i) then va_fire T client i m1 else Some m1) = Some m2" "mux_inv xs m2"
    by blast
  have "chain (next_link (virtual_alarms m2)) (head_link (virtual_alarms m2)) (as @ i # bs)"
    using m2(2) Cons.prems(2) by (simp add: mux_inv_def holds_def)
  then have "chain (next_link (virtual_alarms m2)) (next_link (virtual_alarms m2) i) bs" using chain_append by fastforce
  moreover have "next_link (virtual_alarms m2) i = next_link (virtual_alarms m) i"
    using calculation Cons.prems(1) chain_start by fastforce
  ultimately have "\<exists>m'. fire_loop T A client (next_link (virtual_alarms m) i) m2 = Some m' \<and> mux_inv xs m'"
    using Cons.IH [of m2 _ "as @ [i]"] Cons.prems(2) m2(2) by simp
  then show ?case using Cons.prems(1) now m2(1)
    by (subst fire_loop.simps) (simp add: ListIterator_next_def Let_def)
qed

lemma min_by_key_least:
  assumes "\<And>a b. lt a b \<longleftrightarrow> rank a < (rank b :: nat)" "min_by_key lt key xs = Some i"
  shows "i \<in> set xs" "j \<in> set xs \<Longrightarrow> rank (key i) \<le> rank (key j)"
proof -
  define pick where "pick = foldl (\<lambda>best y. if lt (key y) (key best) then y else best)"
  have "pick x ys \<in> insert x (set ys) \<and> (\<forall>j\<in>insert x (set ys). rank (key (pick x ys)) \<le> rank (key j))" for x ys
  proof (induction ys arbitrary: x)
    case (Cons y ys)
    have "pick x (y # ys) = pick (if rank (key y) < rank (key x) then y else x) ys" by (simp add: pick_def assms(1))
    then show ?case using Cons.IH [of x] Cons.IH [of y] by (auto intro: order_trans less_imp_le split: if_splits)
  qed (simp add: pick_def)
  then have "i \<in> set xs \<and> (\<forall>j\<in>set xs. rank (key i) \<le> rank (key j))"
    using assms(2) by (cases xs) (auto simp: pick_def)
  then show "i \<in> set xs" "j \<in> set xs \<Longrightarrow> rank (key i) \<le> rank (key j)" by blast+
qed

lemma min_by_key_None: "min_by_key lt key xs = None \<longleftrightarrow> xs = []"
  by (cases xs) auto

section \<open>Alarms over a counter\<close>

text \<open>A counter whose comparison is that of numbers and whose zero is zero.\<close>

locale alarm_counter = counter +
  fixes rank :: "'a \<Rightarrow> nat"
  assumes less_rank: "ticks_less T a b \<longleftrightarrow> rank a < rank b"
    and tval_zero: "tval (ticks_from_u32 T 0) = 0"
begin

text \<open>An alarm is due exactly when its delay has gone by since its reference.\<close>

lemma va_expired_iff:
  assumes "tval now = (tval (tdr_reference (va_dt_reference v)) + k) mod 2 ^ width" "k < 2 ^ width"
  shows "va_expired T now v \<longleftrightarrow> va_armed v \<and> tval (tdr_dt (va_dt_reference v)) \<le> k"
  using deadline_ahead_iff [OF assms] by (auto simp: va_expired_def reference_plus_dt_def)

text \<open>An alarm that is waited for in two parts still reports the time that was asked for.\<close>

lemma split_dt_target:
  "(tval (reference_plus_dt T (split_dt T m r d)) + (if tdr_extended (split_dt T m r d) then tval (ticks_half_max_value T) else 0))
     mod 2 ^ width = (tval r + tval d) mod 2 ^ width"
proof -
  let ?h = "tval (ticks_half_max_value T)"
  have "((tval r + (tval d + 2 ^ width - ?h) mod 2 ^ width) mod 2 ^ width + ?h) mod 2 ^ width = (tval r + tval d) mod 2 ^ width"
  proof -
    have "((tval r + (tval d + 2 ^ width - ?h) mod 2 ^ width) mod 2 ^ width + ?h) mod 2 ^ width =
        (tval r + (tval d + 2 ^ width - ?h) + ?h) mod 2 ^ width"
      by (simp add: mod_simps)
    also have "tval r + (tval d + 2 ^ width - ?h) + ?h = tval r + tval d + 2 ^ width"
      using tval_less [of "ticks_half_max_value T"] by simp
    finally show ?thesis by simp
  qed
  then show ?thesis by (simp add: split_dt_def Let_def reference_plus_dt_def tval_add tval_sub)
qed

lemma va_get_alarm_set:
  assumes "va_set_alarm T A i reference dt m = Some m'"
  shows "tval (va_get_alarm T i m') = (tval reference + tval dt) mod 2 ^ width"
proof -
  have "va_dt_reference (valarms m' i) = split_dt T (alarm_minimum_dt A (mux_hw m)) reference dt"
    using assms by (auto simp: va_set_alarm_def Let_def elim!: monad_elims split: if_splits)
  then show ?thesis using split_dt_target [of "alarm_minimum_dt A (mux_hw m)" reference dt]
    by (simp add: va_get_alarm_def Let_def tval_add tval_zero split: if_splits)
qed

text \<open>
  When the hardware alarm has fired, it is left disarmed if no virtual alarm is armed, and otherwise set to
  one that has the least time to go at the time \<open>now\<close> that was read last.
\<close>

lemma mux_alarm_sets_soonest:
  assumes "mux_inv xs m" and client: "\<And>c m. mux_inv xs m \<Longrightarrow> \<exists>m'. client c m = Some m' \<and> mux_inv xs m'"
  shows "\<exists>m' w now. mux_alarm T A client m = Some m' \<and> mux_inv xs m' \<and> \<not> mux_firing m' \<and> now = fst (alarm_now A w) \<and>
    (if \<forall>i\<in>set xs. \<not> va_armed (valarms m' i) then mux_hw m' = alarm_disarm A (snd (alarm_now A w))
     else \<exists>i\<in>set xs. va_armed (valarms m' i) \<and>
       mux_hw m' = alarm_set_alarm A (tdr_reference (va_dt_reference (valarms m' i))) (tdr_dt (va_dt_reference (valarms m' i)))
         (snd (alarm_now A w)) \<and>
       (\<forall>j\<in>set xs. va_armed (valarms m' j) \<longrightarrow>
          rank (ticks_to_go T now (valarms m' i)) \<le> rank (ticks_to_go T now (valarms m' j))))"
proof -
  let ?m = "m\<lparr>mux_firing := True\<rparr>"
  have "chain (next_link (virtual_alarms ?m)) (head_link (virtual_alarms ?m)) xs" using assms(1) by (simp add: mux_inv_def holds_def)
  then have "\<exists>m1. fire_loop T A client (head_link (virtual_alarms ?m)) ?m = Some m1 \<and> mux_inv xs m1"
    by (rule fire_loop_inv [where as = "[]"]) (use assms in simp_all)
  then obtain m1 where m1: "fire_loop T A client (head_link (virtual_alarms ?m)) ?m = Some m1" "mux_inv xs m1" by blast
  define w where "w = mux_hw m1"
  define now where "now = fst (alarm_now A w)"
  define m2 where "m2 = m1\<lparr>mux_firing := False, mux_hw := snd (alarm_now A w)\<rparr>"
  have now: "mux_now A (m1\<lparr>mux_firing := False\<rparr>) = (now, m2)"
    by (simp add: mux_now_def now_def m2_def w_def split: prod.splits)
  have m2: "mux_inv xs m2" "\<not> mux_firing m2" "mux_hw m2 = snd (alarm_now A w)"
    using m1(2) by (simp_all add: m2_def)
  have nodes: "iter_collect (next_link (virtual_alarms m2)) (head_link (virtual_alarms m2)) = Some xs"
    by (rule iter_collect_chain) (use m2(1) in \<open>simp add: mux_inv_def holds_def\<close>)
  let ?armed = "filter (\<lambda>i. va_armed (valarms m2 i)) xs"
  let ?next = "min_by_key (ticks_less T) (\<lambda>i. ticks_to_go T now (valarms m2 i)) ?armed"
  show ?thesis
  proof (cases ?next)
    case None
    then have "\<forall>i\<in>set xs. \<not> va_armed (valarms m2 i)" by (simp add: min_by_key_None filter_empty_conv)
    moreover have "mux_alarm T A client m = Some (mux_disarm A m2)"
      using m1(1) now nodes None by (simp add: mux_alarm_def Let_def)
    ultimately show ?thesis using m2 now_def
      by (intro exI [of _ "mux_disarm A m2"] exI [of _ w] exI [of _ now]) (simp add: mux_disarm_def)
  next
    case (Some i)
    let ?d = "va_dt_reference (valarms m2 i)"
    note least = min_by_key_least [OF less_rank Some]
    have "mux_alarm T A client m = Some (mux_set_alarm A (tdr_reference ?d) (tdr_dt ?d) m2)"
      using m1(1) now nodes Some by (simp add: mux_alarm_def Let_def)
    then show ?thesis using m2 now_def least
      by (intro exI [of _ "mux_set_alarm A (tdr_reference ?d) (tdr_dt ?d) m2"] exI [of _ w] exI [of _ now])
        (auto simp: mux_set_alarm_def)
  qed
qed

end

interpretation alarm32: alarm_counter Ticks32 unat 32 unat
  by unfold_locales (simp_all add: Ticks32_def word_less_nat_alt)

interpretation alarm24: alarm_counter Ticks24 "\<lambda>t. unat t mod 2 ^ 24" 24 unat
  by unfold_locales (simp_all add: Ticks24_def word_less_nat_alt)

interpretation alarm16: alarm_counter Ticks16 unat 16 unat
  by unfold_locales (simp_all add: Ticks16_def word_less_nat_alt)

interpretation alarm64: alarm_counter Ticks64 unat 64 unat
  by unfold_locales (simp_all add: Ticks64_def word_less_nat_alt)

end
