(* ===== verification/LoopDemo.thy ===== *)
theory LoopDemo
  imports Demo DispatchSpec KernelLoop VirtualAlarm
begin

text \<open>
  Concrete states for the properties of the running kernel: a board with one process, a scheduler timer that
  loses 4000 microseconds whenever it is read, and a hardware alarm that is a clock with a deadline. They
  model no source code of their own.
\<close>

section \<open>A board that runs\<close>

definition clock_timer :: "u32 SchedulerTimer" where
  "clock_timer =
     \<lparr>st_start = (\<lambda>us _. Some us), st_reset = (\<lambda>_. 0), st_arm = (\<lambda>w. w), st_disarm = (\<lambda>w. w),
      st_get_remaining_us = (\<lambda>w. Some (if w < 4000 then (None, 0) else (Some (w - 4000), w - 4000)))\<rparr>"

definition clock_proc :: "(CortexMConfig, CortexMStoredState) ProcessStandard" where
  "clock_proc = demo_proc\<lparr>stored_state := Some (default_stored_state\<lparr>psp := 0x20000400\<rparr>)\<rparr>"

definition clock_machine :: "(cortexm_hw, u32) Machine" where
  "clock_machine =
     \<lparr>mpu_hw = demo_hw, memory = (\<lambda>_. 0), world = 0, process_identifier_max = 1, grant_counter = 2,
      grants_finalized = True\<rparr>"

definition clock_sys :: "(cortexm_hw, CortexMConfig, u32, CortexMStoredState) System" where
  "clock_sys = \<lparr>procs = [Some clock_proc, None], machine = clock_machine\<rparr>"

definition clock_chip :: "(cortexm_hw, CortexMConfig, u32, CortexMStoredState) Chip" where
  "clock_chip = cortexm_chip 8 32 idle_user 28 400"

definition no_deferred :: "unit DeferredCalls" where
  "no_deferred = \<lparr>dc_ctr = 0, dc_bitmask = 0, dc_defcalls = replicate 32 None\<rparr>"

definition clock_platform :: "(cortexm_hw, CortexMConfig, u32, CortexMStoredState, unit) Platform" where
  "clock_platform = board_platform [] (\<lambda>_. None) (\<lambda>w. w) clock_timer (\<lambda>_. no_deferred) (\<lambda>_ w. w)"

lemma one_slot: "slot i \<lparr>procs = [Some q, None], machine = mc\<rparr> = Some p \<longleftrightarrow> i = 0 \<and> p = q"
proof -
  consider "i = 0" | "i = 1" | "i \<ge> 2" by linarith
  then show ?thesis by cases (auto simp: slot_def slice_get_def)
qed

lemma clock_sys_slot: "slot i clock_sys = Some p \<longleftrightarrow> i = 0 \<and> p = clock_proc"
  by (simp add: clock_sys_def one_slot)

lemma one_proc_ok:
  assumes "proc_ok q mc" "pid_index (process_id q) = 0"
  shows "sys_ok \<lparr>procs = [Some q, None], machine = mc\<rparr>"
  using assms by (auto simp: sys_ok_def one_slot)

lemma stored_state_ok:
  "proc_ok p mc \<Longrightarrow> process_identifier_max mc' = process_identifier_max mc \<Longrightarrow> proc_ok (p\<lparr>stored_state := s\<rparr>) mc'"
proof -
  have "grant_ok (p\<lparr>stored_state := s\<rparr>) = grant_ok p" by (rule ext) (simp add: grant_ok_def mem_end_def)
  then show "proc_ok p mc \<Longrightarrow> process_identifier_max mc' = process_identifier_max mc \<Longrightarrow> ?thesis"
    by (simp add: proc_ok_def layout_ok_def grants_ok_def queue_ok_def mem_end_def grants_clear_def split: option.splits)
qed

lemma clock_sys_ok: "sys_ok clock_sys"
  unfolding clock_sys_def clock_proc_def
  by (rule one_proc_ok [OF stored_state_ok [OF demo_proc_ok]]) (simp_all add: clock_machine_def demo_machine_def)

section \<open>Processes in particular states\<close>

definition clock_state :: CortexMStoredState where
  "clock_state = default_stored_state\<lparr>psp := 0x20000400\<rparr>"

text \<open>The process with a grant, before a system call.\<close>

definition granted_sys :: "(cortexm_hw, CortexMConfig, unit, CortexMStoredState) System" where
  "granted_sys =
     \<lparr>procs = [Some (demo_granted_proc\<lparr>stored_state := Some clock_state\<rparr>), None],
      machine = demo_machine\<lparr>memory := demo_granted_memory\<rparr>\<rparr>"

lemma granted_fields:
  "memory_start demo_granted_proc = 0x20000000 \<and> memory_len demo_granted_proc = 4096 \<and> app_break demo_granted_proc = 0x20000800 \<and>
   kernel_memory_break demo_granted_proc = 0x20000BD0 \<and> allow_high_water_mark demo_granted_proc = 0x20000000 \<and>
   pstate demo_granted_proc = Running \<and> process_id demo_granted_proc = process_id demo_proc \<and>
   length (mpu_regions demo_granted_proc) = 6 \<and> tasks demo_granted_proc = tasks demo_proc \<and>
   grant_pointers demo_granted_proc = Some [\<lparr>gp_driver_num = 2, grant_ptr = 0x20000BD0\<rparr>, \<lparr>gp_driver_num = 0, grant_ptr = 0\<rparr>]"
  by code_simp

lemma granted_ok: "proc_ok demo_granted_proc demo_machine"
proof -
  note f = granted_fields
  have and1: "(0x20000BD0 :: usize) AND NOT 1 = 0x20000BD0" by code_simp
  have "layout_ok demo_granted_proc" using f by (simp add: layout_ok_def word_le_nat_alt mem_end_def)
  moreover have "grants_ok demo_granted_proc" using f and1 by (simp add: grants_ok_def grant_ok_def mem_end_def word_le_nat_alt)
  ultimately show ?thesis using f demo_proc_ok by (simp add: proc_ok_def queue_ok_def)
qed

text \<open>A process whose header allows one command of one driver.\<close>

definition listed_header :: TbfHeader where
  "listed_header = TbfHeaderV2 \<lparr>hd_base = demo_base, hd_main = Some demo_main, hd_program = None, hd_package_name = None,
     hd_writeable_regions = None, hd_fixed_addresses = None,
     hd_permissions = Some \<lparr>perms_length = 1, perms = [\<lparr>perm_driver_number = 1, perm_offset = 1, allowed_commands = 2\<rparr>]\<rparr>,
     hd_storage_permissions = None, hd_kernel_version = None\<rparr>"

definition listed_sys :: "(cortexm_hw, CortexMConfig, u32, CortexMStoredState) System" where
  "listed_sys = \<lparr>procs = [Some (clock_proc\<lparr>header := listed_header\<rparr>), None], machine = clock_machine\<rparr>"

text \<open>A process whose credentials have not been checked.\<close>

definition unchecked_proc :: "(CortexMConfig, CortexMStoredState) ProcessStandard" where
  "unchecked_proc = clock_proc\<lparr>pstate := CredentialsUnchecked, flash_bytes := replicate 512 0\<rparr>"

definition unchecked_sys :: "(cortexm_hw, CortexMConfig, u32, CortexMStoredState) System" where
  "unchecked_sys = \<lparr>procs = [Some unchecked_proc, None], machine = clock_machine\<rparr>"

definition rsa_checker :: "(pending_check, CortexMConfig, CortexMStoredState) ProcessCheckerMachine" where
  "rsa_checker = \<lparr>pcm_process = 0, pcm_footer = 0, pcm_policy = Some AppCheckerRsaSimulated, pcm_state = None\<rparr>"

definition rsa_credentials :: TbfFooterV2Credentials where
  "rsa_credentials = \<lparr>cred_format = Rsa3072Key, cred_data = [1, 2, 3, 4]\<rparr>"

text \<open>A process that has used the communication driver to notify itself, and now waits.\<close>

definition notified_sys :: "(cortexm_hw, CortexMConfig, u32, CortexMStoredState) System option" where
  "notified_sys = do {
     let pid = process_id clock_proc;
     (_, sys) \<leftarrow> ipc_allocate_grant clock_chip (board_ipc 1) pid clock_sys;
     (_, sys) \<leftarrow> ipc_command clock_chip (board_ipc 1) 2 0 0 pid sys;
     Some sys
   }"

lemma notified_sys:
  "\<exists>sys p t p1. notified_sys = Some sys \<and> slot 0 sys = Some p \<and> get_process (process_id p) sys = Some 0 \<and>
     grant_is_allocated 1 p = Some True \<and> dequeue_task p = Some (Some (IPC (process_id p) t), p1)"
proof -
  have "case notified_sys of None \<Rightarrow> False | Some sys \<Rightarrow>
      (case slot 0 sys of None \<Rightarrow> False | Some p \<Rightarrow>
         get_process (process_id p) sys = Some 0 \<and> grant_is_allocated 1 p = Some True \<and>
         (case dequeue_task p of Some (Some (IPC q t), p1) \<Rightarrow> q = process_id p | _ \<Rightarrow> False))"
    by code_simp
  then show ?thesis by (auto split: option.splits prod.splits Task.splits)
qed

section \<open>A hardware alarm\<close>

record clock =
  clock_now :: u32
  clock_deadline :: "u32 option"

definition clock_alarm :: "(u32, clock) AlarmOps" where
  "clock_alarm =
     \<lparr>alarm_now = (\<lambda>w. (clock_now w + 1, w\<lparr>clock_now := clock_now w + 1\<rparr>)),
      alarm_set_alarm = (\<lambda>r d w. w\<lparr>clock_deadline := Some (r + d)\<rparr>),
      alarm_get_alarm = (\<lambda>w. case clock_deadline w of Some t \<Rightarrow> t | None \<Rightarrow> 0),
      alarm_disarm = (\<lambda>w. w\<lparr>clock_deadline := None\<rparr>), alarm_minimum_dt = (\<lambda>_. 0)\<rparr>"

text \<open>Alarms 0 and 1; the client of alarm 0 sets alarm 1 when it is called.\<close>

definition two_alarms :: "(u32, unit, clock) MuxAlarm option" where
  "two_alarms =
     va_set_alarm Ticks32 clock_alarm 0 1000 10
       (va_set_alarm_client () 0 (va_setup 0 (va_setup 1 (MuxAlarm_new Ticks32 \<lparr>clock_now = 1020, clock_deadline = None\<rparr>))))"

definition set_second :: "unit \<Rightarrow> (u32, unit, clock) MuxAlarm \<Rightarrow> (u32, unit, clock) MuxAlarm option" where
  "set_second c m = (case mux_now clock_alarm m of (now, m) \<Rightarrow> va_set_alarm Ticks32 clock_alarm 1 now 100 m)"

lemma mux_new_inv: "mux_inv [] (MuxAlarm_new T w)"
  by (simp add: mux_inv_def MuxAlarm_new_def armed_count_def holds_def List_new_def)

lemma two_alarms_inv: "\<exists>m. two_alarms = Some m \<and> mux_inv [0, 1] m"
proof -
  let ?m = "va_setup 1 (MuxAlarm_new Ticks32 \<lparr>clock_now = 1020, clock_deadline = None\<rparr>)"
  have new: "\<not> va_armed (valarms (MuxAlarm_new Ticks32 w) i)" for w :: clock and i
    by (simp add: MuxAlarm_new_def VirtualMuxAlarm_new_def Let_def)
  have 1: "mux_inv [1] ?m" by (rule va_setup_inv [OF mux_new_inv]) (simp_all add: new)
  have 2: "mux_inv [0, 1] (va_setup 0 ?m)" by (rule va_setup_inv [OF 1]) (simp_all add: va_setup_def new)
  then have "mux_inv [0, 1] (va_set_alarm_client () 0 (va_setup 0 ?m))"
    by (subst va_set_alarm_client_inv) (simp_all add: va_setup_def new)
  then show ?thesis unfolding two_alarms_def using va_set_alarm_inv by fastforce
qed

lemma set_second_inv: "mux_inv [0, 1] m \<Longrightarrow> \<exists>m'. set_second c m = Some m' \<and> mux_inv [0, 1] m'"
  using va_set_alarm_inv [of "[0, 1]" "snd (mux_now clock_alarm m)" 1 Ticks32 clock_alarm "fst (mux_now clock_alarm m)" 100]
  by (auto simp: set_second_def split: prod.splits)

end
