(* ===== verification/Spec2Isabelle.thy ===== *)
theory Spec2Isabelle
  imports Memop LoopDemo
begin

text \<open>
  A model of the Tock kernel and of the parts around it that decide whether processes stay apart.

  \<^bold>\<open>The program.\<close> Tock runs processes that were loaded from flash beside each other in one address space.
  The loader (\<open>kernel/src/process_loading.rs\<close>) parses the header of each program
  (\<open>libraries/tock-tbf\<close>), carves a block of memory for it and creates a process
  (\<open>kernel/src/process_standard.rs\<close>); a checker (\<open>kernel/src/process_checker.rs\<close>,
  \<open>kernel/src/kernel.rs\<close>) approves its credentials. The main loop (\<open>kernel/src/kernel.rs\<close>) serves
  interrupts and deferred calls, asks a scheduler (\<open>kernel/src/scheduler\<close>) for a process, loads the
  memory protection unit (\<open>arch/cortex-m/src/mpu.rs\<close>) with the process's configuration and switches to
  it (\<open>arch/cortex-m/src/syscall.rs\<close>). A system call is decoded (\<open>kernel/src/syscall.rs\<close>), filtered,
  and served by the kernel or by a driver; drivers keep their data for a process in a grant
  (\<open>kernel/src/grant.rs\<close>) at the top of that process's own memory, reach buffers the process shared
  (\<open>kernel/src/processbuffer.rs\<close>), and call back through upcalls queued in the process
  (\<open>kernel/src/upcall.rs\<close>, \<open>kernel/src/collections/ring_buffer.rs\<close>).

  \<^bold>\<open>Conventions.\<close> \<open>usize\<close> is a 32-bit word and every other integer has the width of the source. A plain
  arithmetic operation is \<open>chk_add\<close>, \<open>chk_sub\<close>, \<open>chk_mul\<close>, \<open>chk_div\<close> or \<open>chk_mod\<close> in the option monad:
  \<open>None\<close> is a panic of the kernel, and for a loop that may not end also not returning. Operations the
  source calls wrapping or saturating are written as such. A \<open>Result\<close> is a sum with the error on the left.
  State is passed explicitly; a reference to a process is its slot in the table, so that a change through
  any reference is a change of the one \<open>System\<close>. Memory is one function from addresses to bytes shared
  by kernel and processes. What is hardware, assembly or left open by a trait is a parameter: the run of a
  process (\<open>switch_to_user\<close>), pins, alarms, interrupt handlers, hooks, the policy of the checker.

  \<^bold>\<open>Theories.\<close>
  \<^item> \<open>Prelude\<close>, \<open>Ram\<close>: checked arithmetic, slices, bytes and words, the byte memory, elimination rules.
  \<^item> \<open>RingBuffer\<close>, \<open>QueueSpec\<close>, \<open>LinkedList\<close>: the collections. The locales \<open>bounded_queue\<close> and
    \<open>node_list\<close> are what their clients use; the models are shown to refine lists.
  \<^item> \<open>Errorcode\<close>, \<open>Syscall\<close>, \<open>MathUtil\<close>, \<open>Registers\<close>, \<open>StoragePermissions\<close>: the files of those names.
  \<^item> \<open>Mpu\<close>, \<open>CortexM_Mpu\<close>: the trait as a record with its laws (locale \<open>mpu_contract\<close>) and the Cortex-M
    unit down to register values. \<open>reg_permits\<close> says which accesses the registers permit.
  \<^item> \<open>Tbf\<close>: header, entries, footers and their accessors, with an emitter for the round trip.
  \<^item> \<open>ProcessTypes\<close>, \<open>CortexM_Syscall\<close>: the data of a process; the boundary (locale \<open>ukb_contract\<close>).
  \<^item> \<open>Process\<close>, \<open>ProcessInvariant\<close>, \<open>ProcessLoading\<close>: the methods of a process, the invariant
    \<open>proc_ok\<close> that each keeps (break order, grants above the kernel break, queue), creation and loading.
  \<^item> \<open>Upcall\<close>, \<open>KernelState\<close>: scheduling of upcalls; the table of processes, the invariant \<open>sys_ok\<close>
    (processes well-formed, in separate memory, with distinct identifiers) and the step relation.
  \<^item> \<open>Grant\<close>, \<open>GrantUse\<close>: the layout of a grant in memory, allocation, entering, subscribing, allowing.
  \<^item> \<open>Memop\<close>, \<open>Dispatch\<close>, \<open>DispatchSpec\<close>: memory operations, the filter, \<open>handle_syscall\<close>, and what a
    call does from registers to registers. The locale \<open>driver_table\<close> is what is asked of drivers.
  \<^item> \<open>Capsules\<close>, \<open>ProcessBuffers\<close>, \<open>Ipc\<close>: the LED and button drivers, shared buffers, and
    communication between processes.
  \<^item> \<open>Checker\<close>: policies, \<open>is_runnable\<close>, and the machine that walks over processes and footers.
  \<^item> \<open>Ticks\<close>, \<open>VirtualAlarm\<close>: wrapping counters (locale \<open>counter\<close>) and the alarm multiplexer.
  \<^item> \<open>Scheduler\<close>, \<open>DeferredCalls\<close>, \<open>KernelLoop\<close>: the four schedulers, deferred calls, and the main loop.
    The locale \<open>kernel_platform\<close> is what the loop asks of a board, and is interpreted on a Cortex-M board
    with LEDs, buttons and communication between four processes.
  \<^item> \<open>Demo\<close>, \<open>LoopDemo\<close>: concrete states on which the properties are evaluated.

  \<^bold>\<open>What the properties show.\<close> The invariant of the system is kept by every method of a process, by every
  system call and by any number of rounds of the main loop of the board. A process runs only while the unit is on
  and holds its own configuration; after a successful update that configuration permits the process
  its memory and nothing at or above the kernel break; loading gives processes disjoint memory; a buffer
  stays in memory the process owns and a write through it stays there; an identifier of a process that
  was restarted finds nothing. Subscribing and allowing swap one entry, from the call to the result in
  the caller's registers. The collections refine lists; headers, stored states and the call interface
  round-trip; round robin runs every process that is ready; the loader and the checker return under the
  stated conditions. Some theorems record defects: states in which the unit exposes kernel memory, in
  which an operation panics, or in which the loader never returns.

  \<^bold>\<open>Bounds and fuel.\<close> No definition takes fuel. Loops whose end depends on data are
  \<open>partial_function (option)\<close>: \<open>load_loop\<close> (returns if no entry is empty), \<open>checker_next\<close> (returns if
  footers lie inside the flash of their process), \<open>service_loop\<close>, \<open>fire_loop\<close> (returns if clients keep
  the count of alarms), the walks over linked lists (return on a chain that ends) and \<open>process_loop\<close>, which
  does not return if a process runs for ever without a timeslice. The main loop never returns in the
  source; \<open>kernel_loop\<close> takes the number of rounds after which its state is observed. The liveness bound of
  round robin is 10000 rounds for each slot, one for each microsecond of a timeslice.

  \<^bold>\<open>Not modelled.\<close> The RISC-V architecture, the chips, the boards' wiring and the other drivers
  under \<open>capsules\<close>, because they are assembly or drivers of peripherals whose behaviour has no source
  here; dynamic allocation inside a grant and the typed wrappers of buffers, because they hand out
  Rust references that a byte memory does not have; the digest-based checker policies, because they
  drive a digest engine; floating-point helpers, printers and debug messages. Ownership and
  lifetimes are Rust's; where the source keeps a cell empty while it is in use, the model passes the value.
\<close>

section \<open>Memory protection\<close>

text \<open>
  C3. Moving the application break keeps the process confined: when
  \<open>update_app_memory_region\<close> of the Cortex-M unit succeeds on a configuration whose first region is
  a well-formed process region, the registers of regions 0 and 1 permit an unprivileged access to
  every byte of application memory, to no byte below the start of the block and to no byte at or
  above the kernel break.
\<close>

theorem update_app_memory_region_confines:
  assumes "cm_update_app_memory_region ab kb p c = Some (Inr (), c')"
    and "location (regions c ! 0) = Some (rs, rz)" and "app_geometry rs rz" and "p \<noteq> ExecuteOnly"
  shows "(\<forall>a. unat rs \<le> a \<and> a < unat ab \<longrightarrow> app_permits c' a) \<and>
         (\<forall>a. app_permits c' a \<longrightarrow> unat rs \<le> a \<and> a < unat kb)"
  using update_permits [OF assms] by blast

theorem update_app_memory_region_confines_witness:
  "\<exists>c'. cm_update_app_memory_region 0x20000900 0x20000C00 ReadWriteOnly demo_config = Some (Inr (), c') \<and>
     (\<forall>a. unat (0x20000000 :: usize) \<le> a \<and> a < unat (0x20000900 :: usize) \<longrightarrow> app_permits c' a) \<and>
     (\<forall>a. app_permits c' a \<longrightarrow> unat (0x20000000 :: usize) \<le> a \<and> a < unat (0x20000C00 :: usize))"
proof -
  define res where "res = cm_update_app_memory_region 0x20000900 0x20000C00 ReadWriteOnly demo_config"
  have "res \<noteq> None \<and> fst (the res) = Inr ()" unfolding res_def by code_simp
  then obtain c' where c': "res = Some (Inr (), c')" by (cases res) auto
  have loc: "location (regions demo_config ! 0) = Some (0x20000000, 2048)" by code_simp
  have geo: "app_geometry 0x20000000 2048"
    unfolding app_geometry_def by (intro conjI exI [of _ 11]) simp_all
  show ?thesis
    using update_app_memory_region_confines [OF c' [unfolded res_def] loc geo] c' [unfolded res_def] by simp
qed

text \<open>
  C20. A block allocated for a new process lies inside the memory that was offered, is at least as
  large as asked for and has room for the process's and the kernel's part; every byte of the
  process's initial part is accessible and nothing below the block is.
\<close>

theorem allocate_app_memory_region_contract:
  assumes "cm_allocate_app_memory_region s n min_sz app_sz ker_sz p c = Some (Some (st, sz), c')" and "p \<noteq> ExecuteOnly"
  shows "unat s \<le> unat st \<and> unat st + unat sz \<le> unat s + unat n \<and> unat min_sz \<le> unat sz \<and>
    unat app_sz + unat ker_sz \<le> unat sz \<and>
    (\<forall>a. unat st \<le> a \<and> a < unat st + unat app_sz \<longrightarrow> app_permits c' a) \<and> (\<forall>a. app_permits c' a \<longrightarrow> unat st \<le> a)"
  using allocate_app_permits [OF assms] by blast

theorem allocate_app_memory_region_contract_witness:
  "\<exists>c'. cm_allocate_app_memory_region 0x20000000 0x4000 0 2048 1024 ReadWriteOnly fresh_config = Some (Some (0x20000000, 4096), c') \<and>
     (\<forall>a. unat (0x20000000 :: usize) \<le> a \<and> a < unat (0x20000000 :: usize) + unat (2048 :: usize) \<longrightarrow> app_permits c' a)"
proof -
  define res where "res = cm_allocate_app_memory_region 0x20000000 0x4000 0 2048 1024 ReadWriteOnly fresh_config"
  have "res \<noteq> None \<and> fst (the res) = Some (0x20000000, 4096)" unfolding res_def by code_simp
  then obtain c' where c': "res = Some (Some (0x20000000, 4096), c')" by (cases res) auto
  show ?thesis
    using allocate_app_memory_region_contract [OF c' [unfolded res_def]] c' [unfolded res_def] by blast
qed

text \<open>
  C38. The allocation of a process's block does not always keep the process out of the kernel's part:
  for a process of 32 bytes and 480 bytes of kernel memory the block is 512 bytes with the kernel
  break at offset 32, and the regions that are set up let the process access the byte at offset 40.
\<close>

theorem allocate_app_memory_region_exposes_kernel:
  "\<exists>c'. cm_allocate_app_memory_region 0x20000000 0x4000 0 32 480 ReadWriteOnly fresh_config = Some (Some (0x20000000, 512), c') \<and>
     app_permits c' (0x20000000 + 40)"
proof -
  define res where "res = cm_allocate_app_memory_region 0x20000000 0x4000 0 32 480 ReadWriteOnly fresh_config"
  define res' where "res' = set_app_regions 0x20000000 512 1 ReadWriteOnly fresh_config"
  have "res \<noteq> None \<and> fst (the res) = Some (0x20000000, 512) \<and> res' \<noteq> None \<and> snd (the res) = the res'"
    unfolding res_def res'_def by code_simp
  then obtain c' where c': "res = Some (Some (0x20000000, 512), c')" "res' = Some c'" by (cases res; cases res') auto
  have "app_geometry 0x20000000 512"
    unfolding app_geometry_def by (intro conjI exI [of _ 9]) simp_all
  from set_app_regions_permits [OF c'(2) [unfolded res'_def] this, of "0x20000000 + 40"]
  have "app_permits c' (0x20000000 + 40)" by simp
  then show ?thesis using c'(1) [unfolded res_def] by blast
qed

text \<open>
  C39. Lowering the application break to the very start of the process's region makes the unit panic
  instead of refusing: the number of subregions to enable is zero and its decrement underflows.
\<close>

theorem update_app_memory_region_panics_at_start:
  assumes "location (regions c ! 0) = Some (rs, rz)" "regions c \<noteq> []" "app_geometry rs rz" "rs \<le> kb"
  shows "cm_update_app_memory_region rs kb p c = None"
  by (rule update_at_start_panics [OF assms])

theorem update_app_memory_region_panics_at_start_witness:
  "cm_update_app_memory_region 0x20000000 0x20000C00 ReadWriteOnly demo_config = None"
proof (rule update_app_memory_region_panics_at_start)
  show "location (regions demo_config ! 0) = Some (0x20000000, 2048)" "regions demo_config \<noteq> []" by code_simp+
  show "app_geometry 0x20000000 2048"
    unfolding app_geometry_def by (intro conjI exI [of _ 11]) simp_all
qed (simp add: word_le_nat_alt)

text \<open>
  C22. A region allocated on behalf of a process permits exactly the addresses that are reported
  back, lies inside the memory offered, uses a slot that was free and leaves every other region as it
  was.
\<close>

theorem allocate_region_exact:
  assumes "cm_allocate_region M s n min_sz p c = Some (Some r, c')" and "32 \<le> unat M" and "p \<noteq> ExecuteOnly"
  shows "unat s \<le> unat (Region_start r) \<and> unat (Region_start r) + unat (Region_size r) \<le> unat s + unat n \<and>
    unat min_sz \<le> unat (Region_size r) \<and>
    (\<exists>num < length (regions c). 2 \<le> num \<and> location (regions c ! num) = None \<and>
      (\<forall>a. region_permits (regions c' ! num) a \<longleftrightarrow>
         unat (Region_start r) \<le> a \<and> a < unat (Region_start r) + unat (Region_size r)) \<and>
      (\<forall>i. i \<noteq> num \<longrightarrow> regions c' ! i = regions c ! i))"
  using allocate_region_bounds [OF assms(1)] allocate_region_permits [OF assms] by blast

theorem allocate_region_exact_witness:
  "\<exists>c' num. cm_allocate_region 32 0x40000020 0x1000 96 ReadWriteOnly demo_config = Some (Some (Region_new 0x40000020 96), c') \<and>
     region_permits (regions c' ! num) 0x4000007F"
proof -
  define res where "res = cm_allocate_region 32 0x40000020 0x1000 96 ReadWriteOnly demo_config"
  have "res \<noteq> None \<and> fst (the res) = Some (Region_new 0x40000020 96)" unfolding res_def by code_simp
  then obtain c' where c': "res = Some (Some (Region_new 0x40000020 96), c')" by (cases res) auto
  have "unat (0x40000020 :: usize) \<le> 0x4000007F \<and> (0x4000007F :: nat) < unat (0x40000020 :: usize) + unat (96 :: usize)" by simp
  then show ?thesis
    using allocate_region_exact [OF c' [unfolded res_def]] c' [unfolded res_def] by (force simp: Region_new_def)
qed






section \<open>Queues\<close>

text \<open>
  C8. The ring buffer is a bounded first-in first-out queue: any sequence of \<open>enqueue\<close>, \<open>push\<close>,
  \<open>dequeue\<close>, \<open>empty\<close> and \<open>retain\<close> on a well-formed buffer returns without panicking, gives the same
  answers as the same sequence on a list of bounded length, and leaves the buffer well-formed and
  holding the elements of that list.
\<close>

theorem ring_buffer_refines_list:
  assumes "rb_inv rb" and "0 < rb_capacity rb"
  shows "\<exists>as rb'. rb_run ops rb = Some (as, rb') \<and> rb_inv rb' \<and>
    spec_run (rb_capacity rb) ops (rb_list rb) = (as, rb_list rb')"
  by (rule rb_run_refines [OF assms])

theorem ring_buffer_refines_list_witness:
  "\<exists>rb'. rb_run [Enqueue 1, Enqueue 2, Enqueue 3, Push 4, Dequeue] (rb_new [0 :: int, 0, 0]) =
     Some ([Accepted True, Accepted True, Accepted False, Displaced (Some 1), Taken (Some 2)], rb') \<and> rb_list rb' = [4]"
proof -
  define ops :: "int queue_op list" where "ops = [Enqueue 1, Enqueue 2, Enqueue 3, Push 4, Dequeue]"
  define rb where "rb = rb_new [0 :: int, 0, 0]"
  have cap: "rb_inv rb" "rb_capacity rb = 2" "rb_list rb = []"
    by (simp_all add: rb_def rb_new_inv rb_capacity_def) (simp add: rb_new_def)
  obtain as rb' where run: "rb_run ops rb = Some (as, rb')" "spec_run 2 ops [] = (as, rb_list rb')"
    using ring_buffer_refines_list [of rb ops] cap by auto
  have "spec_run 2 ops [] = ([Accepted True, Accepted True, Accepted False, Displaced (Some 1), Taken (Some 2)], [4])"
    unfolding ops_def by code_simp
  with run show ?thesis unfolding ops_def rb_def by auto
qed

section \<open>System call interface\<close>

text \<open>
  C27. The system call interface loses nothing: the registers a process loads for a call decode to that
  call, the four result registers the kernel writes decode to what user space may see of the result,
  the first of them tells success from failure, and exactly the class numbers from 8 on are refused.
\<close>

theorem syscall_abi_round_trip:
  "(case to_register_arguments s of (n, r0, r1, r2, r3) \<Rightarrow> from_register_arguments n r0 r1 r2 r3) = Some s \<and>
   abi_decode (encode_syscall_return r regs) = Some (abi_view r) \<and>
   (128 \<le> fst (encode_syscall_return r regs) \<longleftrightarrow> is_success r) \<and>
   (from_register_arguments m a b c d = None \<longleftrightarrow> 8 \<le> m)"
  by (cases "to_register_arguments s")
    (simp add: from_to_register_arguments encode_decode encode_is_success from_register_arguments_None)

text \<open>
  C23. A system call's result reaches the process: with the stack pointer inside the process's memory,
  the exception frame after \<open>set_syscall_return_value\<close> holds registers that decode to the result, and
  no byte outside the process's memory changes.
\<close>

theorem return_value_delivered:
  assumes "sp_valid lo hi (psp st)" and "hi \<noteq> - 1"
  shows "\<exists>m'. set_syscall_return_value lo hi st v m = Some (Inr (), st, m') \<and>
     abi_decode (frame_regs (psp st) m') = Some (abi_view v) \<and> same_outside lo hi m m'"
proof -
  obtain m' where m': "set_syscall_return_value lo hi st v m = Some (Inr (), st, m')"
    "abi_decode (frame_regs (psp st) m') = Some (abi_view v)"
    using set_syscall_return_value_ok [OF assms(1)] by blast
  then show ?thesis using set_syscall_return_value_frame [OF m'(1) assms(2)] by blast
qed

theorem return_value_delivered_witness:
  "\<exists>m'. set_syscall_return_value 0x20000000 0x20000800
      \<lparr>ss_regs = replicate 8 0, yield_pc = 0, psr = 0x01000000, psp = 0x200007E0\<rparr> (FailureU32 NOMEM 7) (\<lambda>_. 0) =
        Some (Inr (), \<lparr>ss_regs = replicate 8 0, yield_pc = 0, psr = 0x01000000, psp = 0x200007E0\<rparr>, m') \<and>
     abi_decode (frame_regs 0x200007E0 m') = Some (FailureU32 NOMEM 7)"
  using return_value_delivered [of "0x20000000" "0x20000800"
      "\<lparr>ss_regs = replicate 8 0, yield_pc = 0, psr = 0x01000000, psp = 0x200007E0\<rparr>" "FailureU32 NOMEM 7" "\<lambda>_. 0"]
  by (auto simp: sp_valid_def)

text \<open>
  C24. An upcall is delivered: after \<open>set_process_function\<close> the exception frame makes the process
  continue in the function with its four arguments in the registers and its old program counter in
  the link register, with nothing outside the process's memory changed.
\<close>

theorem process_function_delivered:
  assumes "sp_valid lo hi (psp st)" and "hi \<noteq> - 1"
  shows "\<exists>m'. set_process_function lo hi st c m = Some (Inr (), st, m') \<and>
     frame_regs (psp st) m' = (argument0 c, argument1 c, argument2 c, argument3 c) \<and>
     read_word m' (psp st + 20) = yield_pc st OR 1 \<and> read_word m' (psp st + 24) = pc c OR 1 \<and>
     same_outside lo hi m m'"
proof -
  obtain m' where m': "set_process_function lo hi st c m = Some (Inr (), st, m')"
    "frame_regs (psp st) m' = (argument0 c, argument1 c, argument2 c, argument3 c)"
    "read_word m' (psp st + 20) = yield_pc st OR 1" "read_word m' (psp st + 24) = pc c OR 1"
    using set_process_function_ok [OF assms(1)] by blast
  then show ?thesis using set_process_function_frame [OF m'(1) assms(2)] by blast
qed

theorem process_function_delivered_witness:
  "\<exists>m'. set_process_function 0x20000000 0x20000800
      \<lparr>ss_regs = replicate 8 0, yield_pc = 0x30040, psr = 0x01000000, psp = 0x200007E0\<rparr>
      \<lparr>source = KernelSource, argument0 = 1, argument1 = 2, argument2 = 3, argument3 = 4, pc = 0x30100\<rparr> (\<lambda>_. 0) =
        Some (Inr (), \<lparr>ss_regs = replicate 8 0, yield_pc = 0x30040, psr = 0x01000000, psp = 0x200007E0\<rparr>, m') \<and>
     frame_regs 0x200007E0 m' = (1, 2, 3, 4)"
  using process_function_delivered [of "0x20000000" "0x20000800"
      "\<lparr>ss_regs = replicate 8 0, yield_pc = 0x30040, psr = 0x01000000, psp = 0x200007E0\<rparr>"
      "\<lparr>source = KernelSource, argument0 = 1, argument1 = 2, argument2 = 3, argument3 = 4, pc = 0x30100\<rparr>" "\<lambda>_. 0"]
  by (auto simp: sp_valid_def)

text \<open>
  C34. A process whose stack pointer left its memory is never resumed as if nothing happened: whatever
  the process did, when control returns with such a stack pointer the reason reported is a fault.
\<close>

theorem invalid_stack_pointer_faults:
  assumes "\<not> sp_valid lo hi (new_stack_pointer (sw (psp st) (ss_regs st) m w))" and "hi \<noteq> - 1"
  shows "\<exists>st'. switch_to_process sw lo hi st m w =
     Some (Fault, Some (new_stack_pointer (sw (psp st) (ss_regs st) m w)), st',
       memory_after (sw (psp st) (ss_regs st) m w), world_after (sw (psp st) (ss_regs st) m w))"
  using switch_to_process_invalid_sp [where ex = "sw (psp st) (ss_regs st) m w" and sw = sw and st = st and m = m and w = w] assms
  by simp

theorem invalid_stack_pointer_faults_witness:
  "\<exists>sp st' m' w'. switch_to_process idle_user 0x20000000 0x20000800
      \<lparr>ss_regs = replicate 8 0, yield_pc = 0, psr = 0x01000000, psp = 0x1FFFFFF0\<rparr> (\<lambda>_. 0) () = Some (Fault, sp, st', m', w')"
  using invalid_stack_pointer_faults [of "0x20000000" "0x20000800" idle_user
      "\<lparr>ss_regs = replicate 8 0, yield_pc = 0, psr = 0x01000000, psp = 0x1FFFFFF0\<rparr>" "\<lambda>_. 0" "()"]
  by (auto simp: sp_valid_def idle_user_def)

text \<open>
  C35. Saving and restoring a stored context is lossless: \<open>store_context\<close> writes 56 bytes that
  \<open>try_from\<close> reads back as the same stored state, and leaves the rest of the buffer alone.
\<close>

theorem stored_state_round_trip:
  assumes "length (ss_regs st) = 8" and "56 \<le> length out"
  shows "\<exists>out'. store_context st out = Some (Inr 56, out') \<and> length out' = length out \<and>
     CortexMStoredState_try_from (take 56 out') = Inr st \<and> drop 56 out' = drop 56 out"
  by (rule store_context_read_back [OF assms])

theorem stored_state_round_trip_witness:
  "\<exists>out'. store_context \<lparr>ss_regs = replicate 8 3, yield_pc = 0x30001, psr = 0x01000000, psp = 0x200007E0\<rparr> (replicate 60 0) =
      Some (Inr 56, out') \<and>
     CortexMStoredState_try_from (take 56 out') =
       Inr \<lparr>ss_regs = replicate 8 3, yield_pc = 0x30001, psr = 0x01000000, psp = 0x200007E0\<rparr>"
  using stored_state_round_trip
    [of "\<lparr>ss_regs = replicate 8 3, yield_pc = 0x30001, psr = 0x01000000, psp = 0x200007E0\<rparr>" "replicate 60 0"]
  by auto

section \<open>Program headers\<close>



text \<open>
  C32. Every header the parser accepts is well-formed: its tables have the fixed size and fill counts
  within it, its package name is valid UTF-8, and the checksum in its base is the exclusive or of all
  its other words.
\<close>

theorem accepted_header_wf:
  assumes "parse_tbf_header b v = Inr h"
  shows "header_wf h \<and> (\<exists>base. TbfHeaderV2Base_try_from b = Inr base \<and>
     checksum base = xor_words (take 3 (words_of b) @ drop 4 (words_of b)))"
  using parse_tbf_header_wf [OF assms] parse_checksum [OF assms] by blast

theorem accepted_header_wf_witness: "header_wf demo_header"
proof -
  have "parse_tbf_header (emit_header demo_base demo_items) 2 = Inr demo_header"
    using parse_emit_header [OF _ _ demo_sealed] by (simp add: demo_header_def demo_items_def)
  then show ?thesis using accepted_header_wf by blast
qed

text \<open>
  C33. The lengths read from the first eight bytes of an entry are usable: the header has at least the
  16 bytes of its base and fits in the entry.
\<close>

theorem accepted_lengths:
  assumes "parse_tbf_header_lengths app = Inr (v, hs, ts)"
  shows "v = 2 \<and> 16 \<le> unat hs \<and> unat hs \<le> unat ts"
  by (rule header_lengths_ok [OF assms])

theorem accepted_lengths_witness:
  "parse_tbf_header_lengths [2, 0, 32, 0, 0, 2, 0, 0] = Inr (2, 32, 512) \<and> 16 \<le> unat (32 :: u16)"
proof -
  have "parse_tbf_header_lengths [2, 0, 32, 0, 0, 2, 0, 0] = Inr (2, 32, 512)" by code_simp
  then show ?thesis using accepted_lengths by blast
qed

section \<open>Permissions\<close>

text \<open>
  C28. When the header of a process lists permissions, a command passes the default filter exactly when
  the first entry for its driver and its block of 64 commands exists and has the command's bit set.
\<close>

theorem command_filter_exact:
  assumes "header p = TbfHeaderV2 h" and "hd_permissions h = Some ps"
  shows "filter_syscall_default_allow p (Command d s a b) = Inr () \<longleftrightarrow>
    (\<exists>e. find (\<lambda>q. perm_driver_number q = d \<and> perm_offset q = s div 64) (perms ps) = Some e \<and>
       bit (allowed_commands e) (unat (s mod 64)))"
  by (rule filter_command_listed [OF assms])

theorem command_filter_exact_witness:
  "\<exists>h. filter_syscall_default_allow (demo_proc\<lparr>header := h\<rparr>) (Command 1 65 0 0) = Inr () \<and>
     filter_syscall_default_allow (demo_proc\<lparr>header := h\<rparr>) (Command 1 66 0 0) \<noteq> Inr () \<and>
     filter_syscall_default_allow (demo_proc\<lparr>header := h\<rparr>) (Command 2 65 0 0) \<noteq> Inr ()"
proof -
  define ps where "ps = \<lparr>perms_length = 1, perms = [\<lparr>perm_driver_number = 1, perm_offset = 1, allowed_commands = 2\<rparr>]\<rparr>"
  define h where "h = \<lparr>hd_base = demo_base, hd_main = Some demo_main, hd_program = None, hd_package_name = None,
      hd_writeable_regions = None, hd_fixed_addresses = None, hd_permissions = Some ps, hd_storage_permissions = None,
      hd_kernel_version = None\<rparr>"
  have h: "hd_permissions h = Some ps" by (simp add: h_def)
  have f: "filter_syscall_default_allow (demo_proc\<lparr>header := TbfHeaderV2 h\<rparr>) (Command d s 0 0) = Inr () \<longleftrightarrow>
      d = 1 \<and> s div 64 = 1 \<and> bit (2 :: u64) (unat (s mod 64))" for d s
    using command_filter_exact [OF _ h, of "demo_proc\<lparr>header := TbfHeaderV2 h\<rparr>" d s 0 0] by (auto simp: ps_def)
  have "\<not> bit (2 :: u64) (unat (66 mod 64 :: usize))" "bit (2 :: u64) (unat (65 mod 64 :: usize))" by code_simp+
  then show ?thesis unfolding f by (intro exI [of _ "TbfHeaderV2 h"]) (simp add: f del: filter_syscall_default_allow.simps)
qed



section \<open>Processes\<close>



text \<open>
  C11. A buffer a process shared stays in memory the process owns: after
  \<open>build_readwrite_process_buffer\<close> succeeds, no sequence of methods moves the process break below the
  end of the buffer as long as the process is not restarted.
\<close>

theorem shared_buffer_stays_owned:
  assumes "build_readwrite_process_buffer a n p0 = (Inr b, p)" and "proc_ok p mc"
    and "proc_steps chip (p, mc) (p', mc')" and "mpu chip = cortexm_mpu k m" and "process_id p' = process_id p"
  shows "buf_len b = 0 \<or> in_app_owned_memory (buf_ptr b) (buf_len b) p'"
  by (rule cm_contract.shared_buffer_stays [OF assms])

theorem shared_buffer_stays_owned_witness:
  "\<exists>b p' mc'. proc_steps demo_chip (snd (build_readwrite_process_buffer 0x20000100 64 demo_proc), demo_machine) (p', mc') \<and>
     fst (build_readwrite_process_buffer 0x20000100 64 demo_proc) = Inr b \<and> app_break p' = 0x20000400 \<and>
     (buf_len b = 0 \<or> in_app_owned_memory (buf_ptr b) (buf_len b) p')"
proof -
  define build where "build = build_readwrite_process_buffer 0x20000100 64 demo_proc"
  define res where "res = brk demo_chip 0x20000400 (snd build) demo_machine"
  have "fst build = Inr (ProcessBuffer_new 0x20000100 64 (process_id demo_proc)) \<and>
      res \<noteq> None \<and> app_break (fst (snd (the res))) = 0x20000400 \<and> process_id (fst (snd (the res))) = process_id (snd build)"
    unfolding res_def build_def by code_simp
  then obtain b r p' mc' where res: "build = (Inr b, snd build)" "res = Some (r, p', mc')" "app_break p' = 0x20000400"
    "process_id p' = process_id (snd build)"
    by (cases build) auto
  have ok: "proc_ok (snd build) demo_machine"
    using build_readwrite_ok [OF res(1) [unfolded build_def] demo_proc_ok] by (simp add: build_def)
  have steps: "proc_steps demo_chip (snd build, demo_machine) (p', mc')"
    using step_brk [OF res(2) [unfolded res_def]] by blast
  show ?thesis
    using shared_buffer_stays_owned [OF res(1) [unfolded build_def] _ _ demo_chip_mpu] ok steps res
    unfolding build_def by (metis fst_conv)
qed

text \<open>
  C17. A stale process identifier finds nothing: when the process in a slot changed its identifier, no
  lookup of the old identifier succeeds, after whatever steps.
\<close>

theorem stale_identifier_not_found:
  assumes "sys_steps chip sys sys'" and "mpu chip = cortexm_mpu n m" and "sys_ok sys"
    and "slot i sys = Some p" and "slot i sys' = Some p'" and "process_id p' \<noteq> process_id p"
  shows "get_process (process_id p) sys' = None \<and> \<not> processid_is_valid (process_id p) sys'"
  using stale_identifier [OF assms(3) _ assms(4-6)] cm_contract.sys_steps_ok [OF assms(1-3)]
  by (simp add: processid_is_valid_iff)

theorem stale_identifier_not_found_witness:
  "\<exists>sys'. sys_steps demo_chip demo_sys sys' \<and> get_process (process_id demo_proc) sys' = None"
proof -
  define res where "res = try_restart demo_chip None demo_proc demo_machine"
  have "case res of Some (p', mc') \<Rightarrow> pid_identifier (process_id p') = 1 | _ \<Rightarrow> False" unfolding res_def by code_simp
  then obtain p' mc' where res: "res = Some (p', mc')" "pid_identifier (process_id p') = 1"
    by (auto split: option.splits)
  let ?sys = "(put_proc 0 p' demo_sys)\<lparr>machine := mc'\<rparr>"
  have slot: "slot 0 demo_sys = Some demo_proc" by (simp add: demo_sys_slot)
  have "sys_step demo_chip demo_sys ?sys"
    using sys_proc [OF slot] step_restart [OF res(1) [unfolded res_def]] by (simp add: demo_sys_def)
  then have steps: "sys_steps demo_chip demo_sys ?sys" by blast
  have "slot 0 ?sys = Some p'" "process_id p' \<noteq> process_id demo_proc" using res(2) by (auto simp: demo_sys_def)
  then show ?thesis
    using stale_identifier_not_found [OF steps demo_chip_mpu demo_sys_ok slot] steps by blast
qed

section \<open>Grants\<close>

text \<open>
  C9. A grant allocated on first use lies between the break of the process and its old kernel break,
  nothing outside it is written, its three tables have the sizes the grant was declared with and hold
  only empty entries, and the driver's own part comes after them, aligned and inside the allocation.
\<close>

theorem new_grant_layout:
  assumes "new_inner chip g p mc = Some (Inr (Some data), p', mc')" and "proc_ok p mc"
    and "grant_t_align g = 2 ^ k" and "k < 32" and "alloc_size g = Some sz" and "unat sz + 2 ^ max k 2 \<le> 2 ^ 32"
  shows "\<exists>e base. grant_get (grant_grant_num g) p' = Some e \<and> grant_ptr e = base \<and> gp_driver_num e = grant_driver_num g \<and>
    app_break p \<le> base \<and> unat base + unat sz \<le> unat (kernel_memory_break p) \<and>
    changes_within (unat base) (unat base + unat sz) (memory mc) (memory mc') \<and>
    (\<forall>j<3. view (memory mc') base j = replicate (count j (memory mc') base) (0, 0)) \<and>
    count 0 (memory mc') base = unat (grant_upcalls g) \<and> count 1 (memory mc') base = unat (grant_allow_ros g) \<and>
    count 2 (memory mc') base = unat (grant_allow_rws g) \<and>
    grant_end (memory mc') base \<le> unat data \<and> unat data + unat (grant_t_size g) = unat base + unat sz \<and> 2 ^ k dvd unat data"
  by (rule new_inner_allocated [OF assms])

theorem new_grant_layout_witness:
  "\<exists>p' mc' base. new_inner demo_chip demo_grant demo_proc demo_machine = Some (Inr (Some 0x20000BF8), p', mc') \<and>
     view (memory mc') base 0 = [(0, 0), (0, 0)]"
proof -
  define res where "res = new_inner demo_chip demo_grant demo_proc demo_machine"
  have "res \<noteq> None \<and> fst (the res) = Inr (Some 0x20000BF8)" unfolding res_def by code_simp
  then obtain p' mc' where res: "res = Some (Inr (Some 0x20000BF8), p', mc')" by auto
  have "alloc_size demo_grant = Some 48" by code_simp
  moreover have "grant_t_align demo_grant = 2 ^ 3" "grant_upcalls demo_grant = 2" by (simp_all add: demo_grant_def)
  ultimately obtain base where "\<forall>j<3. view (memory mc') base j = replicate (count j (memory mc') base) (0, 0)"
    "count 0 (memory mc') base = 2"
    using new_grant_layout [OF res [unfolded res_def] demo_proc_ok, of 3 48] by auto
  then have "view (memory mc') base 0 = [(0, 0), (0, 0)]" by (auto simp: numeral_2_eq_2)
  then show ?thesis using res [unfolded res_def] by blast
qed

text \<open>
  C6. Subscribing swaps one entry of the driver's table of upcalls: on success the entry of that number
  holds the new upcall, the one it held before is returned, and every other entry and both tables of
  buffers are as they were; on failure nothing changes and the new upcall is handed back.
\<close>

theorem subscribe_swaps:
  assumes "grant_subscribe u p m = (r, p', m')" and "driver_grant (upcall_driver_num (upcall_id u)) p = Some base" and "fits m base"
  shows "p' = p \<and>
    (case r of
       Inl (u', e) \<Rightarrow> u' = u \<and> m' = m
     | Inr old \<Rightarrow>
         let i = unat (subscribe_num (upcall_id u)) in
         i < length (view m base 0) \<and>
         (upcall_appdata old, null_or (upcall_fn_ptr old)) = view m base 0 ! i \<and> upcall_id old = upcall_id u \<and>
         view m' base 0 = (view m base 0)[i := (upcall_appdata u, null_or (upcall_fn_ptr u))] \<and>
         view m' base 1 = view m base 1 \<and> view m' base 2 = view m base 2)"
  using assms(1)
proof (cases rule: grant_subscribe_cases)
  case (stored base' i)
  then have [simp]: "base' = base" using assms(2) by simp
  have "view m' base 0 = (view m base 0)[i := (upcall_appdata u, null_or (upcall_fn_ptr u))] \<and>
      view m' base 1 = view m base 1 \<and> view m' base 2 = view m base 2"
    using view_write [OF assms(3), of 0 i m'] stored by simp
  then show ?thesis using stored by (simp add: Upcall_new_def Let_def)
qed auto

theorem subscribe_swaps_witness:
  "\<exists>m'. grant_subscribe demo_upcall demo_granted_proc demo_granted_memory = (Inr (Upcall_new (process_id demo_proc) (upcall_id demo_upcall) 0 None), demo_granted_proc, m') \<and>
     view m' 0x20000BD0 0 = [(0, 0), (7, 0x30101)]"
proof -
  define res where "res = grant_subscribe demo_upcall demo_granted_proc demo_granted_memory"
  have "fst res = Inr (Upcall_new (process_id demo_proc) (upcall_id demo_upcall) 0 None)" unfolding res_def by code_simp
  then obtain p' m' where res: "res = (Inr (Upcall_new (process_id demo_proc) (upcall_id demo_upcall) 0 None), p', m')"
    by (cases res) auto
  have sub: "upcall_driver_num (upcall_id demo_upcall) = 2" "unat (subscribe_num (upcall_id demo_upcall)) = 1"
    "(upcall_appdata demo_upcall, null_or (upcall_fn_ptr demo_upcall)) = (7, 0x30101)" by code_simp+
  show ?thesis
    using subscribe_swaps [OF res [unfolded res_def]] demo_granted sub res unfolding res_def by auto
qed

text \<open>
  C18. Sharing a read-write buffer swaps one entry of the driver's table: on success the old buffer is
  returned and only that entry changes; on failure the new buffer is handed back and nothing changes.
\<close>

theorem allow_readwrite_swaps:
  assumes "grant_allow_rw d num b p m = (r, p', m')" and "driver_grant d p = Some base" and "fits m base"
  shows "p' = p \<and>
    (case r of
       Inl (b', e) \<Rightarrow> b' = b \<and> m' = m
     | Inr old \<Rightarrow>
         unat num < length (view m base 2) \<and> (buf_ptr old, buf_len old) = view m base 2 ! unat num \<and>
         view m' base 2 = (view m base 2)[unat num := (buf_ptr b, buf_len b)] \<and>
         view m' base 0 = view m base 0 \<and> view m' base 1 = view m base 1)"
  using assms(1)
proof (cases rule: grant_allow_rw_cases)
  case (stored base')
  then have [simp]: "base' = base" using assms(2) by simp
  have "view m' base 2 = (view m base 2)[unat num := (buf_ptr b, buf_len b)] \<and>
      view m' base 0 = view m base 0 \<and> view m' base 1 = view m base 1"
    using view_write [OF assms(3), of 2 "unat num" m'] stored by simp
  then show ?thesis using stored by (simp add: ProcessBuffer_new_def)
qed auto

theorem allow_readwrite_swaps_witness:
  "\<exists>old m'. grant_allow_rw 2 0 (ProcessBuffer_new 0x20000100 64 (process_id demo_proc)) demo_granted_proc demo_granted_memory =
       (Inr old, demo_granted_proc, m') \<and> view m' 0x20000BD0 2 = [(0x20000100, 64)]"
proof -
  define res where "res = grant_allow_rw 2 0 (ProcessBuffer_new 0x20000100 64 (process_id demo_proc)) demo_granted_proc demo_granted_memory"
  have "case fst res of Inr _ \<Rightarrow> True | _ \<Rightarrow> False" unfolding res_def by code_simp
  then obtain old p' m' where res: "res = (Inr old, p', m')" by (cases res) (auto split: sum.splits)
  show ?thesis
    using allow_readwrite_swaps [OF res [unfolded res_def]] demo_granted res unfolding res_def
    by (auto simp: ProcessBuffer_new_def)
qed



section \<open>Upcalls\<close>



section \<open>Loading\<close>

text \<open>
  C10. Loading processes from flash fills a prefix of the process table with well-formed processes whose
  memory blocks are disjoint, in ascending order and inside the memory that was offered, each
  waiting for its credentials to be checked; the rest of the table stays empty.
\<close>

theorem loaded_processes_isolated:
  assumes "load_processes_from_flash chip fl mem (replicate n None) pol mc = Some (r, procs', mc')"
    and "mpu chip = cortexm_mpu k m" and "slice_ok mem"
  shows "r = Inr () \<and> table_ok (unat (fst mem)) (slice_end mem) n procs' mc'"
proof -
  have loop: "load_loop chip pol fl mem 0 (replicate n None) mc = Some (procs', mc')" and r: "r = Inr ()"
    using assms(1) by (auto simp: load_processes_from_flash_def bind_eq_Some_conv)
  from cm_contract.load_loop_ok [OF loop, of k m "unat (fst mem)", rule_format, OF assms(2,3) le_refl, of "[]" n]
  show ?thesis using r by simp
qed

theorem loaded_processes_isolated_witness:
  "\<exists>p mc'. load_processes_from_flash demo_chip demo_flash (0x20000000, 0x8000) [None, None] StopFaultPolicy demo_machine =
     Some (Inr (), [Some p, None], mc') \<and> unat (fst (0x20000000, 0x8000) :: usize) \<le> unat (memory_start p)"
proof -
  define res where "res = load_process demo_chip demo_flash (0x20000000, 0x8000) 0 StopFaultPolicy demo_machine"
  have "case res of Some (Inr (fl, mem, Some p), mc) \<Rightarrow> length (snd fl) = 0 | _ \<Rightarrow> False" unfolding res_def by code_simp
  then obtain fl mem p mc where res: "res = Some (Inr (fl, mem, Some p), mc)" "snd fl = []"
    by (auto split: option.splits sum.splits prod.splits)
  have "load_loop demo_chip StopFaultPolicy demo_flash (0x20000000, 0x8000) 0 [None, None] demo_machine =
      load_loop demo_chip StopFaultPolicy fl mem 1 [Some p, None] mc"
    using res by (subst load_loop.simps) (simp add: res_def)
  also have "\<dots> = Some ([Some p, None], mc)"
    using load_process_stops [of fl demo_chip mem "of_nat 1" StopFaultPolicy mc] res(2)
    by (subst load_loop.simps) auto
  finally have load: "load_processes_from_flash demo_chip demo_flash (0x20000000, 0x8000) (replicate 2 None) StopFaultPolicy demo_machine =
      Some (Inr (), [Some p, None], mc)"
    by (simp add: load_processes_from_flash_def numeral_2_eq_2)
  have "slice_ok (0x20000000, 0x8000)" by (simp add: slice_ok_def)
  then have "table_ok (unat (fst (0x20000000, 0x8000 :: usize) :: usize)) (slice_end (0x20000000, 0x8000)) 2 [Some p, None] mc"
    using loaded_processes_isolated [OF load demo_chip_mpu] by blast
  then obtain ps k where ps: "[Some p, None] = map Some ps @ replicate k None"
    "\<forall>p\<in>set ps. unat (fst (0x20000000, 0x8000 :: usize) :: usize) \<le> unat (memory_start p)"
    unfolding table_ok_def loaded_ok_def by blast
  have "Some p \<in> set (map Some ps @ replicate k None)" by (simp flip: ps(1))
  then have "unat (fst (0x20000000, 0x8000 :: usize) :: usize) \<le> unat (memory_start p)" using ps(2) by auto
  then show ?thesis using load by (auto simp: numeral_2_eq_2)
qed

text \<open>
  C29. The loader terminates: when no entry of the flash image has length zero and no entry makes the
  creation of its process panic, the loader returns.
\<close>

theorem loader_returns:
  assumes "no_empty_entry (snd fl)" and "\<not> load_panics chip pol (fl, mem, 0, mc)"
  shows "\<exists>procs' mc'. load_processes_from_flash chip fl mem ps pol mc = Some (Inr (), procs', mc')"
  using load_loop_returns [OF assms, of ps] by (auto simp: load_processes_from_flash_def)

theorem loader_returns_witness:
  "\<exists>procs' mc'. load_processes_from_flash demo_chip (0x30000, replicate 16 255) (0x20000000, 0x8000) [None] StopFaultPolicy demo_machine =
     Some (Inr (), procs', mc')"
proof (rule loader_returns)
  let ?fl = "(0x30000, replicate 16 255) :: flash_slice"
  show "no_empty_entry (snd ?fl)" by code_simp
  have none: "entry_lengths (take 8 (snd ?fl)) = None" by code_simp
  then have stop: "\<exists>e. load_process demo_chip ?fl (0x20000000, 0x8000) (of_nat 0) StopFaultPolicy demo_machine = Some (Inl e, demo_machine)"
    by (intro load_process_stops) simp
  have "st = (?fl, (0x20000000, 0x8000), 0, demo_machine)"
    if "(load_step demo_chip StopFaultPolicy)\<^sup>*\<^sup>* (?fl, (0x20000000, 0x8000), 0, demo_machine) st" for st
    using that stop by (induction) (auto elim!: load_step.cases)
  then show "\<not> load_panics demo_chip StopFaultPolicy (?fl, (0x20000000, 0x8000), 0, demo_machine)"
    using stop unfolding load_panics_def by fastforce
qed

text \<open>
  C30. The loader does not return on a flash image whose entry has a header of length zero and a total
  length of zero: it reads the same entry for ever.
\<close>

theorem loader_hangs_on_empty_entry:
  assumes "8 \<le> length (snd fl)" and "entry_lengths (take 8 (snd fl)) = Some (v, 0, 0)" and "ps \<noteq> []"
  shows "load_processes_from_flash chip fl mem ps pol mc = None"
  using assms(3) by (simp add: load_processes_from_flash_def load_loop_hangs [OF assms(1,2)])

theorem loader_hangs_on_empty_entry_witness:
  "load_processes_from_flash demo_chip (0x30000, [2, 0, 16, 0, 0, 0, 0, 0]) (0x20000000, 0x8000) [None] StopFaultPolicy demo_machine = None"
proof -
  have "entry_lengths (take 8 (snd (0x30000 :: usize, [2, 0, 16, 0, 0, 0, 0, 0]))) = Some (0, 0, 0)" by code_simp
  then show ?thesis by (intro loader_hangs_on_empty_entry) simp_all
qed

section \<open>The running kernel\<close>

text \<open>
  C2. The main loop keeps the system consistent: on a Cortex-M board with the LED, button and
  inter-process communication drivers, whatever the scheduler decides, whatever the processes do
  between two traps and whatever system calls they make, after any number of rounds of
  \<open>kernel_loop\<close> every process is well-formed, the processes are in separate memory, and every process is
  either the one it was or has been restarted under a new identifier.
\<close>

theorem kernel_loop_keeps_invariant:
  assumes "kernel_loop (cortexm_chip k m user a b) (board_drivers (cortexm_chip k m user a b) leds pins)
      (board_platform pins fired ack timer get_dc put_dc) scheduler rounds (s, sys) = Some (s', sys')"
    and "sys_ok sys"
  shows "sys_ok sys' \<and> sys_advances sys sys'"
proof -
  have "sys_steps (cortexm_chip k m user a b) sys sys'"
    using main_loop.kernel_loop_runs [OF assms(1)] assms(2) by (simp add: sys_runs_def)
  then show ?thesis by (rule cm_contract.sys_steps_ok [OF _ cortexm_chip_mpu assms(2)])
qed

theorem kernel_loop_keeps_invariant_witness:
  "\<exists>s' sys'. kernel_loop clock_chip (board_drivers clock_chip [] []) clock_platform round_robin 1
       (RoundRobinComponent_finalize 2 (\<lambda>_. None), clock_sys) = Some (s', sys') \<and> sys_ok sys' \<and>
     map_option (\<lambda>p. map_option timeslice_expiration_count (debug p)) (slot 0 sys') = Some (Some 1)"
proof -
  define res where "res = kernel_loop clock_chip (board_drivers clock_chip [] []) clock_platform round_robin 1
       (RoundRobinComponent_finalize 2 (\<lambda>_. None), clock_sys)"
  have "case res of None \<Rightarrow> False
      | Some (s, sys) \<Rightarrow> map_option (\<lambda>p. map_option timeslice_expiration_count (debug p)) (slot 0 sys) = Some (Some 1)"
    unfolding res_def by code_simp
  then obtain s' sys' where res: "res = Some (s', sys')"
      "map_option (\<lambda>p. map_option timeslice_expiration_count (debug p)) (slot 0 sys') = Some (Some 1)"
    by (auto split: option.splits)
  have "sys_ok sys'"
    using kernel_loop_keeps_invariant [OF res(1) [unfolded res_def clock_chip_def clock_platform_def] clock_sys_ok] by blast
  then show ?thesis using res unfolding res_def by blast
qed



text \<open>
  C5. Round robin does not starve a process: with the list of processes as the board component builds
  it, a process that is ready is among those that ran after at most 10000 rounds of the loop for each
  slot of the process table, one round for each microsecond of the timeslice of a process that is
  interrupted by the kernel again and again. A round that ends by a kernel preemption is taken to last
  at least one microsecond.
\<close>

theorem round_robin_runs_every_ready_process:
  assumes "i < n" and "n * 10000 \<le> length ts"
    and "\<forall>(sys, reason, t) \<in> set ts. slot_ready sys i \<and> (reason = KernelPreemption \<longrightarrow> 0 < t)"
  shows "\<exists>ps s' sys p. rr_turns (RoundRobinComponent_finalize n links) ts = Some (ps, s') \<and> sys \<in> fst ` set ts \<and>
    slot i sys = Some p \<and> process_id p \<in> set ps"
proof -
  let ?s = "RoundRobinComponent_finalize n links"
  have "i \<in> set (rev [0..<n])" using assms(1) by simp
  then obtain as bs where split: "rev [0..<n] = as @ i # bs" by (meson split_list)
  then have inv: "rr_inv ?s (as @ i # bs)" using finalize_holds [of n links] assms(1) by simp
  have "length (rev [0..<n]) = length (as @ i # bs)" using split by (rule arg_cong)
  then have "length as * 10000 + rr_left ?s \<le> n * 10000"
    using rr_left_bounds [OF inv] by simp
  then have "length as * 10000 + rr_left ?s \<le> length ts" using assms(2) by simp
  then show ?thesis by (rule rr_runs_ready [OF inv]) (use assms(3) in auto)
qed

theorem round_robin_runs_every_ready_process_witness:
  "\<exists>ps s'. rr_turns (RoundRobinComponent_finalize 2 (\<lambda>_. None)) (replicate 20000 (clock_sys, TimesliceExpired, 10000)) = Some (ps, s') \<and>
     process_id clock_proc \<in> set ps"
proof -
  have "slot_ready clock_sys 0" by code_simp
  then have "\<exists>ps s' sys p. rr_turns (RoundRobinComponent_finalize 2 (\<lambda>_. None)) (replicate 20000 (clock_sys, TimesliceExpired, 10000)) = Some (ps, s') \<and>
      sys \<in> fst ` set (replicate 20000 (clock_sys, TimesliceExpired, 10000 :: u32)) \<and> slot 0 sys = Some p \<and> process_id p \<in> set ps"
    by (intro round_robin_runs_every_ready_process) simp_all
  then show ?thesis by (auto simp: clock_sys_slot)
qed

section \<open>System calls, from registers to registers\<close>



text \<open>
  C14. A call that the filter refuses changes nothing: it returns the filter's error to the caller, no
  other process is touched, the caller's own record differs at most in the statistics of its calls,
  and no byte of memory outside the caller's own changes.
\<close>

theorem filtered_call_refused:
  assumes "can_return i p st sys" and "ukb chip = cortexm_ukb sw"
    and "filter_syscall_default_allow p s = Inl e" and "debug_syscall_called s p = Some p1"
  shows "\<exists>sys'. handle_syscall chip drivers filter_syscall_default_allow i s sys = Some sys' \<and>
    result_of st sys' = Some (Failure e) \<and> (\<forall>j. j \<noteq> i \<longrightarrow> slot j sys' = slot j sys) \<and> slot i sys' = Some p1 \<and>
    same_outside (memory_start p) (app_break p) (memory (machine sys)) (memory (machine sys'))"
  by (rule handle_syscall_filtered [OF assms])

theorem filtered_call_refused_witness:
  "\<exists>sys'. handle_syscall clock_chip (board_drivers clock_chip [] []) filter_syscall_default_allow 0 (Command 2 65 0 0)
       listed_sys = Some sys' \<and> result_of clock_state sys' = Some (Failure NODEVICE)"
proof -
  let ?p = "clock_proc\<lparr>header := listed_header\<rparr>" and ?s = "Command 2 65 0 0"
  have ret: "can_return 0 ?p clock_state listed_sys"
    by (simp add: can_return_def listed_sys_def one_slot sp_valid_def clock_state_def clock_proc_def)
  have chip: "ukb clock_chip = cortexm_ukb idle_user" by (simp add: clock_chip_def cortexm_chip_def)
  have "filter_syscall_default_allow ?p ?s = Inl NODEVICE \<and> debug_syscall_called ?s ?p \<noteq> None" by code_simp
  then obtain p1 where "filter_syscall_default_allow ?p ?s = Inl NODEVICE" "debug_syscall_called ?s ?p = Some p1" by blast
  from filtered_call_refused [OF ret chip this] show ?thesis by blast
qed

section \<open>Credentials\<close>

text \<open>
  C13. Where a policy requires credentials, a process becomes approved by an answer of the policy only
  if the answer is an acceptance and the process is the one the machine was waiting for, which had not
  been checked before; it then carries the accepted credentials and the short identifier the policy
  derives from them.
\<close>

theorem only_accepted_credentials_approve:
  assumes "check_done res creds c sys = Some (c', sys')" and "pcm_policy c = Some pol" and "require_credentials pol"
    and "slot i sys = Some p" and "pstate p \<noteq> CredentialsApproved"
    and "slot i sys' = Some p'" and "pstate p' = CredentialsApproved"
  shows "res = Inr Accept \<and> i = pcm_process c \<and> pstate p = CredentialsUnchecked \<and>
    credentials p' = Some creds \<and> app_id p' = to_short_id pol creds"
  by (rule check_done_approves [OF assms])

theorem only_accepted_credentials_approve_witness:
  "\<exists>c' sys' p'. check_done (Inr Accept) rsa_credentials rsa_checker unchecked_sys = Some (c', sys') \<and> slot 0 sys' = Some p' \<and>
     pstate p' = CredentialsApproved \<and> credentials p' = Some rsa_credentials \<and> app_id p' = rsa_short_id rsa_credentials"
proof -
  define res where "res = check_done (Inr Accept) rsa_credentials rsa_checker unchecked_sys"
  have "case res of None \<Rightarrow> False | Some (c', sys') \<Rightarrow> map_option pstate (slot 0 sys') = Some CredentialsApproved"
    unfolding res_def by code_simp
  then obtain c' sys' p' where res: "res = Some (c', sys')" "slot 0 sys' = Some p'" "pstate p' = CredentialsApproved"
    by (auto split: option.splits)
  have pol: "pcm_policy rsa_checker = Some AppCheckerRsaSimulated" "require_credentials AppCheckerRsaSimulated"
    by (simp_all add: rsa_checker_def AppCheckerRsaSimulated_def)
  have p: "slot 0 unchecked_sys = Some unchecked_proc" by (simp add: unchecked_sys_def one_slot)
  show ?thesis
    using only_accepted_credentials_approve [OF res(1) [unfolded res_def] pol p _ res(2,3)] res unfolding res_def by (auto simp: AppCheckerRsaSimulated_def unchecked_proc_def)
qed

text \<open>
  C16. The walk of the credential checker over the processes and their footers ends: if the footers of
  every process lie between the end of its binary and the end of its flash, \<open>next\<close> returns, whatever
  the policy answers and wherever in the walk it starts.
\<close>

theorem checker_walk_returns:
  assumes "checkable K sys"
  shows "\<exists>r. checker_next c sys = Some r"
  by (rule checker_next_returns [OF assms])

theorem checker_walk_returns_witness:
  "checkable 512 unchecked_sys \<and> (\<exists>r. checker_next rsa_checker unchecked_sys = Some r)"
proof -
  have "map_option pa_flash_start (get_addresses unchecked_proc) = Some 0x30000 \<and> map_option pa_flash_integrity_end (get_addresses unchecked_proc) = Some 0x30200 \<and>
      map_option pa_flash_end (get_addresses unchecked_proc) = Some 0x30200" by code_simp
  then have "footers_ok unchecked_proc" by (auto simp: footers_ok_def)
  moreover have "length (flash_bytes unchecked_proc) = 512" by (simp add: unchecked_proc_def)
  ultimately have "footers_ok unchecked_proc \<and> length (flash_bytes unchecked_proc) \<le> 512" by simp
  then have "checkable 512 unchecked_sys" by (simp add: checkable_def unchecked_sys_def one_slot)
  then show ?thesis using checker_walk_returns by blast
qed

section \<open>Shared memory\<close>

text \<open>
  C12. A driver that writes through a buffer a process shared changes memory of that process only:
  every byte outside the part of memory that was accessible to the process when it shared the buffer is
  as before, whether the copy succeeds, is refused for its length, or the process is gone.
\<close>

theorem shared_buffer_write_confined:
  assumes "build_readwrite_process_buffer addr len p = (Inr b, p')"
    and "processbuffer_mut_enter b (\<lambda>s m. Some (copy_from_slice_or_err s src m)) sys = Some (r, sys')"
    and "\<not> (unat (mem_start p) \<le> unat a \<and> unat a < unat (app_break p))"
  shows "memory (machine sys') a = memory (machine sys) a"
  by (rule shared_write_confined [OF assms])

theorem shared_buffer_write_confined_witness:
  "\<exists>b p' r sys'. build_readwrite_process_buffer 0x200007FC 4 clock_proc = (Inr b, p') \<and>
     processbuffer_mut_enter b (\<lambda>s m. Some (copy_from_slice_or_err s [1, 2, 3, 4] m)) clock_sys = Some (r, sys') \<and>
     memory (machine sys') 0x200007FF = 4 \<and> memory (machine sys') 0x20000800 = memory (machine clock_sys) 0x20000800"
proof -
  define build where "build = build_readwrite_process_buffer 0x200007FC 4 clock_proc"
  define enter where "enter b = processbuffer_mut_enter b (\<lambda>s m. Some (copy_from_slice_or_err s [1, 2, 3, 4] m)) clock_sys" for b
  have "case build of (Inl e, p') \<Rightarrow> False
      | (Inr b, p') \<Rightarrow> (case enter b of None \<Rightarrow> False | Some (r, sys') \<Rightarrow> memory (machine sys') 0x200007FF = 4)"
    unfolding build_def enter_def by code_simp
  then obtain b p' r sys' where res: "build = (Inr b, p')" "enter b = Some (r, sys')" "memory (machine sys') 0x200007FF = 4"
    by (auto split: prod.splits sum.splits option.splits)
  have out: "\<not> (unat (mem_start clock_proc) \<le> unat (0x20000800 :: usize) \<and> unat (0x20000800 :: usize) < unat (app_break clock_proc))"
    by (simp add: clock_proc_def mem_start_def)
  show ?thesis
    using shared_buffer_write_confined [OF res(1) [unfolded build_def] res(2) [unfolded enter_def] out] res
    unfolding build_def enter_def by blast
qed

section \<open>Alarms\<close>

text \<open>
  C15. When the hardware alarm has fired, the handler of the alarm multiplexer returns, the count of
  enabled virtual alarms is the number of armed ones, and the hardware is left disarmed if no virtual
  alarm is armed and otherwise set for one that has the least number of ticks to go. This holds
  whatever the clients of the alarms do that are called, as long as they keep that count.
\<close>

theorem mux_alarm_next:
  fixes m :: "(u32, 'c, 'w) MuxAlarm"
  assumes "mux_inv xs m" and "\<forall>c m. mux_inv xs m \<longrightarrow> (\<exists>m'. client c m = Some m' \<and> mux_inv xs m')"
  shows "\<exists>m' w now. mux_alarm Ticks32 A client m = Some m' \<and> mux_inv xs m' \<and> \<not> mux_firing m' \<and> now = fst (alarm_now A w) \<and>
    (if \<forall>i\<in>set xs. \<not> va_armed (valarms m' i) then mux_hw m' = alarm_disarm A (snd (alarm_now A w))
     else \<exists>i\<in>set xs. va_armed (valarms m' i) \<and>
       mux_hw m' = alarm_set_alarm A (tdr_reference (va_dt_reference (valarms m' i))) (tdr_dt (va_dt_reference (valarms m' i)))
         (snd (alarm_now A w)) \<and>
       (\<forall>j\<in>set xs. va_armed (valarms m' j) \<longrightarrow>
          unat (ticks_to_go Ticks32 now (valarms m' i)) \<le> unat (ticks_to_go Ticks32 now (valarms m' j))))"
  by (rule alarm32.mux_alarm_sets_soonest [OF assms(1)]) (use assms(2) in blast)

theorem mux_alarm_next_witness:
  "\<exists>m m'. two_alarms = Some m \<and> mux_alarm Ticks32 clock_alarm set_second m = Some m' \<and> mux_inv [0, 1] m' \<and>
     clock_deadline (mux_hw m') = Some 1122"
proof -
  obtain m where m: "two_alarms = Some m" "mux_inv [0, 1] m" using two_alarms_inv by blast
  have "\<forall>c m. mux_inv [0, 1] m \<longrightarrow> (\<exists>m'. set_second c m = Some m' \<and> mux_inv [0, 1] m')" using set_second_inv by blast
  from mux_alarm_next [OF m(2) this, of clock_alarm] obtain m' where
    m': "mux_alarm Ticks32 clock_alarm set_second m = Some m'" "mux_inv [0, 1] m'" by blast
  have "map_option (\<lambda>m. map_option (\<lambda>m. clock_deadline (mux_hw m)) (mux_alarm Ticks32 clock_alarm set_second m)) two_alarms =
      Some (Some (Some 1122))" by code_simp
  then have "clock_deadline (mux_hw m') = Some 1122" by (simp add: m(1) m'(1))
  then show ?thesis using m m' by blast
qed

section \<open>Communication\<close>

text \<open>
  C31. A process that notifies itself stops the kernel: when \<open>do_process\<close> takes a notification from
  the queue of a process that the process sent itself, and the process has used the communication
  driver before, the handler enters the process's grant while it has entered it already, which is a
  panic. The witness queues the notification with the driver's own command.
\<close>

theorem self_notification_panics:
  assumes "slot i sys = Some p" and "get_process (process_id p) sys = Some i" and "kp_ipc kp = Some g"
    and "grant_is_allocated (grant_grant_num g) p = Some True" and "dequeue_task p = Some (Some (IPC (process_id p) t), p1)"
  shows "run_pending_task chip kp i sys = None"
  by (rule self_notified_panics [OF assms])

theorem self_notification_panics_witness:
  "\<exists>sys. notified_sys = Some sys \<and> run_pending_task clock_chip clock_platform 0 sys = None"
proof -
  obtain sys p t p1 where n: "notified_sys = Some sys" "slot 0 sys = Some p" "get_process (process_id p) sys = Some 0"
      "grant_is_allocated 1 p = Some True" "dequeue_task p = Some (Some (IPC (process_id p) t), p1)"
    using notified_sys by blast
  have ipc: "kp_ipc clock_platform = Some (board_ipc 1)" by (simp add: clock_platform_def board_platform_def)
  have "grant_is_allocated (grant_grant_num (board_ipc 1)) p = Some True" using n(4) by (simp add: board_ipc_def IPC_new_def)
  from self_notification_panics [OF n(2,3) ipc this n(5)] show ?thesis using n(1) by blast
qed

end
